theory Spec2Isabelle
  imports Main "HOL-Library.Word"
begin

unbundle bit_operations_syntax

section \<open>Machine types\<close>

type_synonym u8 = "8 word"
type_synonym u16 = "16 word"
type_synonym u32 = "32 word"
type_synonym u64 = "64 word"

section \<open>Mailbox control word (mbdb.h, ops.h)\<close>

text \<open>
  The two C enums of ops.h.  \<open>msg_type_val\<close> and \<open>posted_val\<close> give the integer
  value of each enumerator, \<open>msg_type_of\<close> and \<open>posted_of\<close> read a one-bit value
  back as the enumerator.
\<close>

datatype mbdb_msg_type = MBOX_RESPONSE | MBOX_REQUEST

datatype posted = MBOX_RESPONSE_REQUESTED | MBOX_NO_RESPONSE_REQUESTED

fun msg_type_val :: "mbdb_msg_type \<Rightarrow> u64" where
  "msg_type_val MBOX_RESPONSE = 0"
| "msg_type_val MBOX_REQUEST = 1"

fun posted_val :: "posted \<Rightarrow> u64" where
  "posted_val MBOX_RESPONSE_REQUESTED = 0"
| "posted_val MBOX_NO_RESPONSE_REQUESTED = 1"

definition msg_type_of :: "u64 \<Rightarrow> mbdb_msg_type" where
  "msg_type_of v = (if v = 0 then MBOX_RESPONSE else MBOX_REQUEST)"

definition posted_of :: "u64 \<Rightarrow> posted" where
  "posted_of v = (if v = 0 then MBOX_RESPONSE_REQUESTED else MBOX_NO_RESPONSE_REQUESTED)"

text \<open>
  \<open>build_cw\<close>: every mask is an unsigned 64-bit constant, so each operand is
  widened to 64 bits before it is masked and shifted; the shifted fields are or-ed.
\<close>

definition build_cw :: "u8 \<Rightarrow> mbdb_msg_type \<Rightarrow> posted \<Rightarrow> u16 \<Rightarrow> u16 \<Rightarrow> u32 \<Rightarrow> u64" where
  "build_cw op_code req_rsp is_posted seq_no len tid =
     push_bit 0 (ucast op_code AND 0xFF) OR
     push_bit 8 (msg_type_val req_rsp AND 1) OR
     push_bit 9 (posted_val is_posted AND 1) OR
     push_bit 10 (ucast seq_no AND 0x3F) OR
     push_bit 16 (ucast len AND 0xFFF) OR
     push_bit 32 (ucast tid AND 0xFFFFFFFF)"

text \<open>
  The decoders cast the shifted word to the narrow result type first and mask
  afterwards (in 64 bits), as the C expressions \<open>(u8)(cw >> s) & MASK\<close> do.
\<close>

definition mbdb_mbox_op_code :: "u64 \<Rightarrow> u8" where
  "mbdb_mbox_op_code cw = ucast ((ucast (ucast (drop_bit 0 cw) :: u8) :: u64) AND 0xFF)"

definition mbdb_mbox_msg_type :: "u64 \<Rightarrow> mbdb_msg_type" where
  "mbdb_mbox_msg_type cw = msg_type_of (drop_bit 8 cw AND 1)"

definition mbdb_mbox_is_posted :: "u64 \<Rightarrow> posted" where
  "mbdb_mbox_is_posted cw = posted_of (drop_bit 9 cw AND 1)"

definition mbdb_mbox_seq_no :: "u64 \<Rightarrow> u8" where
  "mbdb_mbox_seq_no cw = ucast ((ucast (ucast (drop_bit 10 cw) :: u8) :: u64) AND 0x3F)"

definition mbdb_mbox_seqno_next :: "u8 \<Rightarrow> u8" where
  "mbdb_mbox_seqno_next seqno = ucast (((ucast seqno :: u64) + 1) AND 0x3F)"

definition mbdb_mbox_seqno_error :: "u8 \<Rightarrow> u8 \<Rightarrow> bool" where
  "mbdb_mbox_seqno_error seqno expected_seqno = (seqno \<noteq> expected_seqno)"

definition mbdb_mbox_params_len :: "u64 \<Rightarrow> u16" where
  "mbdb_mbox_params_len cw = ucast ((ucast (ucast (drop_bit 16 cw) :: u16) :: u64) AND 0xFFF)"

definition mbdb_mbox_tid :: "u64 \<Rightarrow> u32" where
  "mbdb_mbox_tid cw = ucast ((ucast (ucast (drop_bit 32 cw) :: u32) :: u64) AND 0xFFFFFFFF)"

definition mbdb_mbox_rsp_status :: "u64 \<Rightarrow> u8" where
  "mbdb_mbox_rsp_status cw = ucast ((ucast (ucast (drop_bit 28 cw) :: u8) :: u64) AND 0xF)"

section \<open>Forwarding-table blocks (routing_topology.h)\<close>

text \<open>
  A UFT block is a byte array holding two 4-bit ports per byte, the odd offset in
  the low nibble.  The C code computes in \<open>int\<close> and stores the low byte; the
  model widens to 32 bits and truncates in the same places.  The C functions do no
  bounds check: callers pass offsets inside the block.
\<close>

definition routing_uft_entry_set :: "u8 list \<Rightarrow> u16 \<Rightarrow> u8 \<Rightarrow> u8 list" where
  "routing_uft_entry_set block fid_offset port =
     (let i = unat (drop_bit 1 fid_offset) in
      if fid_offset AND 1 \<noteq> 0
      then block[i := ucast (((ucast (block ! i) :: u32) AND 0xf0) OR ((ucast port :: u32) AND 0xf))]
      else block[i := ucast (push_bit 4 (ucast port :: u32) OR ((ucast (block ! i) :: u32) AND 0xf))])"

definition routing_uft_entry_get :: "u8 list \<Rightarrow> u16 \<Rightarrow> u8" where
  "routing_uft_entry_get block fid_offset =
     ucast (drop_bit (if fid_offset AND 1 \<noteq> 0 then 0 else 4)
                     (ucast (block ! unat (drop_bit 1 fid_offset)) :: u32) AND 0xf)"

section \<open>Devices, subdevices and ports (csr.h, iaf_drv.h)\<close>

definition PORT_COUNT :: nat where "PORT_COUNT = 13"
definition PORT_FABRIC_START :: nat where "PORT_FABRIC_START = 1"

datatype errno = EINTR | EIO | ENOMEM | EINVAL | ENODEV | ETIMEDOUT

text \<open>The value a C function returns for \<open>-E...\<close>.\<close>

fun neg_errno :: "errno \<Rightarrow> int" where
  "neg_errno EINTR = -4"
| "neg_errno EIO = -5"
| "neg_errno ENOMEM = -12"
| "neg_errno ENODEV = -19"
| "neg_errno EINVAL = -22"
| "neg_errno ETIMEDOUT = -110"

datatype pm_port_state =
    PM_PORT_STATE_DISABLED
  | PM_PORT_STATE_ENABLED
  | PM_PORT_STATE_IN_ERROR
  | PM_PORT_STATE_ISOLATED
  | PM_PORT_STATE_RECHECK
  | PM_PORT_STATE_INIT
  | PM_PORT_STATE_ACTIVE

datatype PORT_CONTROL =
    PORT_CONTROL_ENABLED
  | PORT_CONTROL_ROUTABLE
  | PORT_CONTROL_BEACONING
  | PORT_CONTROL_CLEAR_ERROR

datatype fport_health =
  FPORT_HEALTH_BLACK | FPORT_HEALTH_RED | FPORT_HEALTH_YELLOW | FPORT_HEALTH_GREEN

datatype fport_issue = FPORT_ISSUE_LQI | FPORT_ISSUE_LWD | FPORT_ISSUE_RATE

datatype fport_error =
    FPORT_ERROR_NONE
  | FPORT_ERROR_FAILED
  | FPORT_ERROR_ISOLATED
  | FPORT_ERROR_FLAPPING
  | FPORT_ERROR_LINK_DOWN
  | FPORT_ERROR_DID_NOT_TRAIN

text \<open>\<open>struct portinfo\<close>, with the fields the modelled functions read.\<close>

record portinfo =
  neighbor_guid :: u64
  neighbor_port_number :: u8
  link_width_enabled :: u8
  link_width_active :: u8
  link_speed_enabled :: u8
  link_speed_active :: u8
  link_width_downgrade_rx_active :: u8
  link_width_downgrade_tx_active :: u8
  port_state_port_physical_state :: u8
  oldr_nn_lqi :: u8

text \<open>
  Pointers.  A subdevice is named by its position in the list of all subdevices of
  the system, a fabric port by its subdevice and its position in that subdevice's
  \<open>port[]\<close> array.  A bitmap of control bits is the set of the bits that are set.
  \<open>portinfo\<close> points into the subdevice's copy of the firmware's port table; the
  model keeps the pointed-to entry in the port (\<open>None\<close> for a null pointer).
\<close>

type_synonym sd_ref = nat
type_synonym fport_ref = "sd_ref \<times> nat"

record fport =
  sd :: sd_ref
  portinfo :: "portinfo option"
  state :: pm_port_state
  controls :: "PORT_CONTROL set"
  lpn :: u8
  log_state :: u8
  phys_state :: u8
  cached_neighbor :: "fport_ref option"

record fport_status =
  health :: fport_health
  issues :: "fport_issue set"
  error_reason :: fport_error

datatype fsubdev_routing_info_state = TILE_ROUTING_STATE_ERROR | TILE_ROUTING_STATE_VALID

text \<open>
  \<open>struct mbdb_op_switchinfo\<close> (its \<open>guid\<close> is \<open>guid_switchinfo\<close> here),
  \<open>struct routing_fidgen\<close> (its \<open>modulo\<close> and \<open>map\<close> are \<open>modulo_fidgen\<close> and
  \<open>map_fidgen\<close>) and \<open>struct routing_uft\<close>.  A block of a forwarding table is a
  byte array; the xarray \<open>bridges\<close> is the list of its entries, index and block, in
  the ascending order in which \<open>xa_for_each\<close> visits them, and \<open>xa_load\<close> looks an
  index up in it.
\<close>

record mbdb_op_switchinfo =
  guid_switchinfo :: u64
  num_ports :: u8
  slt_psc_ep0 :: u8
  routing_mode_supported :: u8
  routing_mode_enabled :: u8
  lft_top :: u32

record routing_fidgen =
  mask_a :: u64
  mask_b :: u64
  mask_d :: u64
  mask_h :: u64
  shift_a :: u8
  shift_b :: u8
  shift_h :: u8
  modulo_fidgen :: u8
  map_size :: u16
  map_fidgen :: "u64 list"

record routing_uft =
  mgmt :: "u8 list"
  bridges :: "(nat \<times> u8 list) list"


text \<open>
  \<open>struct fsubdev\<close>.  The fields of the embedded \<open>routing\<close> struct carry the prefix
  \<open>routing_\<close>.  \<open>lpn_fport_map\<close> gives the index into \<open>port\<close> of the fabric port
  with a logical port number, \<open>fport_lpns\<close> and \<open>bport_lpns\<close> are the two bitmaps.
  \<open>portstatus\<close> is the array \<open>_portstatus[2 * PORT_COUNT]\<close>; \<open>port_status\<close> (the
  published, RCU-protected pointer) and \<open>next_port_status\<close> are offsets into it,
  \<open>None\<close> for a null pointer.  \<open>routing_uft_next\<close> is the table the logic stage
  allocated for the sweep: the programming stage dereferences it without a test, and
  only visits subdevices that have one.
\<close>

record fsubdev =
  fdev :: nat
  guid :: u64
  port_cnt :: nat
  port :: "fport list"
  lpn_fport_map :: "nat \<Rightarrow> nat option"
  fport_lpns :: "nat set"
  bport_lpns :: "nat set"
  portstatus :: "fport_status list"
  port_status :: "nat option"
  next_port_status :: nat
  routing_state :: fsubdev_routing_info_state
  routing_plane :: "nat option"
  routing_plane_index :: nat
  switchinfo :: mbdb_op_switchinfo
  routing_uft :: "routing_uft option"
  routing_uft_next :: routing_uft
  routing_fidgen :: "routing_fidgen option"
  routing_fidgen_next :: "routing_fidgen option"
  routing_fid_base :: u16

text \<open>
  \<open>struct routing_plane\<close>: the member subdevices in list order, their number, and
  the cost matrix (\<open>None\<close> until it is allocated).  A plane pointer is the plane's
  position in the topology's plane list.
\<close>

record routing_plane =
  sd_list :: "sd_ref list"
  num_subdevs :: nat
  cost :: "u16 list option"

record fabric =
  sds :: "fsubdev list"
  routable_list :: "sd_ref list"
  planes :: "routing_plane list"

definition for_each_fabric_lpn :: "fsubdev \<Rightarrow> nat list" where
  "for_each_fabric_lpn s = filter (\<lambda>b. b \<in> fport_lpns s) [0..<PORT_COUNT]"

definition for_each_bridge_lpn :: "fsubdev \<Rightarrow> nat list" where
  "for_each_bridge_lpn s = filter (\<lambda>b. b \<in> bport_lpns s) [0..<PORT_COUNT]"

definition sd_fport_handle :: "fsubdev \<Rightarrow> nat \<Rightarrow> nat option" where
  "sd_fport_handle s l = (if l < PORT_COUNT then lpn_fport_map s l else None)"

definition get_fport_handle :: "fabric \<Rightarrow> sd_ref \<Rightarrow> nat \<Rightarrow> fport_ref option" where
  "get_fport_handle f s l = map_option (\<lambda>i. (s, i)) (sd_fport_handle (sds f ! s) l)"

definition fport_at :: "fabric \<Rightarrow> fport_ref \<Rightarrow> fport" where
  "fport_at f r = port (sds f ! fst r) ! snd r"


section \<open>Routing logic (routing_topology.h, routing_logic.c, main.c)\<close>

definition ROUTING_COST_INFINITE :: u16 where "ROUTING_COST_INFINITE = 0xffff"

definition neighbor_of :: "fabric \<Rightarrow> fport_ref \<Rightarrow> fport_ref option" where
  "neighbor_of f r = cached_neighbor (fport_at f r)"

definition port_is_routable :: "fport \<Rightarrow> bool" where
  "port_is_routable p = (state p = PM_PORT_STATE_ACTIVE \<and> PORT_CONTROL_ROUTABLE \<in> controls p)"

definition routing_sd_is_error :: "fsubdev \<Rightarrow> bool" where
  "routing_sd_is_error s = (routing_state s = TILE_ROUTING_STATE_ERROR)"

text \<open>\<open>find_routable_sd\<close>: the first subdevice of \<open>routable_list\<close> with the GUID.\<close>

definition find_routable_sd :: "fabric \<Rightarrow> u64 \<Rightarrow> sd_ref option" where
  "find_routable_sd f g = find (\<lambda>s. guid (sds f ! s) = g) (routable_list f)"

definition set_cached_neighbor :: "fabric \<Rightarrow> fport_ref \<Rightarrow> fport_ref option \<Rightarrow> fabric" where
  "set_cached_neighbor f r v =
     f\<lparr>sds := (sds f)[fst r := (sds f ! fst r)
         \<lparr>port := (port (sds f ! fst r))[snd r := (port (sds f ! fst r) ! snd r)\<lparr>cached_neighbor := v\<rparr>]\<rparr>]\<rparr>"

text \<open>
  \<open>process_neighbor\<close>: clear the cached neighbor, then run the chain of early
  returns; only when every test passes is the neighbor port cached.
\<close>

definition process_neighbor :: "sd_ref \<Rightarrow> fport_ref \<Rightarrow> fabric \<Rightarrow> fabric" where
  "process_neighbor sd_src port_src f =
     (let f1 = set_cached_neighbor f port_src None in
      if \<not> port_is_routable (fport_at f1 port_src) then f1
      else case portinfo (fport_at f1 port_src) of
        None \<Rightarrow> f1
      | Some pi \<Rightarrow>
          let nguid = neighbor_guid pi in
          if nguid = 0 \<or> guid (sds f1 ! sd_src) = nguid then f1
          else case find_routable_sd f1 nguid of
            None \<Rightarrow> f1
          | Some sd_dst \<Rightarrow>
             (case get_fport_handle f1 sd_dst (unat (neighbor_port_number pi)) of
                None \<Rightarrow> f1
              | Some port_dst \<Rightarrow>
                  if \<not> port_is_routable (fport_at f1 port_dst) then f1
                  else case portinfo (fport_at f1 port_dst) of
                    None \<Rightarrow> f1
                  | Some pid \<Rightarrow>
                      if neighbor_guid pid \<noteq> guid (sds f1 ! sd_src) then f1
                      else if neighbor_port_number pid \<noteq> lpn (fport_at f1 port_src) then f1
                      else set_cached_neighbor f1 port_src (Some port_dst)))"

text \<open>
  \<open>process_neighbors\<close>.  The subdevices it visits are those \<open>routing_sd_iter(0)\<close> and
  \<open>routing_sd_next\<close> yield; the two iterators are not among the sources, so the
  visited list is the parameter \<open>sd_iter\<close>.
\<close>

definition process_neighbors_port :: "sd_ref \<Rightarrow> nat \<Rightarrow> fabric \<Rightarrow> fabric" where
  "process_neighbors_port s l f =
     (case get_fport_handle f s l of None \<Rightarrow> f | Some p \<Rightarrow> process_neighbor s p f)"

definition process_neighbors_sd :: "sd_ref \<Rightarrow> fabric \<Rightarrow> fabric" where
  "process_neighbors_sd s f = fold (process_neighbors_port s) (for_each_fabric_lpn (sds f ! s)) f"

definition process_neighbors :: "sd_ref list \<Rightarrow> fabric \<Rightarrow> fabric" where
  "process_neighbors sd_iter f = fold process_neighbors_sd sd_iter f"

text \<open>
  \<open>plane_alloc\<close> appends a zeroed plane to the topology's list and returns it with
  its pointer; the caller decides on allocation failure.
\<close>

definition plane_alloc :: "fabric \<Rightarrow> fabric \<times> nat" where
  "plane_alloc f =
     (f\<lparr>planes := planes f @ [\<lparr>sd_list = [], num_subdevs = 0, cost = None\<rparr>]\<rparr>, length (planes f))"

text \<open>
  One fabric port of \<open>propagate_plane_entry\<close>'s loop.  The C code dereferences the
  port handle and the neighbor's subdevice pointer unchecked; both are valid by
  construction (\<open>fport_lpns\<close> and \<open>lpn_fport_map\<close> are filled together), and the model
  skips the port where they are not.
\<close>

definition propagate_plane_port ::
  "nat \<Rightarrow> sd_ref \<Rightarrow> nat \<Rightarrow> fabric \<times> sd_ref list \<Rightarrow> fabric \<times> sd_ref list" where
  "propagate_plane_port pl s l fq =
     (let f = fst fq; queue = snd fq in
      case get_fport_handle f s l of
        None \<Rightarrow> fq
      | Some p \<Rightarrow>
         (case neighbor_of f p of
            None \<Rightarrow> fq
          | Some port_neighbor \<Rightarrow>
              let sd_neighbor = sd (fport_at f port_neighbor) in
              if \<not> sd_neighbor < length (sds f) then fq
              else if routing_sd_is_error (sds f ! sd_neighbor)
                      \<or> routing_plane (sds f ! sd_neighbor) \<noteq> None then fq
              else (f\<lparr>sds := (sds f)[sd_neighbor := (sds f ! sd_neighbor)\<lparr>routing_plane := Some pl\<rparr>]\<rparr>,
                    queue @ [sd_neighbor])))"

definition propagate_plane_entry ::
  "sd_ref list \<Rightarrow> nat \<Rightarrow> sd_ref \<Rightarrow> fabric \<Rightarrow> fabric \<times> sd_ref list" where
  "propagate_plane_entry queue pl s f =
     (let own = the (routing_plane (sds f ! s));
          idx = num_subdevs (planes f ! own);
          f1 = f\<lparr>planes := (planes f)[pl := (planes f ! pl)\<lparr>sd_list := sd_list (planes f ! pl) @ [s]\<rparr>]\<rparr>;
          f2 = f1\<lparr>planes := (planes f1)[own := (planes f1 ! own)\<lparr>num_subdevs := idx + 1\<rparr>]\<rparr>;
          f3 = f2\<lparr>sds := (sds f2)[s := (sds f2 ! s)\<lparr>routing_plane_index := idx\<rparr>]\<rparr>
      in fold (propagate_plane_port pl s) (for_each_fabric_lpn (sds f3 ! s)) (f3, queue))"

text \<open>The number of subdevices without a plane: what the breadth-first search uses up.\<close>

definition unassigned :: "fabric \<Rightarrow> nat" where
  "unassigned f = length (filter (\<lambda>s. routing_plane s = None) (sds f))"

lemma filter_update_less:
  assumes "i < length xs" and "P (xs ! i)" and "\<not> P v"
  shows "Suc (length (filter P (xs[i := v]))) = length (filter P xs)"
  using assms
proof (induction xs arbitrary: i)
  case Nil then show ?case by simp
next
  case (Cons x xs)
  then show ?case by (cases i) auto
qed

lemma filter_update_same:
  assumes "P v = P (xs ! i)"
  shows "length (filter P (xs[i := v])) = length (filter P xs)"
  using assms
proof (induction xs arbitrary: i)
  case Nil then show ?case by simp
next
  case (Cons x xs)
  then show ?case by (cases i) auto
qed

lemma assign_plane_unassigned:
  assumes "n < length (sds f)" and "routing_plane (sds f ! n) = None"
  shows "Suc (unassigned (f\<lparr>sds := (sds f)[n := (sds f ! n)\<lparr>routing_plane := Some pl\<rparr>]\<rparr>))
           = unassigned f"
  unfolding unassigned_def
  using filter_update_less[of n "sds f" "\<lambda>s. routing_plane s = None"
          "(sds f ! n)\<lparr>routing_plane := Some pl\<rparr>"] assms
  by simp

lemma propagate_plane_port_measure:
  "2 * unassigned (fst (propagate_plane_port pl s l fq)) + length (snd (propagate_plane_port pl s l fq))
     \<le> 2 * unassigned (fst fq) + length (snd fq)"
proof -
  obtain f q where fq: "fq = (f, q)" by (cases fq)
  show ?thesis
  proof (cases "get_fport_handle f s l")
    case None
    then show ?thesis by (simp add: fq propagate_plane_port_def)
  next
    case (Some p)
    show ?thesis
    proof (cases "neighbor_of f p")
      case None
      then show ?thesis using Some by (simp add: fq propagate_plane_port_def)
    next
      case (Some port_neighbor)
      let ?n = "sd (fport_at f port_neighbor)"
      show ?thesis
      proof (cases "?n < length (sds f) \<and> \<not> routing_sd_is_error (sds f ! ?n)
                      \<and> routing_plane (sds f ! ?n) = None")
        case True
        then have "Suc (unassigned (f\<lparr>sds := (sds f)[?n := (sds f ! ?n)\<lparr>routing_plane := Some pl\<rparr>]\<rparr>))
                     = unassigned f"
          using assign_plane_unassigned by blast
        then show ?thesis
          using True Some \<open>get_fport_handle f s l = Some p\<close>
          by (simp add: fq propagate_plane_port_def Let_def)
      next
        case False
        then show ?thesis
          using Some \<open>get_fport_handle f s l = Some p\<close>
          by (auto simp add: fq propagate_plane_port_def Let_def)
      qed
    qed
  qed
qed

lemma fold_port_measure:
  "2 * unassigned (fst (fold (propagate_plane_port pl s) ls fq))
     + length (snd (fold (propagate_plane_port pl s) ls fq))
     \<le> 2 * unassigned (fst fq) + length (snd fq)"
proof (induction ls arbitrary: fq)
  case Nil then show ?case by simp
next
  case (Cons l ls)
  show ?case
    using Cons.IH[of "propagate_plane_port pl s l fq"] propagate_plane_port_measure[of pl s l fq]
    by simp
qed

lemma propagate_plane_entry_measure:
  "2 * unassigned (fst (propagate_plane_entry q pl s f)) + length (snd (propagate_plane_entry q pl s f))
     \<le> 2 * unassigned f + length q"
proof -
  define f3 where "f3 = (let own = the (routing_plane (sds f ! s));
          idx = num_subdevs (planes f ! own);
          f1 = f\<lparr>planes := (planes f)[pl := (planes f ! pl)\<lparr>sd_list := sd_list (planes f ! pl) @ [s]\<rparr>]\<rparr>;
          f2 = f1\<lparr>planes := (planes f1)[own := (planes f1 ! own)\<lparr>num_subdevs := idx + 1\<rparr>]\<rparr>
       in f2\<lparr>sds := (sds f2)[s := (sds f2 ! s)\<lparr>routing_plane_index := idx\<rparr>]\<rparr>)"
  have u: "unassigned f3 = unassigned f"
    unfolding f3_def unassigned_def Let_def
    by (simp add: filter_update_same)
  have e: "propagate_plane_entry q pl s f
      = fold (propagate_plane_port pl s) (for_each_fabric_lpn (sds f3 ! s)) (f3, q)"
    unfolding propagate_plane_entry_def f3_def Let_def by simp
  show ?thesis unfolding e using fold_port_measure[of pl s _ "(f3, q)"] u by simp
qed

text \<open>
  The \<open>while (!list_empty(&queue))\<close> loop of \<open>propagate_plane\<close>.  It terminates:
  every subdevice put on the queue had no plane before, and gets one.
\<close>

function propagate_plane_loop :: "nat \<Rightarrow> fabric \<Rightarrow> sd_ref list \<Rightarrow> fabric" where
  "propagate_plane_loop pl f [] = f"
| "propagate_plane_loop pl f (s # queue) =
     (let r = propagate_plane_entry queue pl s f in propagate_plane_loop pl (fst r) (snd r))"
  by pat_completeness auto
termination
proof (relation "measure (\<lambda>(pl, f, q). 2 * unassigned f + length q)")
  show "wf (measure (\<lambda>(pl, f, q). 2 * unassigned f + length q))" by simp
next
  fix pl f s queue r
  assume "r = propagate_plane_entry queue pl s f"
  then show "((pl, fst r, snd r), pl, f, s # queue)
               \<in> measure (\<lambda>(pl, f, q). 2 * unassigned f + length q)"
    using propagate_plane_entry_measure[of queue pl s f] by (simp add: split_beta)
qed

definition propagate_plane :: "nat \<Rightarrow> sd_ref \<Rightarrow> fabric \<Rightarrow> fabric" where
  "propagate_plane pl root f = propagate_plane_loop pl f [root]"

text \<open>
  \<open>build_planes\<close>.  Destroying every plane clears the plane and the plane index of
  its members and empties the list.  Then each visited subdevice without a plane
  gets a fresh one, which is propagated.  \<open>alloc_ok k\<close> says whether the allocation
  of the \<open>k\<close>-th plane succeeds; on failure the function returns \<open>-ENOMEM\<close>.  The
  visited list is the parameter \<open>sd_iter\<close>, as for \<open>process_neighbors\<close>.
\<close>

definition routing_plane_clear_sd :: "sd_ref \<Rightarrow> fsubdev list \<Rightarrow> fsubdev list" where
  "routing_plane_clear_sd s ss = ss[s := (ss ! s)\<lparr>routing_plane := None, routing_plane_index := 0\<rparr>]"

definition destroy_planes :: "fabric \<Rightarrow> fabric" where
  "destroy_planes f =
     f\<lparr>sds := fold routing_plane_clear_sd (concat (map sd_list (planes f))) (sds f), planes := []\<rparr>"

definition build_planes_sd :: "(nat \<Rightarrow> bool) \<Rightarrow> sd_ref \<Rightarrow> errno + fabric \<Rightarrow> errno + fabric" where
  "build_planes_sd alloc_ok s r =
     (case r of
        Inl e \<Rightarrow> Inl e
      | Inr f \<Rightarrow>
          if routing_plane (sds f ! s) \<noteq> None then Inr f
          else if \<not> alloc_ok (length (planes f)) then Inl ENOMEM
          else let (f1, pl) = plane_alloc f;
                   f2 = f1\<lparr>sds := (sds f1)[s := (sds f1 ! s)\<lparr>routing_plane := Some pl\<rparr>]\<rparr>
               in Inr (propagate_plane pl s f2))"

definition build_planes :: "(nat \<Rightarrow> bool) \<Rightarrow> sd_ref list \<Rightarrow> fabric \<Rightarrow> errno + fabric" where
  "build_planes alloc_ok sd_iter f = fold (build_planes_sd alloc_ok) sd_iter (Inr (destroy_planes f))"

text \<open>
  \<open>routing_cost_lookup\<close>: infinite unless both subdevices are on the same plane,
  else the matrix entry at the two plane indices.
\<close>

definition routing_cost_lookup :: "fabric \<Rightarrow> sd_ref \<Rightarrow> sd_ref \<Rightarrow> u16" where
  "routing_cost_lookup f sd_src sd_dst =
     (case routing_plane (sds f ! sd_src) of
        None \<Rightarrow> ROUTING_COST_INFINITE
      | Some pl \<Rightarrow>
          if routing_plane (sds f ! sd_dst) \<noteq> Some pl then ROUTING_COST_INFINITE
          else let i = routing_plane_index (sds f ! sd_src);
                   j = routing_plane_index (sds f ! sd_dst);
                   n = num_subdevs (planes f ! pl)
               in the (cost (planes f ! pl)) ! (i * n + j))"

text \<open>
  \<open>compute_cost_for_plane\<close>.  The matrix is a row-major array of \<open>u16\<close>, filled
  with \<open>0xff\<close> bytes, then seeded (0 on the diagonal, 1 for each cached neighbor),
  then relaxed.  \<open>value\<close> is a \<open>u16\<close>: the sum of the two costs is truncated to 16
  bits before it is compared, which is what addition on \<open>16 word\<close> does.  The loop
  indices are C \<open>int\<close>s far below overflow (a plane has at most 65535 members) and
  are natural numbers here.
\<close>

definition seed_port :: "fabric \<Rightarrow> nat \<Rightarrow> sd_ref \<Rightarrow> nat \<Rightarrow> nat \<Rightarrow> u16 list \<Rightarrow> u16 list" where
  "seed_port f n s i l c =
     (case get_fport_handle f s l of
        None \<Rightarrow> c
      | Some p \<Rightarrow>
         (case neighbor_of f p of
            None \<Rightarrow> c
          | Some port_neighbor \<Rightarrow>
              let j = routing_plane_index (sds f ! sd (fport_at f port_neighbor))
              in c[i * n + j := 1]))"

definition seed_sd :: "fabric \<Rightarrow> nat \<Rightarrow> sd_ref \<Rightarrow> u16 list \<Rightarrow> u16 list" where
  "seed_sd f n s c =
     (let i = routing_plane_index (sds f ! s)
      in fold (seed_port f n s i) (for_each_fabric_lpn (sds f ! s)) (c[i * n + i := 0]))"

definition relax_j :: "nat \<Rightarrow> nat \<Rightarrow> nat \<Rightarrow> nat \<Rightarrow> u16 list \<Rightarrow> u16 list" where
  "relax_j n k i j c =
     (if j = k then c
      else let ij = i * n + j; kj = k * n + j; ik = i * n + k;
               value = c ! ik + c ! kj
           in if c ! ij > value then (c[ij := value])[j * n + i := value] else c)"

definition relax_i :: "nat \<Rightarrow> nat \<Rightarrow> nat \<Rightarrow> u16 list \<Rightarrow> u16 list" where
  "relax_i n k i c =
     (if i = k then c
      else if c ! (i * n + k) = ROUTING_COST_INFINITE then c
      else fold (relax_j n k i) [i + 1..<n] c)"

definition relax_k :: "nat \<Rightarrow> nat \<Rightarrow> u16 list \<Rightarrow> u16 list" where
  "relax_k n k c = fold (relax_i n k) [0..<n - 1] c"

definition compute_cost_for_plane :: "bool \<Rightarrow> fabric \<Rightarrow> nat \<Rightarrow> errno + fabric" where
  "compute_cost_for_plane kmalloc_ok f pl =
     (let plane = planes f ! pl; n = num_subdevs plane in
      if \<not> kmalloc_ok then Inl ENOMEM
      else let c0 = replicate (n * n) (0xffff :: u16);
               c1 = fold (seed_sd f n) (sd_list plane) c0;
               c2 = fold (relax_k n) [0..<n] c1
           in Inr (f\<lparr>planes := (planes f)[pl := plane\<lparr>cost := Some c2\<rparr>]\<rparr>))"

section \<open>Port manager (port.c)\<close>

definition IB_PORT_DOWN :: u8 where "IB_PORT_DOWN = 1"
definition IB_PORT_INIT :: u8 where "IB_PORT_INIT = 2"
definition IB_PORT_ARMED :: u8 where "IB_PORT_ARMED = 3"
definition IB_PORT_ACTIVE :: u8 where "IB_PORT_ACTIVE = 4"
definition IB_PORT_PHYS_POLLING :: u32 where "IB_PORT_PHYS_POLLING = 2"
definition IB_PORT_PHYS_DISABLED :: u32 where "IB_PORT_PHYS_DISABLED = 3"

text \<open>
  \<open>struct fsm_io\<close>, and the state one port manager pass works on: the subdevice,
  the global counter \<open>isolated_port_cnt\<close>, the pass's \<open>fsm_io\<close>, and the mailbox
  calls issued so far.  The firmware is the environment: \<open>mbox_rsp env k\<close> is what the
  \<open>k\<close>-th mailbox call of the pass returns, the function result \<open>err\<close> and the
  response word \<open>op_err\<close>.  The device table searched by \<open>fdev_find_by_sd_guid\<close> and
  the two loopback module parameters are part of the environment as well.
\<close>

record fsm_io =
  deisolating :: bool
  routing_changed :: bool
  rescan_needed :: bool
  request_deisolation :: bool

datatype mbox_op =
    LINK_MGR_PORT_MAJOR_PHYSICAL_STATE_SET u32 u32
  | LINK_MGR_PORT_LINK_STATE_SET u32 u32

record pm =
  pm_sd :: fsubdev
  isolated_port_cnt :: int
  fio :: fsm_io
  mbox_calls :: "mbox_op list"

record pm_env =
  mbox_rsp :: "nat \<Rightarrow> int \<times> u32"
  fdev_find_by_sd_guid :: "u64 \<Rightarrow> nat option"
  port_allow_direct_loopback :: bool
  port_isolate_loop_pairs :: bool

definition mbox_call :: "pm_env \<Rightarrow> mbox_op \<Rightarrow> pm \<Rightarrow> (int \<times> u32) \<times> pm" where
  "mbox_call env c st = (mbox_rsp env (length (mbox_calls st)), st\<lparr>mbox_calls := mbox_calls st @ [c]\<rparr>)"

definition ops_linkmgr_port_maj_phystate_set ::
  "pm_env \<Rightarrow> u8 \<Rightarrow> u32 \<Rightarrow> pm \<Rightarrow> (int \<times> u32) \<times> pm" where
  "ops_linkmgr_port_maj_phystate_set env l new_state st =
     mbox_call env (LINK_MGR_PORT_MAJOR_PHYSICAL_STATE_SET (ucast l) new_state) st"

definition ops_linkmgr_port_link_state_set ::
  "pm_env \<Rightarrow> u8 \<Rightarrow> u32 \<Rightarrow> pm \<Rightarrow> (int \<times> u32) \<times> pm" where
  "ops_linkmgr_port_link_state_set env l new_state st =
     mbox_call env (LINK_MGR_PORT_LINK_STATE_SET (ucast l) new_state) st"

text \<open>Access to the port \<open>p = &sd->port[i]\<close> and to \<open>sd->next_port_status[p->lpn]\<close>.\<close>

definition pm_port :: "pm \<Rightarrow> nat \<Rightarrow> fport" where
  "pm_port st i = port (pm_sd st) ! i"

definition pm_port_update :: "nat \<Rightarrow> (fport \<Rightarrow> fport) \<Rightarrow> pm \<Rightarrow> pm" where
  "pm_port_update i g st =
     st\<lparr>pm_sd := (pm_sd st)\<lparr>port := (port (pm_sd st))[i := g (port (pm_sd st) ! i)]\<rparr>\<rparr>"

definition next_status_index :: "pm \<Rightarrow> nat \<Rightarrow> nat" where
  "next_status_index st i = next_port_status (pm_sd st) + unat (lpn (pm_port st i))"

definition pm_next_status :: "pm \<Rightarrow> nat \<Rightarrow> fport_status" where
  "pm_next_status st i = portstatus (pm_sd st) ! next_status_index st i"

definition pm_next_status_update :: "nat \<Rightarrow> (fport_status \<Rightarrow> fport_status) \<Rightarrow> pm \<Rightarrow> pm" where
  "pm_next_status_update i g st =
     st\<lparr>pm_sd := (pm_sd st)\<lparr>portstatus :=
        (portstatus (pm_sd st))[next_status_index st i := g (portstatus (pm_sd st) ! next_status_index st i)]\<rparr>\<rparr>"

definition set_routing_changed :: "pm \<Rightarrow> pm" where
  "set_routing_changed st = st\<lparr>fio := (fio st)\<lparr>routing_changed := True\<rparr>\<rparr>"

definition set_health_black :: "fport_status \<Rightarrow> fport_status" where
  "set_health_black status =
     status\<lparr>health := FPORT_HEALTH_BLACK, issues := {}, error_reason := FPORT_ERROR_NONE\<rparr>"

definition set_health_red :: "fport_error \<Rightarrow> fport_status \<Rightarrow> fport_status" where
  "set_health_red reason status =
     status\<lparr>health := FPORT_HEALTH_RED, issues := {}, error_reason := reason\<rparr>"

definition set_health_yellow :: "fport_issue \<Rightarrow> fport_status \<Rightarrow> fport_status" where
  "set_health_yellow issue status =
     status\<lparr>health := FPORT_HEALTH_YELLOW, issues := insert issue (issues status)\<rparr>"

definition set_health_green :: "fport_status \<Rightarrow> fport_status" where
  "set_health_green status =
     status\<lparr>health := FPORT_HEALTH_GREEN, issues := {}, error_reason := FPORT_ERROR_NONE\<rparr>"

text \<open>\<open>fls\<close>: the 1-based position of the most significant set bit, 0 for 0.\<close>

definition fls :: "u8 \<Rightarrow> nat" where
  "fls w = length (dropWhile Not (rev (map (bit w) [0..<8])))"

text \<open>\<open>FIELD_GET\<close> of the two fields of \<open>oldr_nn_lqi\<close> the port manager reads.\<close>

definition OLDR_NN_LQI_NEIGHBOR_NORMAL :: "u8 \<Rightarrow> u8" where
  "OLDR_NN_LQI_NEIGHBOR_NORMAL v = drop_bit 4 v AND 1"

definition OLDR_NN_LQI_LINK_QUALITY_INDICATOR :: "u8 \<Rightarrow> u8" where
  "OLDR_NN_LQI_LINK_QUALITY_INDICATOR v = drop_bit 5 v AND 7"

definition atomic_dec_if_isolated :: "nat \<Rightarrow> pm \<Rightarrow> pm" where
  "atomic_dec_if_isolated i st =
     (if state (pm_port st i) = PM_PORT_STATE_ISOLATED
      then st\<lparr>isolated_port_cnt := isolated_port_cnt st - 1\<rparr> else st)"

text \<open>
  The FSM actions.  They return nothing in C; a mailbox error is logged, never
  returned.  The functions that read through \<open>p->portinfo\<close> do so unchecked, so the
  model's actions return an option: \<open>None\<close> stands for the dereference of a null
  \<open>portinfo\<close> pointer, which no port set up by \<open>initial_port_state\<close> has.
\<close>

definition port_in_error :: "pm_env \<Rightarrow> nat \<Rightarrow> pm \<Rightarrow> pm" where
  "port_in_error env i st =
     (let st1 = atomic_dec_if_isolated i st;
          st2 = pm_port_update i (\<lambda>p. p\<lparr>state := PM_PORT_STATE_IN_ERROR\<rparr>) st1;
          st3 = pm_next_status_update i (set_health_red FPORT_ERROR_FAILED) st2;
          st4 = set_routing_changed st3
      in snd (ops_linkmgr_port_maj_phystate_set env (lpn (pm_port st4 i)) IB_PORT_PHYS_DISABLED st4))"

definition port_disable :: "pm_env \<Rightarrow> nat \<Rightarrow> pm \<Rightarrow> pm" where
  "port_disable env i st =
     (let st1 = atomic_dec_if_isolated i st;
          (rsp, st2) = ops_linkmgr_port_maj_phystate_set env (lpn (pm_port st1 i)) IB_PORT_PHYS_DISABLED st1
      in if fst rsp \<noteq> 0 \<or> snd rsp \<noteq> 0 then port_in_error env i st2
         else set_routing_changed
                (pm_next_status_update i set_health_black
                  (pm_port_update i (\<lambda>p. p\<lparr>state := PM_PORT_STATE_DISABLED\<rparr>) st2)))"

definition port_enable_polling :: "pm_env \<Rightarrow> nat \<Rightarrow> pm \<Rightarrow> pm" where
  "port_enable_polling env i st =
     (let (rsp, st1) = ops_linkmgr_port_maj_phystate_set env (lpn (pm_port st i)) IB_PORT_PHYS_POLLING st
      in if fst rsp \<noteq> 0 \<or> snd rsp \<noteq> 0 then port_in_error env i st1
         else (pm_port_update i (\<lambda>p. p\<lparr>state := PM_PORT_STATE_ENABLED\<rparr>) st1)
                \<lparr>fio := (fio st1)\<lparr>request_deisolation := True\<rparr>\<rparr>)"

definition port_isolate :: "pm_env \<Rightarrow> nat \<Rightarrow> pm \<Rightarrow> pm" where
  "port_isolate env i st =
     (let (rsp, st1) = ops_linkmgr_port_maj_phystate_set env (lpn (pm_port st i)) IB_PORT_PHYS_DISABLED st
      in if fst rsp \<noteq> 0 \<or> snd rsp \<noteq> 0 then port_in_error env i st1
         else (let st2 = pm_next_status_update i (set_health_red FPORT_ERROR_ISOLATED)
                           (pm_port_update i (\<lambda>p. p\<lparr>state := PM_PORT_STATE_ISOLATED\<rparr>) st1)
               in st2\<lparr>isolated_port_cnt := isolated_port_cnt st2 + 1\<rparr>))"

definition port_deisolate :: "pm_env \<Rightarrow> nat \<Rightarrow> pm \<Rightarrow> pm" where
  "port_deisolate env i st =
     (let st1 = st\<lparr>isolated_port_cnt := isolated_port_cnt st - 1\<rparr>;
          (rsp, st2) = ops_linkmgr_port_maj_phystate_set env (lpn (pm_port st1 i)) IB_PORT_PHYS_POLLING st1
      in if fst rsp \<noteq> 0 \<or> snd rsp \<noteq> 0 then port_in_error env i st2
         else pm_next_status_update i set_health_black
                (pm_port_update i (\<lambda>p. p\<lparr>state := PM_PORT_STATE_RECHECK\<rparr>) st2))"

definition set_active_health :: "nat \<Rightarrow> pm \<Rightarrow> pm option" where
  "set_active_health i st =
     (case portinfo (pm_port st i) of
        None \<Rightarrow> None
      | Some pi \<Rightarrow>
          let st1 = pm_next_status_update i set_health_green st;
              st2 = (if unat (OLDR_NN_LQI_LINK_QUALITY_INDICATOR (oldr_nn_lqi pi)) < 4
                     then pm_next_status_update i (set_health_yellow FPORT_ISSUE_LQI) st1 else st1);
              st3 = (if fls (link_width_active pi) < fls (link_width_enabled pi)
                        \<or> link_width_downgrade_rx_active pi \<noteq> link_width_active pi
                        \<or> link_width_downgrade_tx_active pi \<noteq> link_width_active pi
                     then pm_next_status_update i (set_health_yellow FPORT_ISSUE_LWD) st2 else st2);
              st4 = (if fls (link_speed_enabled pi) < fls (link_speed_active pi)
                     then pm_next_status_update i (set_health_yellow FPORT_ISSUE_RATE) st3 else st3)
          in Some st4)"

definition port_activate :: "pm_env \<Rightarrow> nat \<Rightarrow> pm \<Rightarrow> pm option" where
  "port_activate env i st =
     (let (rsp, st1) = ops_linkmgr_port_link_state_set env (lpn (pm_port st i)) (ucast IB_PORT_ACTIVE) st
      in if fst rsp \<noteq> 0 \<or> snd rsp \<noteq> 0 then Some (port_in_error env i st1)
         else map_option set_routing_changed
                (set_active_health i (pm_port_update i (\<lambda>p. p\<lparr>state := PM_PORT_STATE_ACTIVE\<rparr>) st1)))"

definition valid_neighbor :: "pm_env \<Rightarrow> nat \<Rightarrow> pm \<Rightarrow> bool option" where
  "valid_neighbor env i st =
     (case portinfo (pm_port st i) of
        None \<Rightarrow> None
      | Some pi \<Rightarrow>
         (case fdev_find_by_sd_guid env (neighbor_guid pi) of
            None \<Rightarrow> Some False
          | Some neighbor_dev \<Rightarrow>
              if neighbor_dev \<noteq> fdev (pm_sd st) then Some True
              else if neighbor_guid pi = guid (pm_sd st)
                      \<and> neighbor_port_number pi = lpn (pm_port st i)
                   then Some (port_allow_direct_loopback env)
                   else Some (\<not> port_isolate_loop_pairs env)))"

definition port_arm :: "pm_env \<Rightarrow> nat \<Rightarrow> pm \<Rightarrow> pm option" where
  "port_arm env i st =
     (let (rsp, st1) = ops_linkmgr_port_link_state_set env (lpn (pm_port st i)) (ucast IB_PORT_ARMED) st
      in if fst rsp \<noteq> 0 \<or> snd rsp \<noteq> 0 then Some (port_in_error env i st1)
         else let st2 = pm_port_update i (\<lambda>p. p\<lparr>state := PM_PORT_STATE_INIT\<rparr>) st1
              in case portinfo (pm_port st2 i) of
                   None \<Rightarrow> None
                 | Some pi \<Rightarrow>
                     if OLDR_NN_LQI_NEIGHBOR_NORMAL (oldr_nn_lqi pi) \<noteq> 0
                     then port_activate env i st2 else Some st2)"

definition port_arm_or_isolate :: "pm_env \<Rightarrow> nat \<Rightarrow> pm \<Rightarrow> pm option" where
  "port_arm_or_isolate env i st =
     (case valid_neighbor env i st of
        None \<Rightarrow> None
      | Some True \<Rightarrow> port_arm env i st
      | Some False \<Rightarrow> Some (port_isolate env i st))"

definition port_retry :: "nat \<Rightarrow> pm \<Rightarrow> pm" where
  "port_retry i st =
     pm_port_update i (\<lambda>p. p\<lparr>state := PM_PORT_STATE_ENABLED\<rparr>)
       (pm_next_status_update i (set_health_red FPORT_ERROR_LINK_DOWN) st)"

definition port_rearm :: "pm_env \<Rightarrow> nat \<Rightarrow> pm \<Rightarrow> pm option" where
  "port_rearm env i st =
     port_arm env i (pm_next_status_update i (set_health_red FPORT_ERROR_LINK_DOWN) st)"

definition port_retry_active :: "nat \<Rightarrow> pm \<Rightarrow> pm" where
  "port_retry_active i st = set_routing_changed (port_retry i st)"

definition port_rearm_active :: "pm_env \<Rightarrow> nat \<Rightarrow> pm \<Rightarrow> pm option" where
  "port_rearm_active env i st = map_option set_routing_changed (port_rearm env i st)"

text \<open>The FSM states: one function per state, as in the source.\<close>

definition fsm_DISABLED :: "pm_env \<Rightarrow> nat \<Rightarrow> pm \<Rightarrow> pm option" where
  "fsm_DISABLED env i st =
     (if PORT_CONTROL_ENABLED \<in> controls (pm_port st i) then Some (port_enable_polling env i st)
      else Some st)"

definition fsm_ENABLED :: "pm_env \<Rightarrow> nat \<Rightarrow> pm \<Rightarrow> pm option" where
  "fsm_ENABLED env i st =
     (if PORT_CONTROL_ENABLED \<notin> controls (pm_port st i) then Some (port_disable env i st)
      else if log_state (pm_port st i) = IB_PORT_DOWN then Some st
      else if log_state (pm_port st i) = IB_PORT_INIT then port_arm_or_isolate env i st
      else Some (port_in_error env i st))"

definition fsm_IN_ERROR :: "pm_env \<Rightarrow> nat \<Rightarrow> pm \<Rightarrow> pm option" where
  "fsm_IN_ERROR env i st =
     (if PORT_CONTROL_CLEAR_ERROR \<in> controls (pm_port st i)
      then Some ((pm_port_update i
                    (\<lambda>p. p\<lparr>controls := controls p - {PORT_CONTROL_CLEAR_ERROR},
                            state := PM_PORT_STATE_DISABLED\<rparr>) st)
                  \<lparr>fio := (fio st)\<lparr>rescan_needed := True\<rparr>\<rparr>)
      else Some st)"

definition fsm_ISOLATED :: "pm_env \<Rightarrow> nat \<Rightarrow> pm \<Rightarrow> pm option" where
  "fsm_ISOLATED env i st =
     (if PORT_CONTROL_ENABLED \<notin> controls (pm_port st i) then Some (port_disable env i st)
      else if deisolating (fio st) then Some (port_deisolate env i st)
      else Some st)"

definition fsm_RECHECK :: "pm_env \<Rightarrow> nat \<Rightarrow> pm \<Rightarrow> pm option" where
  "fsm_RECHECK env i st =
     (if PORT_CONTROL_ENABLED \<notin> controls (pm_port st i) then Some (port_disable env i st)
      else if log_state (pm_port st i) = IB_PORT_DOWN then Some st
      else if log_state (pm_port st i) = IB_PORT_INIT then port_arm_or_isolate env i st
      else Some (port_in_error env i st))"

definition fsm_INIT :: "pm_env \<Rightarrow> nat \<Rightarrow> pm \<Rightarrow> pm option" where
  "fsm_INIT env i st =
     (case portinfo (pm_port st i) of
        None \<Rightarrow> None
      | Some pi \<Rightarrow>
          if PORT_CONTROL_ENABLED \<notin> controls (pm_port st i) then Some (port_disable env i st)
          else if log_state (pm_port st i) = IB_PORT_DOWN then Some (port_retry i st)
          else if log_state (pm_port st i) = IB_PORT_INIT then port_rearm env i st
          else if OLDR_NN_LQI_NEIGHBOR_NORMAL (oldr_nn_lqi pi) \<noteq> 0 then port_activate env i st
          else Some st)"

definition fsm_ACTIVE :: "pm_env \<Rightarrow> nat \<Rightarrow> pm \<Rightarrow> pm option" where
  "fsm_ACTIVE env i st =
     (if PORT_CONTROL_ENABLED \<notin> controls (pm_port st i) then Some (port_disable env i st)
      else if log_state (pm_port st i) = IB_PORT_DOWN then Some (port_retry_active i st)
      else if log_state (pm_port st i) = IB_PORT_INIT then port_rearm_active env i st
      else set_active_health i st)"

text \<open>
  \<open>kick_fsms\<close>: one step of each port's FSM, in array order.  \<open>kick_fsm\<close> is the body
  of the loop, the \<open>switch\<close> on the port's state.
\<close>

definition kick_fsm :: "pm_env \<Rightarrow> nat \<Rightarrow> pm \<Rightarrow> pm option" where
  "kick_fsm env i st =
     (case state (pm_port st i) of
        PM_PORT_STATE_DISABLED \<Rightarrow> fsm_DISABLED env i st
      | PM_PORT_STATE_ENABLED \<Rightarrow> fsm_ENABLED env i st
      | PM_PORT_STATE_IN_ERROR \<Rightarrow> fsm_IN_ERROR env i st
      | PM_PORT_STATE_ISOLATED \<Rightarrow> fsm_ISOLATED env i st
      | PM_PORT_STATE_RECHECK \<Rightarrow> fsm_RECHECK env i st
      | PM_PORT_STATE_INIT \<Rightarrow> fsm_INIT env i st
      | PM_PORT_STATE_ACTIVE \<Rightarrow> fsm_ACTIVE env i st)"

definition kick_fsms :: "pm_env \<Rightarrow> pm \<Rightarrow> pm option" where
  "kick_fsms env st =
     fold (\<lambda>i r. Option.bind r (kick_fsm env i)) [0..<port_cnt (pm_sd st)] (Some st)"

text \<open>
  \<open>get_fport_status\<close> returns the C result and the content of the caller's buffer
  afterwards.  It reads the published pointer and takes no lock.
\<close>

definition get_fport_status :: "fsubdev \<Rightarrow> u8 \<Rightarrow> fport_status \<Rightarrow> int \<times> fport_status" where
  "get_fport_status s l status =
     (if sd_fport_handle s (unat l) = None then (neg_errno EINVAL, status)
      else case port_status s of
             Some curr_status \<Rightarrow> (0, portstatus s ! (curr_status + unat l))
           | None \<Rightarrow> (neg_errno EINVAL, status))"


text \<open>
  What the claims about the port manager speak of.  \<open>pm_valid\<close>: \<open>i\<close> is an index of
  the port array and the port's entry of the status buffer exists.  \<open>call_failed\<close>:
  the next mailbox call fails, that is \<open>err || op_err\<close> is true for it.  \<open>errored\<close>:
  the port is in state InError and its next health record is Red with reason
  \<open>FPORT_ERROR_FAILED\<close>.
\<close>

definition pm_valid :: "pm \<Rightarrow> nat \<Rightarrow> bool" where
  "pm_valid st i = (i < length (port (pm_sd st))
                   \<and> next_status_index st i < length (portstatus (pm_sd st)))"

definition call_failed :: "pm_env \<Rightarrow> pm \<Rightarrow> bool" where
  "call_failed env st =
     (fst (mbox_rsp env (length (mbox_calls st))) \<noteq> 0 \<or> snd (mbox_rsp env (length (mbox_calls st))) \<noteq> 0)"

definition errored :: "pm \<Rightarrow> nat \<Rightarrow> bool" where
  "errored st i = (state (pm_port st i) = PM_PORT_STATE_IN_ERROR
                  \<and> health (pm_next_status st i) = FPORT_HEALTH_RED
                  \<and> error_reason (pm_next_status st i) = FPORT_ERROR_FAILED)"

section \<open>Mailbox (mbdb.c, ops.c)\<close>

definition MBOX_OP_CODE_FW_START :: u8 where "MBOX_OP_CODE_FW_START = 3"
definition MBOX_OP_CODE_RESET :: u8 where "MBOX_OP_CODE_RESET = 13"
definition MBOX_OP_CODE_QSFP_MGR_FAULT_TRAP_NOTIFICATION :: u8 where
  "MBOX_OP_CODE_QSFP_MGR_FAULT_TRAP_NOTIFICATION = 22"
definition MBOX_OP_CODE_LINK_MGR_PORT_STATE_CHANGE_TRAP_NOTIFICATION :: u8 where
  "MBOX_OP_CODE_LINK_MGR_PORT_STATE_CHANGE_TRAP_NOTIFICATION = 34"
definition MBOX_OP_CODE_LINK_MGR_PORT_LWD_TRAP_NOTIFICATION :: u8 where
  "MBOX_OP_CODE_LINK_MGR_PORT_LWD_TRAP_NOTIFICATION = 65"
definition MBOX_OP_CODE_LINK_MGR_PORT_LQI_TRAP_NOTIFICATION :: u8 where
  "MBOX_OP_CODE_LINK_MGR_PORT_LQI_TRAP_NOTIFICATION = 69"

definition MBOX_RSP_STATUS_OK :: u8 where "MBOX_RSP_STATUS_OK = 0"
definition MBOX_RSP_STATUS_SEQ_NO_ERROR :: u8 where "MBOX_RSP_STATUS_SEQ_NO_ERROR = 1"

definition S_INT_STATUS_INBOX_FULL :: nat where "S_INT_STATUS_INBOX_FULL = 6"
definition S_INT_STATUS_OUTBOX_EMPTY :: nat where "S_INT_STATUS_OUTBOX_EMPTY = 7"

text \<open>\<open>TIMEOUT\<close> is \<open>10 * HZ\<close> jiffies, ten seconds whatever the tick rate \<open>HZ\<close>.\<close>

definition TIMEOUT :: "nat \<Rightarrow> nat" where "TIMEOUT hz = 10 * hz"

datatype mbdb_counters =
    POSTED_REQUESTS
  | NON_POSTED_REQUESTS
  | RECEIVED_REQUESTS
  | TIMEDOUT_REQUESTS
  | NON_ERROR_RESPONSES
  | ERROR_RESPONSES
  | UNMATCHED_RESPONSES
  | TIMEDOUT_RESPONSES

datatype pm_trigger_reasons =
    INIT_EVENT
  | DEISOLATE_EVENT
  | PSC_TRAP
  | LWD_TRAP
  | LQI_TRAP
  | QSFP_PRESENCE_TRAP
  | QSFP_FAULT_TRAP
  | RESCAN_EVENT
  | NL_PM_CMD_EVENT

text \<open>
  \<open>struct mbdb_ibox\<close>, the pending-response record.  \<open>cb\<close> says whether a callback
  is set, \<open>response\<close> is the content of the caller's buffer, \<open>ibox_full\<close> whether the
  completion of that name has been completed.  \<open>rsp_len\<close> is a \<open>u16\<close> and \<open>rsp_status\<close>
  an \<open>int\<close>, as the struct declares them.
\<close>

record mbdb_ibox =
  tid :: u32
  op_code :: u8
  cb :: bool
  response :: "u8 list"
  rsp_len :: u16
  cw :: u64
  rsp_status :: int
  ibox_full :: bool

text \<open>
  What the mailbox does to the outside, in order: doorbell and acknowledge writes,
  the control word written to the outbox, trap handlers called (each sets a port
  manager trigger), waiters completed, callback and inbox work queued.
\<close>

datatype mbdb_event =
    INT_ACK nat
  | INT_PARTNER_SET nat
  | OUTBOX_CW u64
  | PM_TRIGGER pm_trigger_reasons
  | COMPLETE nat
  | QUEUE_CB_WORK nat
  | QUEUE_INBOX_FULL_WORK

text \<open>
  \<open>struct mbdb\<close>.  Records are allocated on the heap: \<open>iboxes\<close> maps the address of
  each allocated record to its content, \<open>ibox_list\<close> is the pending list, a list of
  addresses.  \<open>outbox_sem\<close> is the count of the semaphore, \<open>pending_new_seq\<close> the
  atomic flag, \<open>counters\<close> the array of eight counters.  \<open>mbdb_polling_mode\<close> is the
  module parameter, \<open>trace\<close> the events so far.
\<close>

record mbdb =
  stopping :: bool
  pending_new_seq :: int
  outbox_sem :: nat
  outbox_seqno :: u8
  inbox_seqno :: u8
  inbox_tid :: u32
  ibox_list :: "nat list"
  iboxes :: "nat \<Rightarrow> mbdb_ibox option"
  counters :: "mbdb_counters \<Rightarrow> u64"
  int_enables :: u64
  ibox_waiters :: int
  mbdb_polling_mode :: bool
  trace :: "mbdb_event list"

definition emit :: "mbdb_event \<Rightarrow> mbdb \<Rightarrow> mbdb" where
  "emit e m = m\<lparr>trace := trace m @ [e]\<rparr>"

definition counter_inc :: "mbdb_counters \<Rightarrow> mbdb \<Rightarrow> mbdb" where
  "counter_inc c m = m\<lparr>counters := (counters m)(c := counters m c + 1)\<rparr>"

definition up_sem :: "mbdb \<Rightarrow> mbdb" where
  "up_sem m = m\<lparr>outbox_sem := outbox_sem m + 1\<rparr>"

definition mbdb_int_ack_wr :: "nat \<Rightarrow> mbdb \<Rightarrow> mbdb" where
  "mbdb_int_ack_wr shift m = emit (INT_ACK shift) m"

definition mbdb_int_partner_set_wr :: "nat \<Rightarrow> mbdb \<Rightarrow> mbdb" where
  "mbdb_int_partner_set_wr shift m = emit (INT_PARTNER_SET shift) m"

definition mbdb_enable_interrupts :: "u64 \<Rightarrow> mbdb \<Rightarrow> mbdb" where
  "mbdb_enable_interrupts intr_mask m =
     (if NOT (int_enables m) AND intr_mask \<noteq> 0
      then m\<lparr>int_enables := int_enables m OR intr_mask\<rparr> else m)"

text \<open>
  \<open>atomic_cmpxchg(&pending_new_seq, 1, 0)\<close> followed by \<open>up\<close> when it returned
  non-zero: the flag goes from 1 to 0, and the semaphore is raised whenever the old
  value was not 0.
\<close>

definition cmpxchg_pending_up :: "mbdb \<Rightarrow> mbdb" where
  "cmpxchg_pending_up m =
     (let old = pending_new_seq m;
          m1 = (if old = 1 then m\<lparr>pending_new_seq := 0\<rparr> else m)
      in if old \<noteq> 0 then up_sem m1 else m1)"

definition mbdb_seq_reset :: "u64 \<Rightarrow> mbdb \<Rightarrow> mbdb" where
  "mbdb_seq_reset cword m =
     (if mbdb_mbox_op_code cword \<noteq> MBOX_OP_CODE_RESET
         \<and> mbdb_mbox_op_code cword \<noteq> MBOX_OP_CODE_FW_START then m
      else let m1 = (if mbdb_mbox_rsp_status cword = MBOX_RSP_STATUS_OK
                     then m\<lparr>inbox_seqno := 0, outbox_seqno := 0\<rparr> else m)
           in cmpxchg_pending_up m1)"

text \<open>
  \<open>mbdb_find_ibox\<close>: the first record of the pending list with the transaction id
  and opcode; it is unlinked.  An address whose record is not allocated matches
  nothing.
\<close>

definition ibox_matches :: "mbdb \<Rightarrow> u32 \<Rightarrow> u8 \<Rightarrow> nat \<Rightarrow> bool" where
  "ibox_matches m t opc a =
     (case iboxes m a of None \<Rightarrow> False | Some b \<Rightarrow> tid b = t \<and> op_code b = opc)"

definition mbdb_find_ibox :: "u32 \<Rightarrow> u8 \<Rightarrow> mbdb \<Rightarrow> nat option \<times> mbdb" where
  "mbdb_find_ibox t opc m =
     (case find (ibox_matches m t opc) (ibox_list m) of
        None \<Rightarrow> (None, m)
      | Some a \<Rightarrow> (Some a, m\<lparr>ibox_list := remove1 a (ibox_list m)\<rparr>))"

definition mbdb_inbox_empty :: "mbdb \<Rightarrow> mbdb" where
  "mbdb_inbox_empty m =
     (let m1 = (if \<not> stopping m \<and> \<not> mbdb_polling_mode m
                then mbdb_enable_interrupts (2 ^ S_INT_STATUS_INBOX_FULL) m else m);
          m2 = mbdb_int_partner_set_wr S_INT_STATUS_OUTBOX_EMPTY m1
      in if \<not> stopping m2 \<and> mbdb_polling_mode m2 then emit QUEUE_INBOX_FULL_WORK m2 else m2)"

text \<open>
  \<open>mbdb_ibox_handle_unmatched\<close>: each of the four trap notifications calls its
  handler, which signals the port manager with the trap's trigger; anything else is
  only logged.
\<close>

definition mbdb_ibox_handle_unmatched :: "u8 \<Rightarrow> mbdb \<Rightarrow> mbdb" where
  "mbdb_ibox_handle_unmatched opc m =
     (if opc = MBOX_OP_CODE_LINK_MGR_PORT_STATE_CHANGE_TRAP_NOTIFICATION then emit (PM_TRIGGER PSC_TRAP) m
      else if opc = MBOX_OP_CODE_LINK_MGR_PORT_LWD_TRAP_NOTIFICATION then emit (PM_TRIGGER LWD_TRAP) m
      else if opc = MBOX_OP_CODE_LINK_MGR_PORT_LQI_TRAP_NOTIFICATION then emit (PM_TRIGGER LQI_TRAP) m
      else if opc = MBOX_OP_CODE_QSFP_MGR_FAULT_TRAP_NOTIFICATION then emit (PM_TRIGGER QSFP_FAULT_TRAP) m
      else m)"

text \<open>
  One inbound message as the inbox worker sees it: whether the inbox-full bit is
  set, the control word read from the inbox, and the parameter area.
\<close>

record inbox_msg =
  inbox_full_bit :: bool
  inbox_cw :: u64
  inbox_param :: "u8 list"

definition ibox_update :: "nat \<Rightarrow> (mbdb_ibox \<Rightarrow> mbdb_ibox) \<Rightarrow> mbdb \<Rightarrow> mbdb" where
  "ibox_update a g m = m\<lparr>iboxes := (iboxes m)(a := map_option g (iboxes m a))\<rparr>"

definition mbdb_deliver :: "nat \<Rightarrow> inbox_msg \<Rightarrow> bool \<Rightarrow> mbdb \<Rightarrow> mbdb" where
  "mbdb_deliver a msg seq_no_error m =
     (let cword = inbox_cw msg;
          rs = mbdb_mbox_rsp_status cword;
          m1 = (if rs = MBOX_RSP_STATUS_OK
                then (let m0 = counter_inc (if seq_no_error then ERROR_RESPONSES else NON_ERROR_RESPONSES) m
                      in ibox_update a (\<lambda>b. if rsp_len b \<noteq> 0
                                              then b\<lparr>response := take (unat (rsp_len b)) (inbox_param msg)\<rparr>
                                              else b) m0)
                else counter_inc ERROR_RESPONSES m);
          m2 = ibox_update a (\<lambda>b. b\<lparr>cw := cword,
                                     rsp_status := (if seq_no_error then uint MBOX_RSP_STATUS_SEQ_NO_ERROR
                                                    else uint rs)\<rparr>) m1;
          m3 = mbdb_seq_reset cword m2;
          m4 = (case iboxes m3 a of
                  Some b \<Rightarrow> if cb b then emit (QUEUE_CB_WORK a) m3
                            else emit (COMPLETE a) (ibox_update a (\<lambda>b. b\<lparr>ibox_full := True\<rparr>) m3)
                | None \<Rightarrow> m3)
      in mbdb_inbox_empty m4)"

definition mbdb_inbox_full_fn :: "inbox_msg \<Rightarrow> mbdb \<Rightarrow> mbdb" where
  "mbdb_inbox_full_fn msg m =
     (if mbdb_polling_mode m \<and> \<not> inbox_full_bit msg
      then (if ibox_waiters m \<noteq> 0 then emit QUEUE_INBOX_FULL_WORK m else m)
      else if inbox_cw msg = - 1 then mbdb_inbox_empty m
      else let cword = inbox_cw msg;
               m1 = mbdb_int_ack_wr S_INT_STATUS_INBOX_FULL m;
               opc = mbdb_mbox_op_code cword;
               t = mbdb_mbox_tid cword;
               msg_type = mbdb_mbox_msg_type cword;
               seq_no = mbdb_mbox_seq_no cword;
               seq_no_error = mbdb_mbox_seqno_error seq_no (inbox_seqno m1);
               m2 = m1\<lparr>inbox_seqno := mbdb_mbox_seqno_next seq_no\<rparr>;
               (ibox, m3) = (if msg_type = MBOX_RESPONSE then mbdb_find_ibox t opc m2 else (None, m2))
           in case ibox of
                None \<Rightarrow>
                  mbdb_inbox_empty
                    (mbdb_ibox_handle_unmatched opc
                       (counter_inc (if msg_type = MBOX_RESPONSE then UNMATCHED_RESPONSES
                                     else RECEIVED_REQUESTS) m3))
              | Some a \<Rightarrow> mbdb_deliver a msg seq_no_error m3)"

text \<open>
  The caller's side.  What the caller cannot decide is the environment of the call:
  whether a fatal signal ends a sleep on the semaphore, whether the outbox is empty
  at once or how the wait for it ends, the messages the inbox worker handles while
  the caller waits for its response, the jiffies left when the completion arrives,
  and the tick rate.
\<close>

datatype outbox_wait = OUTBOX_EMPTIED | OUTBOX_STOPPED | OUTBOX_TIMED_OUT

record mbdb_env =
  killed :: bool
  outbox_empty_now :: bool
  outbox_wait_ends :: outbox_wait
  inbound :: "inbox_msg list"
  jiffies_left :: nat
  hz :: nat

definition mbdb_outbox_seqno :: "mbdb \<Rightarrow> u8 \<times> mbdb" where
  "mbdb_outbox_seqno m = (outbox_seqno m, m\<lparr>outbox_seqno := mbdb_mbox_seqno_next (outbox_seqno m)\<rparr>)"

text \<open>
  \<open>mbdb_outbox_is_empty\<close>.  Polling (\<open>mbdb_wait_outbox_empty\<close>) and interrupt mode
  end the wait in the same three ways: the outbox became empty, the mailbox was
  stopped meanwhile, or \<open>TIMEOUT\<close> passed, which counts a timed-out request.  In
  interrupt mode the outbox-empty interrupt is enabled first.
\<close>

definition mbdb_outbox_is_empty :: "mbdb_env \<Rightarrow> mbdb \<Rightarrow> (errno + unit) \<times> mbdb" where
  "mbdb_outbox_is_empty env m =
     (if stopping m then (Inl ENODEV, m)
      else if outbox_empty_now env then (Inr (), m)
      else let m1 = (if mbdb_polling_mode m then m
                     else mbdb_enable_interrupts (2 ^ S_INT_STATUS_OUTBOX_EMPTY) m)
           in case outbox_wait_ends env of
                OUTBOX_EMPTIED \<Rightarrow> (Inr (), m1)
              | OUTBOX_STOPPED \<Rightarrow> (Inl ENODEV, m1\<lparr>stopping := True\<rparr>)
              | OUTBOX_TIMED_OUT \<Rightarrow> (Inl ETIMEDOUT, counter_inc TIMEDOUT_REQUESTS m1))"

text \<open>
  A call either returns or sleeps in \<open>down_killable\<close> on a semaphore whose count is
  0, until another thread raises it; a fatal signal ends the sleep with \<open>-EINTR\<close>.
\<close>

datatype 'a blocking = Sleeps | Returns 'a

definition mbdb_outbox_acquire ::
  "mbdb_env \<Rightarrow> u64 \<Rightarrow> mbdb option \<Rightarrow> ((errno + u64) \<times> mbdb option) blocking" where
  "mbdb_outbox_acquire env cword mo =
     (case mo of
        None \<Rightarrow> Returns (Inl EINVAL, None)
      | Some m \<Rightarrow>
          if outbox_sem m = 0 then (if killed env then Returns (Inl EINTR, Some m) else Sleeps)
          else let m1 = m\<lparr>outbox_sem := outbox_sem m - 1\<rparr> in
            if stopping m1 then Returns (Inl ENODEV, Some (up_sem m1))
            else let m2 = counter_inc (if mbdb_mbox_is_posted cword = MBOX_NO_RESPONSE_REQUESTED
                                       then POSTED_REQUESTS else NON_POSTED_REQUESTS) m1;
                     (ret, m3) = mbdb_outbox_is_empty env m2
                 in case ret of
                      Inl e \<Rightarrow> Returns (Inl e, Some (up_sem m3))
                    | Inr _ \<Rightarrow>
                        let m4 = mbdb_int_ack_wr S_INT_STATUS_OUTBOX_EMPTY m3;
                            (seqno, m5) = mbdb_outbox_seqno m4;
                            cword1 = cword OR push_bit 10 (ucast seqno AND 0x3F);
                            m6 = (if mbdb_mbox_op_code cword1 = MBOX_OP_CODE_RESET
                                     \<and> mbdb_mbox_is_posted cword1 = MBOX_NO_RESPONSE_REQUESTED
                                  then m5\<lparr>inbox_seqno := 0, outbox_seqno := 0\<rparr> else m5);
                            m7 = (if mbdb_mbox_op_code cword1 = MBOX_OP_CODE_FW_START
                                     \<or> (mbdb_mbox_op_code cword1 = MBOX_OP_CODE_RESET
                                         \<and> mbdb_mbox_is_posted cword1 = MBOX_RESPONSE_REQUESTED)
                                  then m6\<lparr>pending_new_seq := 1\<rparr> else m6)
                        in Returns (Inr cword1, Some m7))"

definition mbdb_outbox_release :: "mbdb option \<Rightarrow> mbdb option" where
  "mbdb_outbox_release mo =
     (case mo of
        None \<Rightarrow> None
      | Some m \<Rightarrow>
          let m1 = mbdb_int_partner_set_wr S_INT_STATUS_INBOX_FULL m
          in Some (if pending_new_seq m1 = 0 then up_sem m1 else m1))"

text \<open>
  \<open>mbdb_ibox_acquire\<close>.  \<open>alloc\<close> is what \<open>kzalloc\<close> returns: the address of a fresh
  record, or nothing.  A posted call gets no record.  The \<open>u32\<close> argument \<open>rsp_len\<close> is
  stored into the \<open>u16\<close> field and so truncated.
\<close>

definition mbdb_ibox_acquire ::
  "u8 \<Rightarrow> bool \<Rightarrow> u32 \<Rightarrow> bool \<Rightarrow> bool \<Rightarrow> nat option \<Rightarrow> mbdb option
     \<Rightarrow> (errno + nat option) \<times> mbdb option" where
  "mbdb_ibox_acquire opc has_response len has_cb is_posted alloc mo =
     (case mo of
        None \<Rightarrow> (Inl EINVAL, None)
      | Some m \<Rightarrow>
          if is_posted then (Inr None, Some m)
          else case alloc of
                 None \<Rightarrow> (Inl ENOMEM, Some m)
               | Some a \<Rightarrow>
                   let b = \<lparr>tid = inbox_tid m, op_code = opc, cb = has_cb, response = [],
                            rsp_len = (if has_response then ucast len else 0), cw = 0, rsp_status = 0,
                            ibox_full = False\<rparr>
                   in (Inr (Some a),
                       Some (m\<lparr>inbox_tid := inbox_tid m + 1, iboxes := (iboxes m)(a := Some b),
                               ibox_list := ibox_list m @ [a]\<rparr>)))"

definition mbdb_ibox_release :: "nat \<Rightarrow> mbdb \<Rightarrow> mbdb" where
  "mbdb_ibox_release a m = m\<lparr>iboxes := (iboxes m)(a := None)\<rparr>"

definition mbdb_ibox_tid :: "mbdb \<Rightarrow> nat option \<Rightarrow> u32" where
  "mbdb_ibox_tid m ibox =
     (case ibox of None \<Rightarrow> 0
      | Some a \<Rightarrow> (case iboxes m a of Some b \<Rightarrow> tid b | None \<Rightarrow> 0))"

definition mbdb_op_build_cw_and_acquire_ibox ::
  "u8 \<Rightarrow> u16 \<Rightarrow> bool \<Rightarrow> u32 \<Rightarrow> bool \<Rightarrow> bool \<Rightarrow> nat option \<Rightarrow> mbdb option
     \<Rightarrow> (errno + nat option \<times> u64) \<times> mbdb option" where
  "mbdb_op_build_cw_and_acquire_ibox opc parm_len has_response len has_cb is_posted alloc mo =
     (case mbdb_ibox_acquire opc has_response len has_cb is_posted alloc mo of
        (Inl e, mo1) \<Rightarrow> (Inl ENOMEM, mo1)
      | (Inr ibox, mo1) \<Rightarrow>
          (Inr (ibox, build_cw opc MBOX_REQUEST
                        (if is_posted then MBOX_NO_RESPONSE_REQUESTED else MBOX_RESPONSE_REQUESTED)
                        0 parm_len
                        (case mo1 of None \<Rightarrow> 0 | Some m1 \<Rightarrow> mbdb_ibox_tid m1 ibox)),
           mo1))"

text \<open>
  \<open>wait_for_completion_timeout\<close>: 0 when the completion has not been completed
  within the timeout, else the jiffies left, at least 1 and at most the timeout.
\<close>

definition wait_for_completion_timeout :: "bool \<Rightarrow> nat \<Rightarrow> nat \<Rightarrow> nat" where
  "wait_for_completion_timeout completed left timeout =
     (if completed then max 1 (min left timeout) else 0)"

text \<open>
  \<open>mbdb_ibox_wait\<close>.  While the caller sleeps the inbox worker handles the inbound
  messages of the environment; then the wait ends, completed or timed out.
\<close>

definition mbdb_ibox_wait :: "mbdb_env \<Rightarrow> nat \<Rightarrow> mbdb \<Rightarrow> int \<times> mbdb" where
  "mbdb_ibox_wait env a m =
     (if stopping m then (neg_errno ENODEV, m)
      else let m1 = (if mbdb_polling_mode m
                     then emit QUEUE_INBOX_FULL_WORK (m\<lparr>ibox_waiters := ibox_waiters m + 1\<rparr>)
                     else m);
               m2 = fold mbdb_inbox_full_fn (inbound env) m1;
               completed = (case iboxes m2 a of Some b \<Rightarrow> ibox_full b | None \<Rightarrow> False);
               ret = wait_for_completion_timeout completed (jiffies_left env) (TIMEOUT (hz env));
               (ret1, m3) =
                 (if ret = 0
                  then (let m21 = m2\<lparr>ibox_list := filter (\<lambda>x. x \<noteq> a) (ibox_list m2)\<rparr>;
                            m22 = counter_inc TIMEDOUT_RESPONSES m21;
                            opc = (case iboxes m22 a of Some b \<Rightarrow> op_code b | None \<Rightarrow> 0);
                            m23 = (if opc = MBOX_OP_CODE_FW_START \<or> opc = MBOX_OP_CODE_RESET
                                   then cmpxchg_pending_up m22 else m22)
                        in (neg_errno ETIMEDOUT, m23))
                  else (int ret, m2));
               m4 = (if mbdb_polling_mode m3
                     then emit QUEUE_INBOX_FULL_WORK
                            (if ibox_waiters m3 \<noteq> 0 then m3\<lparr>ibox_waiters := ibox_waiters m3 - 1\<rparr> else m3)
                     else m3)
           in (ret1, m4))"

text \<open>
  \<open>ops_execute\<close> returns the C result and the control word left in \<open>*cw\<close>.  The
  parameter area written to the outbox does not matter to any claim and is left
  out of the trace.
\<close>

definition ops_execute ::
  "mbdb_env \<Rightarrow> u64 \<Rightarrow> nat option \<Rightarrow> mbdb option \<Rightarrow> ((int \<times> u64) \<times> mbdb option) blocking" where
  "ops_execute env cword ibox mo =
     (case mbdb_outbox_acquire env cword mo of
        Sleeps \<Rightarrow> Sleeps
      | Returns (Inl e, mo1) \<Rightarrow> Returns ((neg_errno e, cword), mo1)
      | Returns (Inr cword1, mo1) \<Rightarrow>
          let mo2 = map_option (emit (OUTBOX_CW cword1)) mo1;
              mo3 = mbdb_outbox_release mo2
          in case (ibox, mo3) of
               (Some a, Some m3) \<Rightarrow>
                 (case iboxes m3 a of
                    Some b \<Rightarrow>
                      if cb b then Returns ((0, cword1), Some m3)
                      else let (ret, m4) = mbdb_ibox_wait env a m3;
                               b4 = iboxes m4 a;
                               res = (if ret > 0
                                      then (case b4 of
                                              Some b' \<Rightarrow> (rsp_status b', cw b')
                                            | None \<Rightarrow> (ret, cword1))
                                      else (ret, cword1))
                           in Returns (res, Some (mbdb_ibox_release a m4))
                  | None \<Rightarrow> Returns ((0, cword1), Some m3))
             | _ \<Rightarrow> Returns ((0, cword1), mo3))"

text \<open>
  \<open>ops_reset\<close>, as every operation of ops.c: allocate the record and build the control
  word, then \<open>ops_execute\<close>.  A failed allocation returns \<open>-ENOMEM\<close>.
\<close>

definition ops_reset ::
  "mbdb_env \<Rightarrow> bool \<Rightarrow> bool \<Rightarrow> nat option \<Rightarrow> mbdb option \<Rightarrow> (int \<times> mbdb option) blocking" where
  "ops_reset env has_cb is_posted alloc mo =
     (case mbdb_op_build_cw_and_acquire_ibox MBOX_OP_CODE_RESET 0 False 0 has_cb is_posted alloc mo of
        (Inl e, mo1) \<Rightarrow> Returns (neg_errno ENOMEM, mo1)
      | (Inr (ibox, cword), mo1) \<Rightarrow>
          (case ops_execute env cword ibox mo1 of
             Sleeps \<Rightarrow> Sleeps
           | Returns ((ret, cword1), mo2) \<Rightarrow> Returns (ret, mo2)))"

text \<open>
  Reading the trace: the records whose waiter was completed or whose callback was
  queued, and the port manager triggers raised by trap handlers.
\<close>

fun delivered_to :: "mbdb_event \<Rightarrow> nat list" where
  "delivered_to (COMPLETE a) = [a]"
| "delivered_to (QUEUE_CB_WORK a) = [a]"
| "delivered_to _ = []"

definition deliveries :: "mbdb_event list \<Rightarrow> nat list" where
  "deliveries tr = concat (map delivered_to tr)"

fun triggered :: "mbdb_event \<Rightarrow> pm_trigger_reasons list" where
  "triggered (PM_TRIGGER r) = [r]"
| "triggered _ = []"

definition pm_triggers :: "mbdb_event list \<Rightarrow> pm_trigger_reasons list" where
  "pm_triggers tr = concat (map triggered tr)"

text \<open>The trigger of each trap notification opcode, none for any other opcode.\<close>

definition trap_triggers :: "u8 \<Rightarrow> pm_trigger_reasons list" where
  "trap_triggers opc =
     (if opc = 34 then [PSC_TRAP] else if opc = 65 then [LWD_TRAP]
      else if opc = 69 then [LQI_TRAP] else if opc = 22 then [QSFP_FAULT_TRAP] else [])"

text \<open>
  An inbound message answers the call with transaction id \<open>t\<close> and opcode \<open>opc\<close>
  when it is a response carrying both.
\<close>

definition answers :: "u32 \<Rightarrow> u8 \<Rightarrow> inbox_msg \<Rightarrow> bool" where
  "answers t opc msg =
     (mbdb_mbox_msg_type (inbox_cw msg) = MBOX_RESPONSE
      \<and> mbdb_mbox_tid (inbox_cw msg) = t
      \<and> mbdb_mbox_op_code (inbox_cw msg) = opc)"

text \<open>
  The outbox lock is consistent with count \<open>s\<close> when either the flag is clear and
  the semaphore has count \<open>s\<close>, or the flag is set and holds one unit of it.
\<close>

definition outbox_inv :: "nat \<Rightarrow> mbdb \<Rightarrow> bool" where
  "outbox_inv s m =
     (pending_new_seq m = 0 \<and> outbox_sem m = s \<or> pending_new_seq m = 1 \<and> outbox_sem m + 1 = s)"

section \<open>Programming stage (routing_io.c)\<close>

definition ROUTING_DPA_DFID_MAP_SHIFT :: nat where "ROUTING_DPA_DFID_MAP_SHIFT = 6"



definition PORT_CPORT_MASK :: u32 where "PORT_CPORT_MASK = 0x0001"
definition PORT_BRIDGE_MASK :: u32 where "PORT_BRIDGE_MASK = 0x1e00"




text \<open>
  The mailbox operations the stage issues, each with what it sends: the switchinfo
  structure; the port mask, start index, number of entries and entries of an rpipe
  set; the address and the 64-bit words of a raw CSR write; the port and the new
  state of a link state set.
\<close>

datatype io_op =
    SWITCHINFO_SET mbdb_op_switchinfo
  | RPIPE_SET u32 u16 u16 "u8 list"
  | CSR_RAW_WR u32 "u64 list"
  | PORT_LINK_STATE_SET u32 u32

text \<open>
  The state one programming task works on: its subdevice and the mailbox operations
  it has issued so far, in order.  The environment gives what the \<open>k\<close>-th operation
  returns (0, a negative errno or a positive response status) and, for a switchinfo
  set, the structure the firmware answers with; whether \<open>kmalloc\<close> of the rpipe
  buffer succeeds; and the package address range of the device's platform data.
\<close>

record io =
  io_sd :: fsubdev
  io_calls :: "io_op list"

record io_env =
  io_rsp :: "nat \<Rightarrow> int"
  io_switchinfo_rsp :: "nat \<Rightarrow> mbdb_op_switchinfo"
  rpipe_buf_alloc :: bool
  pkg_offset :: u64
  pkg_size :: u64

definition io_call :: "io_env \<Rightarrow> io_op \<Rightarrow> io \<Rightarrow> int \<times> io" where
  "io_call env c st = (io_rsp env (length (io_calls st)), st\<lparr>io_calls := io_calls st @ [c]\<rparr>)"













text \<open>
  \<open>rpipe_write\<close>.  The port mask starts as the CPORT and bridge bits; for each fabric
  port whose logical state is at least Init the code ors in the port number itself
  (\<open>port_mask |= lpn\<close>).
\<close>

definition rpipe_port_mask :: "fsubdev \<Rightarrow> u32" where
  "rpipe_port_mask s =
     fold (\<lambda>l port_mask.
             case sd_fport_handle s l of
               None \<Rightarrow> port_mask
             | Some i \<Rightarrow> if log_state (port s ! i) \<ge> IB_PORT_INIT
                          then port_mask OR of_nat l else port_mask)
          (for_each_fabric_lpn s) (PORT_CPORT_MASK OR PORT_BRIDGE_MASK)"




definition build_fidgen_block :: "fsubdev \<Rightarrow> routing_fidgen \<Rightarrow> u64 list" where
  "build_fidgen_block s fidgen =
     [mask_a fidgen, ucast (shift_a fidgen), mask_b fidgen, ucast (shift_b fidgen), 0, 0,
      mask_h fidgen, ucast (shift_h fidgen), ucast (modulo_fidgen fidgen),
      ucast (drop_bit ROUTING_DPA_DFID_MAP_SHIFT (routing_fid_base s)), mask_d fidgen, 0]"











section \<open>Example fabrics\<close>

text \<open>
  Concrete inputs for the witnesses and evaluations below.  \<open>ex_port\<close> is an active,
  routable fabric port whose firmware port table names a neighbor GUID and port
  number; \<open>ex_sd\<close> is a valid subdevice with two such ports at logical port numbers
  1 and 2 and no plane yet.
\<close>

definition ex_portinfo :: "u64 \<Rightarrow> u8 \<Rightarrow> portinfo" where
  "ex_portinfo g n =
     \<lparr>neighbor_guid = g, neighbor_port_number = n, link_width_enabled = 8, link_width_active = 8,
      link_speed_enabled = 8, link_speed_active = 8, link_width_downgrade_rx_active = 8,
      link_width_downgrade_tx_active = 8, port_state_port_physical_state = 0x54,
      oldr_nn_lqi = 0xb0\<rparr>"

definition ex_port :: "sd_ref \<Rightarrow> u8 \<Rightarrow> u64 \<Rightarrow> u8 \<Rightarrow> fport" where
  "ex_port s l g n =
     \<lparr>sd = s, portinfo = Some (ex_portinfo g n), state = PM_PORT_STATE_ACTIVE,
      controls = {PORT_CONTROL_ENABLED, PORT_CONTROL_ROUTABLE}, lpn = l, log_state = 4,
      phys_state = 5, cached_neighbor = None\<rparr>"

definition ex_status :: fport_status where
  "ex_status = \<lparr>health = FPORT_HEALTH_GREEN, issues = {}, error_reason = FPORT_ERROR_NONE\<rparr>"

definition ex_sd :: "sd_ref \<Rightarrow> u64 \<Rightarrow> u64 \<Rightarrow> u8 \<Rightarrow> u64 \<Rightarrow> u8 \<Rightarrow> fsubdev" where
  "ex_sd s g g1 n1 g2 n2 =
     \<lparr>fdev = s, guid = g, port_cnt = 2, port = [ex_port s 1 g1 n1, ex_port s 2 g2 n2],
      lpn_fport_map = (\<lambda>_. None)(1 := Some 0, 2 := Some 1), fport_lpns = {1, 2},
      bport_lpns = {9, 10, 11, 12}, portstatus = replicate 26 ex_status, port_status = Some 0,
      next_port_status = 13, routing_state = TILE_ROUTING_STATE_VALID, routing_plane = None,
      routing_plane_index = 0,
      switchinfo = \<lparr>guid_switchinfo = g, num_ports = 13, slt_psc_ep0 = 0,
                    routing_mode_supported = 1, routing_mode_enabled = 1, lft_top = 0\<rparr>,
      routing_uft = None, routing_uft_next = \<lparr>mgmt = [], bridges = []\<rparr>,
      routing_fidgen = None, routing_fidgen_next = None, routing_fid_base = 0\<rparr>"



text \<open>
  The ring A-B-C-D-A (subdevices 0, 1, 2, 3 with GUIDs 0xA .. 0xD): A.1 - B.1,
  B.2 - C.1, C.2 - D.1, D.2 - A.2.  \<open>ring_sweep\<close> runs the first stages of the sweep on
  it: the neighbor pass, plane building, and the cost matrix of plane 0.
\<close>

definition ring_fabric :: fabric where
  "ring_fabric =
     \<lparr>sds = [ex_sd 0 0xA 0xB 1 0xD 2, ex_sd 1 0xB 0xA 1 0xC 1,
             ex_sd 2 0xC 0xB 2 0xD 1, ex_sd 3 0xD 0xC 2 0xA 2],
      routable_list = [3, 2, 1, 0], planes = []\<rparr>"

definition ring_planes :: "errno + fabric" where
  "ring_planes = build_planes (\<lambda>_. True) [0, 1, 2, 3] (process_neighbors [0, 1, 2, 3] ring_fabric)"

definition ring_sweep :: "errno + fabric" where
  "ring_sweep = (case ring_planes of Inl e \<Rightarrow> Inl e | Inr f \<Rightarrow> compute_cost_for_plane True f 0)"

text \<open>
  A port manager pass over the first subdevice of \<open>pair_fabric\<close> whose port 1 is
  still Disabled, with a firmware that fails every mailbox call with \<open>-ETIMEDOUT\<close>.
\<close>

definition ex_pm :: pm where
  "ex_pm =
     \<lparr>pm_sd = (ex_sd 0 0xA 0xB 1 0xEE 1)
                \<lparr>port := [(ex_port 0 1 0xB 1)\<lparr>state := PM_PORT_STATE_DISABLED\<rparr>, ex_port 0 2 0xEE 1]\<rparr>,
      isolated_port_cnt = 0,
      fio = \<lparr>deisolating = False, routing_changed = False, rescan_needed = False,
             request_deisolation = False\<rparr>,
      mbox_calls = []\<rparr>"

definition ex_env_failing :: pm_env where
  "ex_env_failing =
     \<lparr>mbox_rsp = (\<lambda>_. (neg_errno ETIMEDOUT, 0)), fdev_find_by_sd_guid = (\<lambda>_. None),
      port_allow_direct_loopback = False, port_isolate_loop_pairs = False\<rparr>"

text \<open>
  A mailbox with two pending records, at addresses 100 and 200: a synchronous call
  of opcode 20 with transaction id 7 and a call with a callback, opcode 21 and
  transaction id 8.  The outbox is free.
\<close>

definition ex_ibox :: "u32 \<Rightarrow> u8 \<Rightarrow> bool \<Rightarrow> mbdb_ibox" where
  "ex_ibox t opc c = \<lparr>tid = t, op_code = opc, cb = c, response = [], rsp_len = 0, cw = 0,
                       rsp_status = 0, ibox_full = False\<rparr>"

definition ex_mbdb :: mbdb where
  "ex_mbdb = \<lparr>stopping = False, pending_new_seq = 0, outbox_sem = 1, outbox_seqno = 0,
              inbox_seqno = 0, inbox_tid = 9, ibox_list = [100, 200],
              iboxes = (\<lambda>x. if x = 100 then Some (ex_ibox 7 20 False)
                             else if x = 200 then Some (ex_ibox 8 21 True) else None),
              counters = (\<lambda>c. 0), int_enables = 0, ibox_waiters = 0,
              mbdb_polling_mode = True, trace = []\<rparr>"

text \<open>The response to the second record, and a port state change trap.\<close>

definition ex_response :: inbox_msg where
  "ex_response = \<lparr>inbox_full_bit = True,
                  inbox_cw = build_cw 21 MBOX_RESPONSE MBOX_RESPONSE_REQUESTED 0 0 8,
                  inbox_param = []\<rparr>"

definition ex_trap :: inbox_msg where
  "ex_trap = \<lparr>inbox_full_bit = True,
              inbox_cw = build_cw 34 MBOX_REQUEST MBOX_NO_RESPONSE_REQUESTED 0 0 0,
              inbox_param = []\<rparr>"

definition ex_stray :: inbox_msg where
  "ex_stray = \<lparr>inbox_full_bit = True,
               inbox_cw = build_cw 34 MBOX_RESPONSE MBOX_RESPONSE_REQUESTED 0 0 5,
               inbox_param = []\<rparr>"

text \<open>
  An environment in which the outbox is empty and, while the caller waits, a trap
  and the response to the second record arrive; and one in which the outbox never
  becomes empty.
\<close>

definition ex_env_busy :: mbdb_env where
  "ex_env_busy = \<lparr>killed = False, outbox_empty_now = True, outbox_wait_ends = OUTBOX_EMPTIED,
                  inbound = [ex_trap, ex_response], jiffies_left = 0, hz = 250\<rparr>"

definition ex_env_outbox_full :: mbdb_env where
  "ex_env_outbox_full = \<lparr>killed = False, outbox_empty_now = False,
                         outbox_wait_ends = OUTBOX_TIMED_OUT,
                         inbound = [], jiffies_left = 0, hz = 250\<rparr>"








section \<open>Control word: layout and round trip\<close>

lemma mask_FF: "(0xFF::u64) = mask 8" by (simp add: mask_eq_exp_minus_1)
lemma mask_3F: "(0x3F::u64) = mask 6" by (simp add: mask_eq_exp_minus_1)
lemma mask_FFF: "(0xFFF::u64) = mask 12" by (simp add: mask_eq_exp_minus_1)
lemma mask_F: "(0xF::u64) = mask 4" by (simp add: mask_eq_exp_minus_1)
lemma mask_32: "(0xFFFFFFFF::u64) = mask 32" by (simp add: mask_eq_exp_minus_1)

lemma bit_256: "bit (256::u64) n \<longleftrightarrow> n = 8"
proof -
  have e: "(256::u64) = 2 ^ 8" by simp
  show ?thesis unfolding e bit_exp_iff by (auto simp: possible_bit_word)
qed

lemma bit_512: "bit (512::u64) n \<longleftrightarrow> n = 9"
proof -
  have e: "(512::u64) = 2 ^ 9" by simp
  show ?thesis unfolding e bit_exp_iff by (auto simp: possible_bit_word)
qed

lemma bit_256i: "bit (256::int) n \<longleftrightarrow> n = 8"
proof -
  have e: "(256::int) = 2 ^ 8" by simp
  show ?thesis unfolding e bit_exp_iff by (auto simp: possible_bit_def)
qed

lemma bit_512i: "bit (512::int) n \<longleftrightarrow> n = 9"
proof -
  have e: "(512::int) = 2 ^ 9" by simp
  show ?thesis unfolding e bit_exp_iff by (auto simp: possible_bit_def)
qed

lemma cw_field_opcode:
  "bit (push_bit 0 ((ucast (opc::u8) ::u64) AND 0xFF)) n \<longleftrightarrow> (n < 8 \<and> bit opc n)"
  by (auto simp add: mask_FF bit_simps)

lemma cw_field_is_req:
  "bit (push_bit 8 (msg_type_val m AND 1)) n \<longleftrightarrow> (n = 8 \<and> m = MBOX_REQUEST)"
  by (cases m) (auto simp add: bit_256 bit_256i bit_simps)

lemma cw_field_posted:
  "bit (push_bit 9 (posted_val p AND 1)) n \<longleftrightarrow> (n = 9 \<and> p = MBOX_NO_RESPONSE_REQUESTED)"
  by (cases p) (auto simp add: bit_512 bit_512i bit_simps)

lemma cw_field_seq_no:
  "bit (push_bit 10 ((ucast (s::u16) ::u64) AND 0x3F)) n \<longleftrightarrow> (10 \<le> n \<and> n < 16 \<and> bit s (n - 10))"
  by (auto simp add: mask_3F bit_simps)

lemma cw_field_params_len:
  "bit (push_bit 16 ((ucast (l::u16) ::u64) AND 0xFFF)) n \<longleftrightarrow> (16 \<le> n \<and> n < 28 \<and> bit l (n - 16))"
  by (auto simp add: mask_FFF bit_simps)

lemma cw_field_tid:
  "bit (push_bit 32 ((ucast (t::u32) ::u64) AND 0xFFFFFFFF)) n \<longleftrightarrow> (32 \<le> n \<and> n < 64 \<and> bit t (n - 32))"
  by (auto simp add: mask_32 bit_simps dest: bit_imp_le_length)

lemma build_cw_bit:
  "bit (build_cw opc m p s l t) n \<longleftrightarrow>
     (n < 8 \<and> bit opc n) \<or> (n = 8 \<and> m = MBOX_REQUEST) \<or>
     (n = 9 \<and> p = MBOX_NO_RESPONSE_REQUESTED) \<or>
     (10 \<le> n \<and> n < 16 \<and> bit s (n - 10)) \<or> (16 \<le> n \<and> n < 28 \<and> bit l (n - 16)) \<or>
     (32 \<le> n \<and> n < 64 \<and> bit t (n - 32))"
  unfolding build_cw_def bit_or_iff cw_field_opcode cw_field_is_req cw_field_posted
    cw_field_seq_no cw_field_params_len cw_field_tid
  by blast

lemma seq_lt: assumes "(s::u16) \<le> 63" shows "s < 2 ^ 6"
proof -
  have "unat s \<le> 63" using assms by (simp add: word_le_nat_alt)
  then have "unat s < 2 ^ 6" by simp
  then show ?thesis by (simp add: word_less_nat_alt)
qed

lemma seq_bits: assumes "(s::u16) \<le> 63" and "bit s k" shows "k < 6"
proof -
  have "s AND mask 6 = s" using seq_lt[OF assms(1)] by (rule less_mask_eq)
  then have "bit (s AND mask 6) k" using assms(2) by simp
  then show ?thesis by (simp only: bit_and_iff bit_mask_iff)
qed

lemma len_lt: assumes "(l::u16) \<le> 4095" shows "l < 2 ^ 12"
proof -
  have "unat l \<le> 4095" using assms by (simp add: word_le_nat_alt)
  then have "unat l < 2 ^ 12" by simp
  then show ?thesis by (simp add: word_less_nat_alt)
qed

lemma len_bits: assumes "(l::u16) \<le> 4095" and "bit l k" shows "k < 12"
proof -
  have "l AND mask 12 = l" using len_lt[OF assms(1)] by (rule less_mask_eq)
  then have "bit (l AND mask 12) k" using assms(2) by simp
  then show ?thesis by (simp only: bit_and_iff bit_mask_iff)
qed

lemma and_one_zero_iff: "(w::u64) AND 1 = 0 \<longleftrightarrow> \<not> bit w 0"
  by (simp add: and_one_eq bit_0 mod2_eq_if)

lemma decode_op_code: "mbdb_mbox_op_code (build_cw opc m p s l t) = opc"
proof (rule bit_eqI)
  fix n assume "possible_bit TYPE(u8) n"
  then have n: "n < 8" by (simp add: possible_bit_word)
  show "bit (mbdb_mbox_op_code (build_cw opc m p s l t)) n = bit opc n"
    using n by (simp add: mbdb_mbox_op_code_def mask_FF bit_simps build_cw_bit)
qed

lemma decode_msg_type: "mbdb_mbox_msg_type (build_cw opc m p s l t) = m"
proof -
  have "bit (drop_bit 8 (build_cw opc m p s l t)) 0 \<longleftrightarrow> m = MBOX_REQUEST"
    by (simp add: bit_drop_bit_eq build_cw_bit)
  then show ?thesis
    by (cases m) (simp_all add: mbdb_mbox_msg_type_def msg_type_of_def and_one_zero_iff)
qed

lemma decode_is_posted: "mbdb_mbox_is_posted (build_cw opc m p s l t) = p"
proof -
  have "bit (drop_bit 9 (build_cw opc m p s l t)) 0 \<longleftrightarrow> p = MBOX_NO_RESPONSE_REQUESTED"
    by (simp add: bit_drop_bit_eq build_cw_bit)
  then show ?thesis
    by (cases p) (simp_all add: mbdb_mbox_is_posted_def posted_of_def and_one_zero_iff)
qed

lemma decode_seq_no:
  assumes "s \<le> 63" shows "mbdb_mbox_seq_no (build_cw opc m p s l t) = ucast s"
proof (rule bit_eqI)
  fix n assume "possible_bit TYPE(u8) n"
  then have n: "n < 8" by (simp add: possible_bit_word)
  have b: "bit s n \<Longrightarrow> n < 6" using seq_bits[OF assms] by blast
  show "bit (mbdb_mbox_seq_no (build_cw opc m p s l t)) n = bit (ucast s :: u8) n"
    using n b by (auto simp add: mbdb_mbox_seq_no_def mask_3F bit_simps build_cw_bit)
qed

lemma decode_params_len:
  assumes "l \<le> 4095" shows "mbdb_mbox_params_len (build_cw opc m p s l t) = l"
proof (rule bit_eqI)
  fix n assume "possible_bit TYPE(u16) n"
  then have n: "n < 16" by (simp add: possible_bit_word)
  have b: "bit l n \<Longrightarrow> n < 12" using len_bits[OF assms] by blast
  show "bit (mbdb_mbox_params_len (build_cw opc m p s l t)) n = bit l n"
    using n b by (auto simp add: mbdb_mbox_params_len_def mask_FFF bit_simps build_cw_bit)
qed

lemma decode_tid: "mbdb_mbox_tid (build_cw opc m p s l t) = t"
proof (rule bit_eqI)
  fix n assume "possible_bit TYPE(u32) n"
  then have n: "n < 32" by (simp add: possible_bit_word)
  show "bit (mbdb_mbox_tid (build_cw opc m p s l t)) n = bit t n"
    using n by (simp add: mbdb_mbox_tid_def mask_32 bit_simps build_cw_bit)
qed

lemma decode_rsp_status: "mbdb_mbox_rsp_status (build_cw opc m p s l t) = 0"
proof (rule bit_eqI)
  fix n assume "possible_bit TYPE(u8) n"
  then have n: "n < 8" by (simp add: possible_bit_word)
  show "bit (mbdb_mbox_rsp_status (build_cw opc m p s l t)) n = bit (0::u8) n"
    using n by (simp add: mbdb_mbox_rsp_status_def mask_F bit_simps build_cw_bit)
qed

text \<open>
  Claim C3.  For every opcode, message type, posted flag, sequence number in
  \<open>[0,63]\<close>, parameter length in \<open>[0,4095]\<close> and 32-bit transaction id, the
  decoders applied to \<open>build_cw\<close> return exactly those values (the sequence number
  as the 8-bit value the decoder yields), the response status decodes to 0, and the
  word has the stated layout bit for bit: \<open>[7:0]\<close> opcode, \<open>[8]\<close> request,
  \<open>[9]\<close> posted, \<open>[15:10]\<close> sequence number, \<open>[27:16]\<close> parameter length,
  \<open>[31:28]\<close> status (zero in a built word), \<open>[63:32]\<close> transaction id.
\<close>

theorem build_cw_roundtrip:
  assumes "sq \<le> 63" and "ln \<le> 4095"
  shows "mbdb_mbox_op_code (build_cw opc m p sq ln td) = opc
       \<and> mbdb_mbox_msg_type (build_cw opc m p sq ln td) = m
       \<and> mbdb_mbox_is_posted (build_cw opc m p sq ln td) = p
       \<and> mbdb_mbox_seq_no (build_cw opc m p sq ln td) = ucast sq
       \<and> unat (mbdb_mbox_seq_no (build_cw opc m p sq ln td)) = unat sq
       \<and> mbdb_mbox_params_len (build_cw opc m p sq ln td) = ln
       \<and> mbdb_mbox_tid (build_cw opc m p sq ln td) = td
       \<and> mbdb_mbox_rsp_status (build_cw opc m p sq ln td) = 0
       \<and> (\<forall>n. bit (build_cw opc m p sq ln td) n \<longleftrightarrow>
             (n < 8 \<and> bit opc n) \<or> (n = 8 \<and> m = MBOX_REQUEST) \<or>
             (n = 9 \<and> p = MBOX_NO_RESPONSE_REQUESTED) \<or>
             (10 \<le> n \<and> n < 16 \<and> bit sq (n - 10)) \<or>
             (16 \<le> n \<and> n < 28 \<and> bit ln (n - 16)) \<or>
             (32 \<le> n \<and> n < 64 \<and> bit td (n - 32)))"
proof -
  have "unat sq < 2 ^ 8" using assms(1) by (simp add: word_le_nat_alt)
  then have u: "unat (ucast sq :: u8) = unat sq"
    by (simp add: unsigned_ucast_eq take_bit_nat_eq_self)
  show ?thesis
    using decode_op_code decode_msg_type decode_is_posted decode_seq_no[OF assms(1)]
      decode_params_len[OF assms(2)] decode_tid decode_rsp_status build_cw_bit u
    by presburger
qed

theorem build_cw_roundtrip_witness:
  "(5::u16) \<le> 63 \<and> (16::u16) \<le> 4095
   \<and> mbdb_mbox_op_code (build_cw 60 MBOX_REQUEST MBOX_RESPONSE_REQUESTED 5 16 7) = 60
   \<and> mbdb_mbox_msg_type (build_cw 60 MBOX_REQUEST MBOX_RESPONSE_REQUESTED 5 16 7) = MBOX_REQUEST
   \<and> mbdb_mbox_is_posted (build_cw 60 MBOX_REQUEST MBOX_RESPONSE_REQUESTED 5 16 7)
       = MBOX_RESPONSE_REQUESTED
   \<and> unat (mbdb_mbox_seq_no (build_cw 60 MBOX_REQUEST MBOX_RESPONSE_REQUESTED 5 16 7)) = 5
   \<and> mbdb_mbox_params_len (build_cw 60 MBOX_REQUEST MBOX_RESPONSE_REQUESTED 5 16 7) = 16
   \<and> mbdb_mbox_tid (build_cw 60 MBOX_REQUEST MBOX_RESPONSE_REQUESTED 5 16 7) = 7"
proof -
  have h1: "(5::u16) \<le> 63" by simp
  have h2: "(16::u16) \<le> 4095" by simp
  have u: "unat (5::u16) = 5" by simp
  from build_cw_roundtrip[OF h1 h2, of 60 MBOX_REQUEST MBOX_RESPONSE_REQUESTED 7] h1 h2 u
  show ?thesis by simp
qed

section \<open>Forwarding-table entries: set writes one nibble\<close>

lemma m_f: "(0xf::u32) = mask 4" by (simp add: mask_eq_exp_minus_1)
lemma m_f8: "(0xf::u8) = mask 4" by (simp add: mask_eq_exp_minus_1)
lemma m_f0: "(0xf0::u32) = push_bit 4 (mask 4)" by (simp add: mask_eq_exp_minus_1)

lemma low_nib:
  "(ucast (ucast (((ucast (b::u8) :: u32) AND 0xf0) OR ((ucast (p::u8) :: u32) AND 0xf)) :: u8) :: u32)
     AND 0xf = ucast (p AND 0xf)"
  unfolding m_f m_f8 m_f0
  by (rule bit_eqI) (auto simp add: bit_simps)

lemma low_nib_hi:
  "drop_bit 4 (ucast (ucast (((ucast (b::u8) :: u32) AND 0xf0) OR ((ucast (p::u8) :: u32) AND 0xf)) :: u8) :: u32)
     AND 0xf = drop_bit 4 (ucast b :: u32) AND 0xf"
  unfolding m_f m_f8 m_f0
  by (rule bit_eqI) (auto simp add: bit_simps)

lemma hi_nib:
  "drop_bit 4 (ucast (ucast (push_bit 4 (ucast (p::u8) :: u32) OR ((ucast (b::u8) :: u32) AND 0xf)) :: u8) :: u32)
     AND 0xf = ucast (p AND 0xf)"
  unfolding m_f m_f8 m_f0
  by (rule bit_eqI) (auto simp add: bit_simps)

lemma hi_nib_lo:
  "(ucast (ucast (push_bit 4 (ucast (p::u8) :: u32) OR ((ucast (b::u8) :: u32) AND 0xf)) :: u8) :: u32)
     AND 0xf = (ucast b :: u32) AND 0xf"
  unfolding m_f m_f8 m_f0
  by (rule bit_eqI) (auto simp add: bit_simps)

lemma ucast_ucast_and: "(ucast (ucast ((p::u8) AND 0xf) :: u32) :: u8) = p AND 0xf"
  by (rule bit_eqI) (auto simp add: bit_simps)

lemma get_set_same:
  assumes "unat (drop_bit 1 i) < length block"
  shows "routing_uft_entry_get (routing_uft_entry_set block i prt) i = prt AND 0xf"
  using assms
  by (simp add: routing_uft_entry_get_def routing_uft_entry_set_def Let_def low_nib hi_nib
      ucast_ucast_and)

lemma odd_even_split:
  assumes "drop_bit 1 (i::u16) = drop_bit 1 j" and "i AND 1 = j AND 1"
  shows "i = j"
proof (rule bit_eqI)
  fix n
  show "bit i n = bit j n"
  proof (cases n)
    case 0
    have "bit (i AND 1) 0 = bit (j AND 1) 0" using assms(2) by simp
    then show ?thesis using 0 by (simp add: bit_simps)
  next
    case (Suc k)
    have "bit (drop_bit 1 i) k = bit (drop_bit 1 j) k" using assms(1) by simp
    then show ?thesis using Suc by (simp add: bit_simps)
  qed
qed

lemma and1_cases: "(i::u16) AND 1 = 0 \<or> i AND 1 = 1"
  by (simp add: and_one_eq mod2_eq_if)

lemma get_set_other:
  assumes "unat (drop_bit 1 i) < length block" and "j \<noteq> i"
  shows "routing_uft_entry_get (routing_uft_entry_set block i prt) j = routing_uft_entry_get block j"
proof (cases "drop_bit 1 j = drop_bit 1 i")
  case False
  then have "unat (drop_bit 1 j) \<noteq> unat (drop_bit 1 i)" by (simp add: word_unat_eq_iff)
  then show ?thesis
    by (simp add: routing_uft_entry_get_def routing_uft_entry_set_def Let_def)
next
  case True
  then have ne: "i AND 1 \<noteq> j AND 1" using odd_even_split[of j i] assms(2) by auto
  show ?thesis
  proof (cases "i AND 1 = 0")
    case True
    then have "j AND 1 = 1" using ne and1_cases[of j] by auto
    then show ?thesis using True \<open>drop_bit 1 j = drop_bit 1 i\<close> assms(1)
      by (simp add: routing_uft_entry_get_def routing_uft_entry_set_def Let_def hi_nib_lo)
  next
    case False
    then have i1: "i AND 1 = 1" using and1_cases[of i] by auto
    then have "j AND 1 = 0" using ne and1_cases[of j] by auto
    then show ?thesis using i1 \<open>drop_bit 1 j = drop_bit 1 i\<close> assms(1)
      by (simp add: routing_uft_entry_get_def routing_uft_entry_set_def Let_def low_nib_hi)
  qed
qed

text \<open>
  Claim C9.  For every block, every entry offset \<open>i\<close> whose byte lies inside the
  block, and every port value, \<open>routing_uft_entry_set\<close> writes only the addressed
  nibble: reading offset \<open>i\<close> back gives \<open>port & 0xF\<close>, the block keeps its
  length, and reading any other offset \<open>j\<close> gives what it gave before.
\<close>

theorem routing_uft_entry_set_frame:
  assumes "unat (drop_bit 1 i) < length block"
  shows "routing_uft_entry_get (routing_uft_entry_set block i prt) i = prt AND 0xf
       \<and> length (routing_uft_entry_set block i prt) = length block
       \<and> (\<forall>j. j \<noteq> i \<longrightarrow>
             routing_uft_entry_get (routing_uft_entry_set block i prt) j
               = routing_uft_entry_get block j)"
proof -
  have "length (routing_uft_entry_set block i prt) = length block"
    by (simp add: routing_uft_entry_set_def Let_def)
  then show ?thesis
    using get_set_same[OF assms] get_set_other[OF assms] by blast
qed

theorem routing_uft_entry_set_frame_witness:
  "unat (drop_bit 1 (3::u16)) < length [0x12, 0x34 :: u8]
   \<and> routing_uft_entry_get (routing_uft_entry_set [0x12, 0x34] 3 0x2b) 3 = 0x2b AND 0xf
   \<and> routing_uft_entry_get (routing_uft_entry_set [0x12, 0x34] 3 0x2b) 2
         = routing_uft_entry_get [0x12, 0x34] 2
   \<and> routing_uft_entry_get (routing_uft_entry_set [0x12, 0x34] 3 0x2b) 0
         = routing_uft_entry_get [0x12, 0x34] 0"
proof -
  have h: "unat (drop_bit 1 (3::u16)) < length [0x12, 0x34 :: u8]" by simp
  have n2: "(2::u16) \<noteq> 3" and n0: "(0::u16) \<noteq> 3" by simp_all
  from routing_uft_entry_set_frame[OF h, of "0x2b"] h n2 n0 show ?thesis by blast
qed

section \<open>Neighbor pass: a cached neighbor is a confirmed neighbor\<close>

































section \<open>Cost matrix of the ring\<close>

text \<open>
  Claim C1.  On the ring A-B-C-D-A the sweep's cost matrix should give
  \<open>cost(A,C) = 2\<close>.  Evaluating the code on the ring: the neighbor pass caches
  exactly the ring's adjacency; \<open>build_planes\<close> puts the four subdevices on plane 0
  with the breadth-first indices A = 0, B = 1, D = 2, C = 3; and
  \<open>compute_cost_for_plane\<close> returns \<open>cost(A,C) = 1\<close>, \<open>cost(B,C) = 0\<close> and
  \<open>cost(B,D) = 0\<close>.  At \<open>k = 0\<close> (A), \<open>i = 1\<close> (B), \<open>j = 3\<close> (C) the sum
  \<open>cost[ik] + cost[kj] = 1 + 0xffff\<close> wraps to 0 in the \<open>u16\<close> \<open>value\<close> and
  overwrites the direct cost 1 of B-C; the entry \<open>cost[kj]\<close> is never compared with
  \<open>ROUTING_COST_INFINITE\<close>.
\<close>

theorem ring_cost_lookup_evaluated:
  "isl ring_sweep = False
   \<and> map (neighbor_of (projr ring_sweep)) [(0, 0), (0, 1), (1, 0), (1, 1), (2, 0), (2, 1), (3, 0), (3, 1)]
       = [Some (1, 0), Some (3, 1), Some (0, 0), Some (2, 0),
          Some (1, 1), Some (3, 0), Some (2, 1), Some (0, 1)]
   \<and> map (\<lambda>s. routing_plane (sds (projr ring_sweep) ! s)) [0, 1, 2, 3]
       = [Some 0, Some 0, Some 0, Some 0]
   \<and> map (\<lambda>s. routing_plane_index (sds (projr ring_sweep) ! s)) [0, 1, 2, 3] = [0, 1, 3, 2]
   \<and> routing_cost_lookup (projr ring_sweep) 0 0 = 0
   \<and> routing_cost_lookup (projr ring_sweep) 0 1 = 1
   \<and> routing_cost_lookup (projr ring_sweep) 0 2 = 1
   \<and> routing_cost_lookup (projr ring_sweep) 1 2 = 0
   \<and> routing_cost_lookup (projr ring_sweep) 1 3 = 0"
  by code_simp

section \<open>Port manager: a failed mailbox call puts the port in error\<close>

definition calls_ok :: "pm_env \<Rightarrow> nat \<Rightarrow> nat \<Rightarrow> bool" where
  "calls_ok env a b = (\<forall>k. a \<le> k \<and> k < b \<longrightarrow> fst (mbox_rsp env k) = 0 \<and> snd (mbox_rsp env k) = 0)"

lemmas pm_defs = pm_port_def pm_port_update_def next_status_index_def pm_next_status_def
  pm_next_status_update_def set_routing_changed_def atomic_dec_if_isolated_def
  mbox_call_def ops_linkmgr_port_maj_phystate_set_def ops_linkmgr_port_link_state_set_def

lemma port_in_error_errored:
  assumes "pm_valid st i"
  shows "errored (port_in_error env i st) i \<and> pm_valid (port_in_error env i st) i
         \<and> length (mbox_calls (port_in_error env i st)) = Suc (length (mbox_calls st))"
  using assms
  by (simp add: port_in_error_def errored_def pm_valid_def pm_defs Let_def set_health_red_def)


definition step_ok :: "pm_env \<Rightarrow> nat \<Rightarrow> pm \<Rightarrow> pm \<Rightarrow> bool" where
  "step_ok env i st st' =
     (pm_valid st' i \<and> length (mbox_calls st) \<le> length (mbox_calls st')
      \<and> (errored st' i \<or> calls_ok env (length (mbox_calls st)) (length (mbox_calls st'))))"

lemma calls_ok_refl: "calls_ok env a a"
  by (auto simp add: calls_ok_def)

lemma calls_ok_Suc: "calls_ok env a (Suc a) = (fst (mbox_rsp env a) = 0 \<and> snd (mbox_rsp env a) = 0)"
  by (auto simp add: calls_ok_def less_Suc_eq_le)

lemma calls_ok_trans: "calls_ok env a b \<Longrightarrow> calls_ok env b c \<Longrightarrow> calls_ok env a c"
  unfolding calls_ok_def by (meson not_le_imp_less)

lemma step_ok_refl: "pm_valid st i \<Longrightarrow> step_ok env i st st"
  by (simp add: step_ok_def calls_ok_refl)

lemma step_ok_in_error: "pm_valid st i \<Longrightarrow> step_ok env i st (port_in_error env i st)"
  using port_in_error_errored[of st i env] by (simp add: step_ok_def)

lemma step_ok_after_call:
  assumes "pm_valid st1 i" "length (mbox_calls st1) = Suc (length (mbox_calls st))"
  shows "step_ok env i st (port_in_error env i st1)"
  using port_in_error_errored[OF assms(1), of env] assms(2) by (simp add: step_ok_def)

lemma step_ok_disable: "pm_valid st i \<Longrightarrow> step_ok env i st (port_disable env i st)"
proof -
  assume v: "pm_valid st i"
  let ?st1 = "atomic_dec_if_isolated i st"
  let ?r = "ops_linkmgr_port_maj_phystate_set env (lpn (pm_port ?st1 i)) IB_PORT_PHYS_DISABLED ?st1"
  have v2: "pm_valid (snd ?r) i" "length (mbox_calls (snd ?r)) = Suc (length (mbox_calls st))"
       "fst ?r = mbox_rsp env (length (mbox_calls st))"
    using v by (simp_all add: pm_valid_def pm_defs)
  show ?thesis
  proof (cases "fst (fst ?r) \<noteq> 0 \<or> snd (fst ?r) \<noteq> 0")
    case True
    then have "port_disable env i st = port_in_error env i (snd ?r)"
      by (simp add: port_disable_def Let_def split_beta)
    then show ?thesis using step_ok_after_call[OF v2(1,2)] by simp
  next
    case False
    then show ?thesis using v v2
      by (simp add: port_disable_def Let_def split_beta step_ok_def calls_ok_Suc pm_valid_def pm_defs)
  qed
qed

lemma step_ok_enable_polling: "pm_valid st i \<Longrightarrow> step_ok env i st (port_enable_polling env i st)"
proof -
  assume v: "pm_valid st i"
  let ?r = "ops_linkmgr_port_maj_phystate_set env (lpn (pm_port st i)) IB_PORT_PHYS_POLLING st"
  have v2: "pm_valid (snd ?r) i" "length (mbox_calls (snd ?r)) = Suc (length (mbox_calls st))"
       "fst ?r = mbox_rsp env (length (mbox_calls st))"
    using v by (simp_all add: pm_valid_def pm_defs)
  show ?thesis
  proof (cases "fst (fst ?r) \<noteq> 0 \<or> snd (fst ?r) \<noteq> 0")
    case True
    then have "port_enable_polling env i st = port_in_error env i (snd ?r)"
      by (simp add: port_enable_polling_def Let_def split_beta)
    then show ?thesis using step_ok_after_call[OF v2(1,2)] by simp
  next
    case False
    then show ?thesis using v v2
      by (simp add: port_enable_polling_def Let_def split_beta step_ok_def calls_ok_Suc pm_valid_def pm_defs)
  qed
qed

lemma step_ok_isolate: "pm_valid st i \<Longrightarrow> step_ok env i st (port_isolate env i st)"
proof -
  assume v: "pm_valid st i"
  let ?r = "ops_linkmgr_port_maj_phystate_set env (lpn (pm_port st i)) IB_PORT_PHYS_DISABLED st"
  have v2: "pm_valid (snd ?r) i" "length (mbox_calls (snd ?r)) = Suc (length (mbox_calls st))"
       "fst ?r = mbox_rsp env (length (mbox_calls st))"
    using v by (simp_all add: pm_valid_def pm_defs)
  show ?thesis
  proof (cases "fst (fst ?r) \<noteq> 0 \<or> snd (fst ?r) \<noteq> 0")
    case True
    then have "port_isolate env i st = port_in_error env i (snd ?r)"
      by (simp add: port_isolate_def Let_def split_beta)
    then show ?thesis using step_ok_after_call[OF v2(1,2)] by simp
  next
    case False
    then show ?thesis using v v2
      by (simp add: port_isolate_def Let_def split_beta step_ok_def calls_ok_Suc pm_valid_def pm_defs)
  qed
qed

lemma step_ok_deisolate: "pm_valid st i \<Longrightarrow> step_ok env i st (port_deisolate env i st)"
proof -
  assume v: "pm_valid st i"
  let ?st1 = "st\<lparr>isolated_port_cnt := isolated_port_cnt st - 1\<rparr>"
  let ?r = "ops_linkmgr_port_maj_phystate_set env (lpn (pm_port ?st1 i)) IB_PORT_PHYS_POLLING ?st1"
  have v2: "pm_valid (snd ?r) i" "length (mbox_calls (snd ?r)) = Suc (length (mbox_calls st))"
       "fst ?r = mbox_rsp env (length (mbox_calls st))"
    using v by (simp_all add: pm_valid_def pm_defs)
  show ?thesis
  proof (cases "fst (fst ?r) \<noteq> 0 \<or> snd (fst ?r) \<noteq> 0")
    case True
    then have "port_deisolate env i st = port_in_error env i (snd ?r)"
      by (simp add: port_deisolate_def Let_def split_beta)
    then show ?thesis using step_ok_after_call[OF v2(1,2)] by simp
  next
    case False
    then show ?thesis using v v2
      by (simp add: port_deisolate_def Let_def split_beta step_ok_def calls_ok_Suc pm_valid_def pm_defs)
  qed
qed

lemma set_active_health_frame:
  assumes "set_active_health i st = Some st'" "pm_valid st i"
  shows "pm_valid st' i \<and> mbox_calls st' = mbox_calls st \<and> state (pm_port st' i) = state (pm_port st i)"
  using assms
  by (auto simp add: set_active_health_def Let_def pm_valid_def pm_defs split: option.splits if_splits)

lemma step_ok_activate:
  assumes "pm_valid st i" "port_activate env i st = Some st'"
  shows "step_ok env i st st'"
proof -
  let ?r = "ops_linkmgr_port_link_state_set env (lpn (pm_port st i)) (ucast IB_PORT_ACTIVE) st"
  have v2: "pm_valid (snd ?r) i" "length (mbox_calls (snd ?r)) = Suc (length (mbox_calls st))"
       "fst ?r = mbox_rsp env (length (mbox_calls st))"
    using assms(1) by (simp_all add: pm_valid_def pm_defs)
  show ?thesis
  proof (cases "fst (fst ?r) \<noteq> 0 \<or> snd (fst ?r) \<noteq> 0")
    case True
    then have "st' = port_in_error env i (snd ?r)"
      using assms(2) by (simp add: port_activate_def Let_def split_beta)
    then show ?thesis using step_ok_after_call[OF v2(1,2)] by simp
  next
    case False
    let ?st2 = "pm_port_update i (\<lambda>p. p\<lparr>state := PM_PORT_STATE_ACTIVE\<rparr>) (snd ?r)"
    from False assms(2) obtain st3 where
      s3: "set_active_health i ?st2 = Some st3" "st' = set_routing_changed st3"
      by (auto simp add: port_activate_def Let_def split_beta)
    have "pm_valid ?st2 i" "mbox_calls ?st2 = mbox_calls (snd ?r)"
      using v2(1) by (simp_all add: pm_valid_def pm_defs)
    then show ?thesis
      using set_active_health_frame[OF s3(1)] s3(2) v2 False
      by (simp add: step_ok_def calls_ok_Suc pm_valid_def pm_defs)
  qed
qed


lemma step_ok_prefix:
  assumes "step_ok env i st1 st'" "calls_ok env (length (mbox_calls st)) (length (mbox_calls st1))"
    "length (mbox_calls st) \<le> length (mbox_calls st1)"
  shows "step_ok env i st st'"
  using assms unfolding step_ok_def by (auto intro: calls_ok_trans)

lemma step_ok_arm:
  assumes "pm_valid st i" "port_arm env i st = Some st'"
  shows "step_ok env i st st'"
proof -
  let ?r = "ops_linkmgr_port_link_state_set env (lpn (pm_port st i)) (ucast IB_PORT_ARMED) st"
  have v2: "pm_valid (snd ?r) i" "length (mbox_calls (snd ?r)) = Suc (length (mbox_calls st))"
       "fst ?r = mbox_rsp env (length (mbox_calls st))"
    using assms(1) by (simp_all add: pm_valid_def pm_defs)
  show ?thesis
  proof (cases "fst (fst ?r) \<noteq> 0 \<or> snd (fst ?r) \<noteq> 0")
    case True
    then have "st' = port_in_error env i (snd ?r)"
      using assms(2) by (simp add: port_arm_def Let_def split_beta)
    then show ?thesis using step_ok_after_call[OF v2(1,2)] by simp
  next
    case False
    let ?st2 = "pm_port_update i (\<lambda>p. p\<lparr>state := PM_PORT_STATE_INIT\<rparr>) (snd ?r)"
    have v3: "pm_valid ?st2 i" "mbox_calls ?st2 = mbox_calls (snd ?r)"
      using v2(1) by (simp_all add: pm_valid_def pm_defs)
    have ok: "calls_ok env (length (mbox_calls st)) (length (mbox_calls ?st2))"
      using False v2 v3 by (simp add: calls_ok_Suc)
    from False assms(2) have "port_activate env i ?st2 = Some st' \<or> st' = ?st2"
      by (auto simp add: port_arm_def Let_def split_beta split: option.splits if_splits)
    then show ?thesis
    proof
      assume "port_activate env i ?st2 = Some st'"
      then have "step_ok env i ?st2 st'" using v3(1) step_ok_activate by blast
      then show ?thesis using ok v2 v3 by (intro step_ok_prefix[of env i ?st2 st' st]) simp_all
    next
      assume "st' = ?st2"
      then show ?thesis using ok v2 v3 by (simp add: step_ok_def)
    qed
  qed
qed

lemma step_ok_arm_or_isolate:
  assumes "pm_valid st i" "port_arm_or_isolate env i st = Some st'"
  shows "step_ok env i st st'"
  using assms step_ok_arm[of st i env st'] step_ok_isolate[of st i env]
  by (auto simp add: port_arm_or_isolate_def split: option.splits bool.splits)

lemma step_ok_retry: "pm_valid st i \<Longrightarrow> step_ok env i st (port_retry i st)"
  by (simp add: port_retry_def step_ok_def calls_ok_refl pm_valid_def pm_defs)

lemma step_ok_routing_changed:
  "step_ok env i st st' \<Longrightarrow> step_ok env i st (set_routing_changed st')"
  by (simp add: step_ok_def errored_def pm_valid_def pm_defs)

lemma step_ok_rearm:
  assumes "pm_valid st i" "port_rearm env i st = Some st'"
  shows "step_ok env i st st'"
proof -
  let ?st1 = "pm_next_status_update i (set_health_red FPORT_ERROR_LINK_DOWN) st"
  have v: "pm_valid ?st1 i" "mbox_calls ?st1 = mbox_calls st"
    using assms(1) by (simp_all add: pm_valid_def pm_defs)
  have "step_ok env i ?st1 st'" using assms(2) v(1) step_ok_arm by (simp add: port_rearm_def)
  then show ?thesis using v(2) by (simp add: step_ok_def)
qed

lemma step_ok_kick_fsm:
  assumes "pm_valid st i" "kick_fsm env i st = Some st'"
  shows "step_ok env i st st'"
proof (cases "state (pm_port st i)")
  case PM_PORT_STATE_DISABLED
  then show ?thesis using assms step_ok_enable_polling[of st i env] step_ok_refl[of st i env]
    by (auto simp add: kick_fsm_def fsm_DISABLED_def split: if_splits)
next
  case PM_PORT_STATE_ENABLED
  then show ?thesis
    using assms step_ok_disable[of st i env] step_ok_refl[of st i env]
      step_ok_arm_or_isolate[of st i env st'] step_ok_in_error[of st i env]
    by (auto simp add: kick_fsm_def fsm_ENABLED_def split: if_splits)
next
  case PM_PORT_STATE_IN_ERROR
  then show ?thesis using assms
    by (auto simp add: kick_fsm_def fsm_IN_ERROR_def step_ok_def calls_ok_refl pm_valid_def pm_defs
        split: if_splits)
next
  case PM_PORT_STATE_ISOLATED
  then show ?thesis
    using assms step_ok_disable[of st i env] step_ok_refl[of st i env] step_ok_deisolate[of st i env]
    by (auto simp add: kick_fsm_def fsm_ISOLATED_def split: if_splits)
next
  case PM_PORT_STATE_RECHECK
  then show ?thesis
    using assms step_ok_disable[of st i env] step_ok_refl[of st i env]
      step_ok_arm_or_isolate[of st i env st'] step_ok_in_error[of st i env]
    by (auto simp add: kick_fsm_def fsm_RECHECK_def split: if_splits)
next
  case PM_PORT_STATE_INIT
  then show ?thesis
    using assms step_ok_disable[of st i env] step_ok_refl[of st i env] step_ok_retry[of st i env]
      step_ok_rearm[of st i env st'] step_ok_activate[of st i env st']
    by (auto simp add: kick_fsm_def fsm_INIT_def split: if_splits option.splits)
next
  case PM_PORT_STATE_ACTIVE
  have r: "\<And>x. port_rearm env i st = Some x \<Longrightarrow> step_ok env i st (set_routing_changed x)"
    using step_ok_rearm[OF assms(1)] step_ok_routing_changed by blast
  have h: "set_active_health i st = Some st' \<Longrightarrow> step_ok env i st st'"
    using set_active_health_frame[of i st st'] assms(1) by (simp add: step_ok_def calls_ok_refl)
  from PM_PORT_STATE_ACTIVE show ?thesis
    using assms step_ok_disable[of st i env] step_ok_routing_changed[OF step_ok_retry[of st i env]] r h
    by (auto simp add: kick_fsm_def fsm_ACTIVE_def port_retry_active_def port_rearm_active_def
        split: if_splits)
qed

lemma portinfo_port_update:
  "(\<And>p. portinfo (g p) = portinfo p) \<Longrightarrow> portinfo (pm_port (pm_port_update i g st) i) = portinfo (pm_port st i)"
  by (cases "i < length (port (pm_sd st))") (simp_all add: pm_defs list_update_beyond not_less)

lemma portinfo_simps:
  "portinfo (pm_port (pm_next_status_update j h st) i) = portinfo (pm_port st i)"
  "portinfo (pm_port (set_routing_changed st) i) = portinfo (pm_port st i)"
  "portinfo (pm_port (atomic_dec_if_isolated j st) i) = portinfo (pm_port st i)"
  "portinfo (pm_port (snd (ops_linkmgr_port_link_state_set env l v st)) i) = portinfo (pm_port st i)"
  "portinfo (pm_port (snd (ops_linkmgr_port_maj_phystate_set env l v st)) i) = portinfo (pm_port st i)"
  by (simp_all add: pm_defs)

lemma set_active_health_total:
  "portinfo (pm_port st i) \<noteq> None \<Longrightarrow> \<exists>st'. set_active_health i st = Some st'"
  by (auto simp add: set_active_health_def Let_def)

lemma port_activate_total:
  assumes "portinfo (pm_port st i) \<noteq> None"
  shows "\<exists>st'. port_activate env i st = Some st'"
proof -
  let ?r = "ops_linkmgr_port_link_state_set env (lpn (pm_port st i)) (ucast IB_PORT_ACTIVE) st"
  let ?st2 = "pm_port_update i (\<lambda>p. p\<lparr>state := PM_PORT_STATE_ACTIVE\<rparr>) (snd ?r)"
  have "portinfo (pm_port ?st2 i) \<noteq> None"
    using assms by (simp add: portinfo_port_update portinfo_simps)
  then obtain st3 where "set_active_health i ?st2 = Some st3"
    using set_active_health_total by blast
  then show ?thesis by (simp add: port_activate_def Let_def split_beta)
qed

lemma port_arm_total:
  assumes "portinfo (pm_port st i) \<noteq> None"
  shows "\<exists>st'. port_arm env i st = Some st'"
proof -
  let ?r = "ops_linkmgr_port_link_state_set env (lpn (pm_port st i)) (ucast IB_PORT_ARMED) st"
  let ?st2 = "pm_port_update i (\<lambda>p. p\<lparr>state := PM_PORT_STATE_INIT\<rparr>) (snd ?r)"
  have p: "portinfo (pm_port ?st2 i) \<noteq> None"
    using assms by (simp add: portinfo_port_update portinfo_simps)
  then obtain pi where pi: "portinfo (pm_port ?st2 i) = Some pi" by blast
  obtain st3 where "port_activate env i ?st2 = Some st3" using port_activate_total[OF p] by blast
  then show ?thesis using pi by (simp add: port_arm_def Let_def split_beta)
qed

lemma port_arm_or_isolate_total:
  assumes "portinfo (pm_port st i) \<noteq> None"
  shows "\<exists>st'. port_arm_or_isolate env i st = Some st'"
proof -
  have "valid_neighbor env i st \<noteq> None"
    using assms by (auto simp add: valid_neighbor_def split: option.splits)
  then obtain b where "valid_neighbor env i st = Some b" by blast
  then show ?thesis using port_arm_total[OF assms, of env]
    by (cases b) (auto simp add: port_arm_or_isolate_def)
qed

lemma port_rearm_total:
  assumes "portinfo (pm_port st i) \<noteq> None"
  shows "\<exists>st'. port_rearm env i st = Some st'"
  unfolding port_rearm_def using assms by (intro port_arm_total) (simp add: portinfo_simps)

lemma kick_fsm_total:
  assumes "portinfo (pm_port st i) \<noteq> None"
  shows "\<exists>st'. kick_fsm env i st = Some st'"
proof (cases "state (pm_port st i)")
  case PM_PORT_STATE_DISABLED
  then show ?thesis by (simp add: kick_fsm_def fsm_DISABLED_def)
next
  case PM_PORT_STATE_ENABLED
  then show ?thesis using port_arm_or_isolate_total[OF assms, of env]
    by (simp add: kick_fsm_def fsm_ENABLED_def)
next
  case PM_PORT_STATE_IN_ERROR
  then show ?thesis by (simp add: kick_fsm_def fsm_IN_ERROR_def)
next
  case PM_PORT_STATE_ISOLATED
  then show ?thesis by (simp add: kick_fsm_def fsm_ISOLATED_def)
next
  case PM_PORT_STATE_RECHECK
  then show ?thesis using port_arm_or_isolate_total[OF assms, of env]
    by (simp add: kick_fsm_def fsm_RECHECK_def)
next
  case PM_PORT_STATE_INIT
  then show ?thesis using port_rearm_total[OF assms, of env] port_activate_total[OF assms, of env] assms
    by (auto simp add: kick_fsm_def fsm_INIT_def)
next
  case PM_PORT_STATE_ACTIVE
  then show ?thesis using port_rearm_total[OF assms, of env] set_active_health_total[OF assms]
    by (auto simp add: kick_fsm_def fsm_ACTIVE_def port_rearm_active_def)
qed

lemma in_error_after_call:
  assumes "pm_valid st1 i"
  shows "errored (port_in_error env i st1) i"
  using port_in_error_errored[OF assms] by blast

lemma disable_failed:
  assumes "pm_valid st i" "call_failed env st"
  shows "errored (port_disable env i st) i"
proof -
  let ?st1 = "atomic_dec_if_isolated i st"
  let ?r = "ops_linkmgr_port_maj_phystate_set env (lpn (pm_port ?st1 i)) IB_PORT_PHYS_DISABLED ?st1"
  have v2: "pm_valid (snd ?r) i" "fst ?r = mbox_rsp env (length (mbox_calls st))"
    using assms(1) by (simp_all add: pm_valid_def pm_defs)
  then have "port_disable env i st = port_in_error env i (snd ?r)"
    using assms(2) by (simp add: port_disable_def Let_def split_beta call_failed_def)
  then show ?thesis using in_error_after_call[OF v2(1)] by simp
qed

lemma enable_polling_failed:
  assumes "pm_valid st i" "call_failed env st"
  shows "errored (port_enable_polling env i st) i"
proof -
  let ?r = "ops_linkmgr_port_maj_phystate_set env (lpn (pm_port st i)) IB_PORT_PHYS_POLLING st"
  have v2: "pm_valid (snd ?r) i" "fst ?r = mbox_rsp env (length (mbox_calls st))"
    using assms(1) by (simp_all add: pm_valid_def pm_defs)
  then have "port_enable_polling env i st = port_in_error env i (snd ?r)"
    using assms(2) by (simp add: port_enable_polling_def Let_def split_beta call_failed_def)
  then show ?thesis using in_error_after_call[OF v2(1)] by simp
qed

lemma isolate_failed:
  assumes "pm_valid st i" "call_failed env st"
  shows "errored (port_isolate env i st) i"
proof -
  let ?r = "ops_linkmgr_port_maj_phystate_set env (lpn (pm_port st i)) IB_PORT_PHYS_DISABLED st"
  have v2: "pm_valid (snd ?r) i" "fst ?r = mbox_rsp env (length (mbox_calls st))"
    using assms(1) by (simp_all add: pm_valid_def pm_defs)
  then have "port_isolate env i st = port_in_error env i (snd ?r)"
    using assms(2) by (simp add: port_isolate_def Let_def split_beta call_failed_def)
  then show ?thesis using in_error_after_call[OF v2(1)] by simp
qed

lemma deisolate_failed:
  assumes "pm_valid st i" "call_failed env st"
  shows "errored (port_deisolate env i st) i"
proof -
  let ?st1 = "st\<lparr>isolated_port_cnt := isolated_port_cnt st - 1\<rparr>"
  let ?r = "ops_linkmgr_port_maj_phystate_set env (lpn (pm_port ?st1 i)) IB_PORT_PHYS_POLLING ?st1"
  have v2: "pm_valid (snd ?r) i" "fst ?r = mbox_rsp env (length (mbox_calls st))"
    using assms(1) by (simp_all add: pm_valid_def pm_defs)
  then have "port_deisolate env i st = port_in_error env i (snd ?r)"
    using assms(2) by (simp add: port_deisolate_def Let_def split_beta call_failed_def)
  then show ?thesis using in_error_after_call[OF v2(1)] by simp
qed

lemma arm_failed:
  assumes "pm_valid st i" "call_failed env st"
  shows "\<exists>st'. port_arm env i st = Some st' \<and> errored st' i"
proof -
  let ?r = "ops_linkmgr_port_link_state_set env (lpn (pm_port st i)) (ucast IB_PORT_ARMED) st"
  have v2: "pm_valid (snd ?r) i" "fst ?r = mbox_rsp env (length (mbox_calls st))"
    using assms(1) by (simp_all add: pm_valid_def pm_defs)
  then have "port_arm env i st = Some (port_in_error env i (snd ?r))"
    using assms(2) by (simp add: port_arm_def Let_def split_beta call_failed_def)
  then show ?thesis using in_error_after_call[OF v2(1)] by simp
qed

lemma activate_failed:
  assumes "pm_valid st i" "call_failed env st"
  shows "\<exists>st'. port_activate env i st = Some st' \<and> errored st' i"
proof -
  let ?r = "ops_linkmgr_port_link_state_set env (lpn (pm_port st i)) (ucast IB_PORT_ACTIVE) st"
  have v2: "pm_valid (snd ?r) i" "fst ?r = mbox_rsp env (length (mbox_calls st))"
    using assms(1) by (simp_all add: pm_valid_def pm_defs)
  then have "port_activate env i st = Some (port_in_error env i (snd ?r))"
    using assms(2) by (simp add: port_activate_def Let_def split_beta call_failed_def)
  then show ?thesis using in_error_after_call[OF v2(1)] by simp
qed

lemma in_error_exit:
  assumes "state (pm_port st i) = PM_PORT_STATE_IN_ERROR"
  shows "kick_fsm env i st =
           Some (if PORT_CONTROL_CLEAR_ERROR \<in> controls (pm_port st i)
                 then (pm_port_update i (\<lambda>p. p\<lparr>controls := controls p - {PORT_CONTROL_CLEAR_ERROR},
                                              state := PM_PORT_STATE_DISABLED\<rparr>) st)
                        \<lparr>fio := (fio st)\<lparr>rescan_needed := True\<rparr>\<rparr>
                 else st)"
  using assms by (simp add: kick_fsm_def fsm_IN_ERROR_def)


text \<open>
  Claim C8.  Let \<open>i\<close> be a port of the subdevice with its status entry in range.
  (1) If the mailbox call that an action issues fails (\<open>err || op_err\<close>), then each
  of disable, enable-polling, isolate, deisolate, arm and activate leaves the port in
  state InError with Red health and reason Failed.  (2) In one FSM step of the port
  (\<open>kick_fsm\<close>), if any mailbox call issued during the step fails, the port ends the
  step in InError with Red health; this covers the activate call that a successful
  arm goes on to issue.  (3) The step returns no error: it has a result whenever the
  port's \<open>portinfo\<close> pointer is set, whatever the mailbox answers.  (4) A port in
  InError stays as it is unless the clear-error control bit is set; with the bit set
  it goes to Disabled, the bit is cleared and a rescan is requested.
\<close>

theorem port_fsm_mailbox_failure:
  assumes "i < length (port (pm_sd st))"
      and "next_status_index st i < length (portstatus (pm_sd st))"
  shows "(call_failed env st \<longrightarrow>
            errored (port_disable env i st) i
          \<and> errored (port_enable_polling env i st) i
          \<and> errored (port_isolate env i st) i
          \<and> errored (port_deisolate env i st) i
          \<and> (\<exists>st'. port_arm env i st = Some st' \<and> errored st' i)
          \<and> (\<exists>st'. port_activate env i st = Some st' \<and> errored st' i))
       \<and> (\<forall>st' k. kick_fsm env i st = Some st'
                  \<and> length (mbox_calls st) \<le> k \<and> k < length (mbox_calls st')
                  \<and> (fst (mbox_rsp env k) \<noteq> 0 \<or> snd (mbox_rsp env k) \<noteq> 0)
              \<longrightarrow> errored st' i)
       \<and> (portinfo (pm_port st i) \<noteq> None \<longrightarrow> (\<exists>st'. kick_fsm env i st = Some st'))
       \<and> (state (pm_port st i) = PM_PORT_STATE_IN_ERROR
            \<and> PORT_CONTROL_CLEAR_ERROR \<notin> controls (pm_port st i)
           \<longrightarrow> kick_fsm env i st = Some st)
       \<and> (state (pm_port st i) = PM_PORT_STATE_IN_ERROR
            \<and> PORT_CONTROL_CLEAR_ERROR \<in> controls (pm_port st i)
           \<longrightarrow> (\<exists>st'. kick_fsm env i st = Some st'
                     \<and> state (pm_port st' i) = PM_PORT_STATE_DISABLED
                     \<and> PORT_CONTROL_CLEAR_ERROR \<notin> controls (pm_port st' i)
                     \<and> rescan_needed (fio st')))"
proof -
  have v: "pm_valid st i" using assms by (simp add: pm_valid_def)
  have a: "call_failed env st \<longrightarrow>
            errored (port_disable env i st) i
          \<and> errored (port_enable_polling env i st) i
          \<and> errored (port_isolate env i st) i
          \<and> errored (port_deisolate env i st) i
          \<and> (\<exists>st'. port_arm env i st = Some st' \<and> errored st' i)
          \<and> (\<exists>st'. port_activate env i st = Some st' \<and> errored st' i)"
    using disable_failed[OF v] enable_polling_failed[OF v] isolate_failed[OF v]
      deisolate_failed[OF v] arm_failed[OF v] activate_failed[OF v]
    by blast
  have b: "\<forall>st' k. kick_fsm env i st = Some st'
                  \<and> length (mbox_calls st) \<le> k \<and> k < length (mbox_calls st')
                  \<and> (fst (mbox_rsp env k) \<noteq> 0 \<or> snd (mbox_rsp env k) \<noteq> 0)
              \<longrightarrow> errored st' i"
  proof (intro allI impI)
    fix st' k
    assume h: "kick_fsm env i st = Some st'
                  \<and> length (mbox_calls st) \<le> k \<and> k < length (mbox_calls st')
                  \<and> (fst (mbox_rsp env k) \<noteq> 0 \<or> snd (mbox_rsp env k) \<noteq> 0)"
    then have "step_ok env i st st'" using v step_ok_kick_fsm by blast
    then show "errored st' i" using h unfolding step_ok_def calls_ok_def by blast
  qed
  have c: "portinfo (pm_port st i) \<noteq> None \<longrightarrow> (\<exists>st'. kick_fsm env i st = Some st')"
    using kick_fsm_total by blast
  have d: "state (pm_port st i) = PM_PORT_STATE_IN_ERROR
            \<and> PORT_CONTROL_CLEAR_ERROR \<notin> controls (pm_port st i)
           \<longrightarrow> kick_fsm env i st = Some st"
    by (simp add: in_error_exit)
  have e: "state (pm_port st i) = PM_PORT_STATE_IN_ERROR
            \<and> PORT_CONTROL_CLEAR_ERROR \<in> controls (pm_port st i)
           \<longrightarrow> (\<exists>st'. kick_fsm env i st = Some st'
                     \<and> state (pm_port st' i) = PM_PORT_STATE_DISABLED
                     \<and> PORT_CONTROL_CLEAR_ERROR \<notin> controls (pm_port st' i)
                     \<and> rescan_needed (fio st'))"
    using assms(1) by (simp add: in_error_exit pm_defs)
  from a b c d e show ?thesis by blast
qed

theorem port_fsm_mailbox_failure_witness:
  "0 < length (port (pm_sd ex_pm))
   \<and> next_status_index ex_pm 0 < length (portstatus (pm_sd ex_pm))
   \<and> call_failed ex_env_failing ex_pm
   \<and> errored (port_disable ex_env_failing 0 ex_pm) 0
   \<and> errored (port_isolate ex_env_failing 0 ex_pm) 0
   \<and> kick_fsm ex_env_failing 0 ex_pm = Some (port_enable_polling ex_env_failing 0 ex_pm)
   \<and> 0 < length (mbox_calls (port_enable_polling ex_env_failing 0 ex_pm))
   \<and> fst (mbox_rsp ex_env_failing 0) \<noteq> 0
   \<and> errored (port_enable_polling ex_env_failing 0 ex_pm) 0"
proof -
  have h1: "0 < length (port (pm_sd ex_pm))" by code_simp
  have h2: "next_status_index ex_pm 0 < length (portstatus (pm_sd ex_pm))" by code_simp
  have h3: "call_failed ex_env_failing ex_pm" by code_simp
  have k1: "kick_fsm ex_env_failing 0 ex_pm = Some (port_enable_polling ex_env_failing 0 ex_pm)"
    by (simp add: kick_fsm_def fsm_DISABLED_def ex_pm_def pm_port_def ex_port_def)
  have k2: "length (mbox_calls ex_pm) \<le> 0" by code_simp
  have k3: "0 < length (mbox_calls (port_enable_polling ex_env_failing 0 ex_pm))" by code_simp
  have k4: "fst (mbox_rsp ex_env_failing 0) \<noteq> 0" by code_simp
  from port_fsm_mailbox_failure[OF h1 h2, of ex_env_failing] h1 h2 h3 k1 k2 k3 k4
  show ?thesis by blast
qed

section \<open>Port status query\<close>

text \<open>
  Claim C10.  \<open>get_fport_status\<close> returns \<open>-EINVAL\<close> and leaves the caller's buffer as
  it was when the logical port number is not a fabric port's (the handle is null,
  which includes every number from \<open>PORT_COUNT\<close> up) or when no status array is
  published.  For a fabric port it returns 0 and the buffer holds the entry of the
  published array at that port number.  The function only reads: its result depends
  on no other entry of the status storage, so the port manager filling the
  unpublished half does not change what a reader gets, and the model has no lock for
  it to take.
\<close>

theorem get_fport_status_result:
  "(sd_fport_handle s (unat l) = None \<or> port_status s = None
      \<longrightarrow> get_fport_status s l buf = (neg_errno EINVAL, buf))
   \<and> (\<forall>i curr. sd_fport_handle s (unat l) = Some i \<and> port_status s = Some curr
      \<longrightarrow> get_fport_status s l buf = (0, portstatus s ! (curr + unat l)))
   \<and> (\<forall>i curr k v. sd_fport_handle s (unat l) = Some i \<and> port_status s = Some curr
                    \<and> k \<noteq> curr + unat l
      \<longrightarrow> get_fport_status (s\<lparr>portstatus := (portstatus s)[k := v]\<rparr>) l buf
            = get_fport_status s l buf)"
  by (auto simp add: get_fport_status_def sd_fport_handle_def split: option.splits)

theorem get_fport_status_result_witness:
  "sd_fport_handle (ex_sd 0 0xA 0xB 1 0xEE 1) (unat (5::u8)) = None
   \<and> get_fport_status (ex_sd 0 0xA 0xB 1 0xEE 1) 5 (set_health_black ex_status)
       = (neg_errno EINVAL, set_health_black ex_status)
   \<and> sd_fport_handle (ex_sd 0 0xA 0xB 1 0xEE 1) (unat (1::u8)) = Some 0
   \<and> port_status (ex_sd 0 0xA 0xB 1 0xEE 1) = Some 0
   \<and> get_fport_status (ex_sd 0 0xA 0xB 1 0xEE 1) 1 (set_health_black ex_status)
       = (0, portstatus (ex_sd 0 0xA 0xB 1 0xEE 1) ! (0 + unat (1::u8)))"
proof -
  have h1: "sd_fport_handle (ex_sd 0 0xA 0xB 1 0xEE 1) (unat (5::u8)) = None" by code_simp
  have h2: "sd_fport_handle (ex_sd 0 0xA 0xB 1 0xEE 1) (unat (1::u8)) = Some 0" by code_simp
  have h3: "port_status (ex_sd 0 0xA 0xB 1 0xEE 1) = Some 0" by code_simp
  from get_fport_status_result[of "ex_sd 0 0xA 0xB 1 0xEE 1" 5 "set_health_black ex_status"]
       get_fport_status_result[of "ex_sd 0 0xA 0xB 1 0xEE 1" 1 "set_health_black ex_status"]
       h1 h2 h3
  show ?thesis by blast
qed

section \<open>Mailbox receive path\<close>

lemma deliveries_append [simp]: "deliveries (xs @ ys) = deliveries xs @ deliveries ys"
  by (simp add: deliveries_def)

lemma pm_triggers_append [simp]: "pm_triggers (xs @ ys) = pm_triggers xs @ pm_triggers ys"
  by (simp add: pm_triggers_def)

lemma deliveries_simps [simp]:
  "deliveries [] = []" "deliveries (e # es) = delivered_to e @ deliveries es"
  by (simp_all add: deliveries_def)

lemma pm_triggers_simps [simp]:
  "pm_triggers [] = []" "pm_triggers (e # es) = triggered e @ pm_triggers es"
  by (simp_all add: pm_triggers_def)

lemma emit_fields [simp]:
  "trace (emit e m) = trace m @ [e]"
  "ibox_list (emit e m) = ibox_list m"
  "iboxes (emit e m) = iboxes m"
  "counters (emit e m) = counters m"
  "pending_new_seq (emit e m) = pending_new_seq m"
  "outbox_sem (emit e m) = outbox_sem m"
  "stopping (emit e m) = stopping m"
  "mbdb_polling_mode (emit e m) = mbdb_polling_mode m"
  "ibox_waiters (emit e m) = ibox_waiters m"
  "inbox_seqno (emit e m) = inbox_seqno m"
  by (simp_all add: emit_def)

lemma counter_inc_fields [simp]:
  "trace (counter_inc c m) = trace m"
  "ibox_list (counter_inc c m) = ibox_list m"
  "iboxes (counter_inc c m) = iboxes m"
  "counters (counter_inc c m) c' = (if c' = c then counters m c + 1 else counters m c')"
  "pending_new_seq (counter_inc c m) = pending_new_seq m"
  "outbox_sem (counter_inc c m) = outbox_sem m"
  "stopping (counter_inc c m) = stopping m"
  "mbdb_polling_mode (counter_inc c m) = mbdb_polling_mode m"
  "ibox_waiters (counter_inc c m) = ibox_waiters m"
  by (simp_all add: counter_inc_def)

lemma ibox_update_fields [simp]:
  "trace (ibox_update a g m) = trace m"
  "ibox_list (ibox_update a g m) = ibox_list m"
  "iboxes (ibox_update a g m) x = (if x = a then map_option g (iboxes m a) else iboxes m x)"
  "counters (ibox_update a g m) = counters m"
  "pending_new_seq (ibox_update a g m) = pending_new_seq m"
  "outbox_sem (ibox_update a g m) = outbox_sem m"
  "stopping (ibox_update a g m) = stopping m"
  "mbdb_polling_mode (ibox_update a g m) = mbdb_polling_mode m"
  "ibox_waiters (ibox_update a g m) = ibox_waiters m"
  by (simp_all add: ibox_update_def)

lemma enable_interrupts_fields [simp]:
  "trace (mbdb_enable_interrupts k m) = trace m"
  "ibox_list (mbdb_enable_interrupts k m) = ibox_list m"
  "iboxes (mbdb_enable_interrupts k m) = iboxes m"
  "counters (mbdb_enable_interrupts k m) = counters m"
  "pending_new_seq (mbdb_enable_interrupts k m) = pending_new_seq m"
  "outbox_sem (mbdb_enable_interrupts k m) = outbox_sem m"
  "stopping (mbdb_enable_interrupts k m) = stopping m"
  "mbdb_polling_mode (mbdb_enable_interrupts k m) = mbdb_polling_mode m"
  "ibox_waiters (mbdb_enable_interrupts k m) = ibox_waiters m"
  by (simp_all add: mbdb_enable_interrupts_def)

lemma inbox_empty_fields [simp]:
  "ibox_list (mbdb_inbox_empty m) = ibox_list m"
  "iboxes (mbdb_inbox_empty m) = iboxes m"
  "counters (mbdb_inbox_empty m) = counters m"
  "pending_new_seq (mbdb_inbox_empty m) = pending_new_seq m"
  "outbox_sem (mbdb_inbox_empty m) = outbox_sem m"
  "stopping (mbdb_inbox_empty m) = stopping m"
  "mbdb_polling_mode (mbdb_inbox_empty m) = mbdb_polling_mode m"
  "ibox_waiters (mbdb_inbox_empty m) = ibox_waiters m"
  "deliveries (trace (mbdb_inbox_empty m)) = deliveries (trace m)"
  "pm_triggers (trace (mbdb_inbox_empty m)) = pm_triggers (trace m)"
  by (simp_all add: mbdb_inbox_empty_def Let_def mbdb_int_partner_set_wr_def)

lemma handle_unmatched_fields [simp]:
  "ibox_list (mbdb_ibox_handle_unmatched opc m) = ibox_list m"
  "iboxes (mbdb_ibox_handle_unmatched opc m) = iboxes m"
  "counters (mbdb_ibox_handle_unmatched opc m) = counters m"
  "pending_new_seq (mbdb_ibox_handle_unmatched opc m) = pending_new_seq m"
  "outbox_sem (mbdb_ibox_handle_unmatched opc m) = outbox_sem m"
  "stopping (mbdb_ibox_handle_unmatched opc m) = stopping m"
  "mbdb_polling_mode (mbdb_ibox_handle_unmatched opc m) = mbdb_polling_mode m"
  "ibox_waiters (mbdb_ibox_handle_unmatched opc m) = ibox_waiters m"
  "deliveries (trace (mbdb_ibox_handle_unmatched opc m)) = deliveries (trace m)"
  by (simp_all add: mbdb_ibox_handle_unmatched_def)

lemma handle_unmatched_triggers:
  "pm_triggers (trace (mbdb_ibox_handle_unmatched opc m)) = pm_triggers (trace m) @ trap_triggers opc"
  by (simp add: mbdb_ibox_handle_unmatched_def trap_triggers_def
      MBOX_OP_CODE_LINK_MGR_PORT_STATE_CHANGE_TRAP_NOTIFICATION_def
      MBOX_OP_CODE_LINK_MGR_PORT_LWD_TRAP_NOTIFICATION_def
      MBOX_OP_CODE_LINK_MGR_PORT_LQI_TRAP_NOTIFICATION_def
      MBOX_OP_CODE_QSFP_MGR_FAULT_TRAP_NOTIFICATION_def)

lemma up_sem_fields [simp]:
  "trace (up_sem m) = trace m"
  "ibox_list (up_sem m) = ibox_list m"
  "iboxes (up_sem m) = iboxes m"
  "counters (up_sem m) = counters m"
  "pending_new_seq (up_sem m) = pending_new_seq m"
  "outbox_sem (up_sem m) = outbox_sem m + 1"
  "stopping (up_sem m) = stopping m"
  "mbdb_polling_mode (up_sem m) = mbdb_polling_mode m"
  "ibox_waiters (up_sem m) = ibox_waiters m"
  by (simp_all add: up_sem_def)

lemma cmpxchg_fields [simp]:
  "trace (cmpxchg_pending_up m) = trace m"
  "ibox_list (cmpxchg_pending_up m) = ibox_list m"
  "iboxes (cmpxchg_pending_up m) = iboxes m"
  "counters (cmpxchg_pending_up m) = counters m"
  "stopping (cmpxchg_pending_up m) = stopping m"
  "mbdb_polling_mode (cmpxchg_pending_up m) = mbdb_polling_mode m"
  "ibox_waiters (cmpxchg_pending_up m) = ibox_waiters m"
  by (simp_all add: cmpxchg_pending_up_def Let_def)

lemma seq_reset_fields [simp]:
  "trace (mbdb_seq_reset c m) = trace m"
  "ibox_list (mbdb_seq_reset c m) = ibox_list m"
  "iboxes (mbdb_seq_reset c m) = iboxes m"
  "counters (mbdb_seq_reset c m) = counters m"
  "stopping (mbdb_seq_reset c m) = stopping m"
  "mbdb_polling_mode (mbdb_seq_reset c m) = mbdb_polling_mode m"
  "ibox_waiters (mbdb_seq_reset c m) = ibox_waiters m"
  by (simp_all add: mbdb_seq_reset_def Let_def)

lemma int_ack_fields [simp]:
  "ibox_list (mbdb_int_ack_wr n m) = ibox_list m"
  "iboxes (mbdb_int_ack_wr n m) = iboxes m"
  "counters (mbdb_int_ack_wr n m) = counters m"
  "pending_new_seq (mbdb_int_ack_wr n m) = pending_new_seq m"
  "outbox_sem (mbdb_int_ack_wr n m) = outbox_sem m"
  "stopping (mbdb_int_ack_wr n m) = stopping m"
  "mbdb_polling_mode (mbdb_int_ack_wr n m) = mbdb_polling_mode m"
  "ibox_waiters (mbdb_int_ack_wr n m) = ibox_waiters m"
  "inbox_seqno (mbdb_int_ack_wr n m) = inbox_seqno m"
  "deliveries (trace (mbdb_int_ack_wr n m)) = deliveries (trace m)"
  "pm_triggers (trace (mbdb_int_ack_wr n m)) = pm_triggers (trace m)"
  by (simp_all add: mbdb_int_ack_wr_def)

lemma deliver_fields:
  "ibox_list (mbdb_deliver a msg e m) = ibox_list m"
  "stopping (mbdb_deliver a msg e m) = stopping m"
  "mbdb_polling_mode (mbdb_deliver a msg e m) = mbdb_polling_mode m"
  "ibox_waiters (mbdb_deliver a msg e m) = ibox_waiters m"
  "pm_triggers (trace (mbdb_deliver a msg e m)) = pm_triggers (trace m)"
  "x \<noteq> a \<Longrightarrow> iboxes (mbdb_deliver a msg e m) x = iboxes m x"
  "counters (mbdb_deliver a msg e m) UNMATCHED_RESPONSES = counters m UNMATCHED_RESPONSES"
  "counters (mbdb_deliver a msg e m) TIMEDOUT_RESPONSES = counters m TIMEDOUT_RESPONSES"
  by (simp_all add: mbdb_deliver_def Let_def split: option.split)

lemma deliver_deliveries:
  "iboxes m a \<noteq> None \<Longrightarrow>
   deliveries (trace (mbdb_deliver a msg e m)) = deliveries (trace m) @ [a]"
  by (auto simp add: mbdb_deliver_def Let_def split: option.split)

lemma deliver_content:
  "iboxes m a = Some b \<Longrightarrow>
   map_option cw (iboxes (mbdb_deliver a msg e m) a) = Some (inbox_cw msg)
   \<and> map_option ibox_full (iboxes (mbdb_deliver a msg e m) a) = Some (ibox_full b \<or> \<not> cb b)
   \<and> map_option tid (iboxes (mbdb_deliver a msg e m) a) = Some (tid b)
   \<and> map_option op_code (iboxes (mbdb_deliver a msg e m) a) = Some (op_code b)
   \<and> map_option cb (iboxes (mbdb_deliver a msg e m) a) = Some (cb b)"
  by (auto simp add: mbdb_deliver_def Let_def split: option.split)

lemma find_ibox_some:
  assumes "find (ibox_matches m t opc) xs = Some a"
  shows "a \<in> set xs \<and> ibox_matches m t opc a"
  using assms by (induction xs) (auto split: if_splits)

lemma find_ibox_in_list:
  "fst (mbdb_find_ibox t opc m) = Some a \<Longrightarrow> a \<in> set (ibox_list m)"
  by (auto simp add: mbdb_find_ibox_def split: option.splits dest: find_ibox_some)

lemma find_remove1_distinct:
  "distinct xs \<Longrightarrow> a \<in> set xs \<Longrightarrow> a \<notin> set (remove1 a xs)"
  by simp

lemma inbox_full_fn_matched:
  assumes present: "\<not> (mbdb_polling_mode m \<and> \<not> inbox_full_bit msg)"
      and valid: "inbox_cw msg \<noteq> - 1"
      and rsp: "mbdb_mbox_msg_type (inbox_cw msg) = MBOX_RESPONSE"
      and found: "find (ibox_matches m (mbdb_mbox_tid (inbox_cw msg)) (mbdb_mbox_op_code (inbox_cw msg)))
                    (ibox_list m) = Some a"
  shows "mbdb_inbox_full_fn msg m =
         mbdb_deliver a msg (mbdb_mbox_seqno_error (mbdb_mbox_seq_no (inbox_cw msg)) (inbox_seqno m))
           ((mbdb_int_ack_wr S_INT_STATUS_INBOX_FULL m)
              \<lparr>inbox_seqno := mbdb_mbox_seqno_next (mbdb_mbox_seq_no (inbox_cw msg)),
               ibox_list := remove1 a (ibox_list m)\<rparr>)"
proof -
  have m: "ibox_matches ((mbdb_int_ack_wr S_INT_STATUS_INBOX_FULL m)
              \<lparr>inbox_seqno := s\<rparr>) = ibox_matches m" for s
    by (simp add: ibox_matches_def fun_eq_iff)
  show ?thesis
    using present valid rsp found
    by (auto simp add: mbdb_inbox_full_fn_def Let_def mbdb_find_ibox_def m)
qed

lemma inbox_full_fn_unmatched:
  assumes present: "\<not> (mbdb_polling_mode m \<and> \<not> inbox_full_bit msg)"
      and valid: "inbox_cw msg \<noteq> - 1"
      and rsp: "mbdb_mbox_msg_type (inbox_cw msg) = MBOX_RESPONSE"
      and found: "find (ibox_matches m (mbdb_mbox_tid (inbox_cw msg)) (mbdb_mbox_op_code (inbox_cw msg)))
                    (ibox_list m) = None"
  shows "mbdb_inbox_full_fn msg m =
         mbdb_inbox_empty
           (mbdb_ibox_handle_unmatched (mbdb_mbox_op_code (inbox_cw msg))
              (counter_inc UNMATCHED_RESPONSES
                 ((mbdb_int_ack_wr S_INT_STATUS_INBOX_FULL m)
                    \<lparr>inbox_seqno := mbdb_mbox_seqno_next (mbdb_mbox_seq_no (inbox_cw msg))\<rparr>)))"
proof -
  have m: "ibox_matches ((mbdb_int_ack_wr S_INT_STATUS_INBOX_FULL m)
              \<lparr>inbox_seqno := s\<rparr>) = ibox_matches m" for s
    by (simp add: ibox_matches_def fun_eq_iff)
  show ?thesis
    using present valid rsp found
    by (auto simp add: mbdb_inbox_full_fn_def Let_def mbdb_find_ibox_def m)
qed

text \<open>
  Claim C6.  A received response is delivered to at most one waiter.  When the
  pending list holds a record with the transaction id and opcode of the response,
  the first such record is the only one delivered to: it receives the control word,
  it is unlinked from the pending list, so that no later lookup can return it, and
  the unmatched-responses counter stays as it was.  When no record matches, nothing
  is delivered, the pending records stay as they were, the unmatched-responses
  counter goes up by one, and a trap notification opcode raises its port manager
  trigger.
\<close>

theorem mbdb_response_delivered_once:
  assumes dist: "distinct (ibox_list m)"
      and present: "\<not> (mbdb_polling_mode m \<and> \<not> inbox_full_bit msg)"
      and valid: "inbox_cw msg \<noteq> - 1"
      and rsp: "mbdb_mbox_msg_type (inbox_cw msg) = MBOX_RESPONSE"
  shows "case fst (mbdb_find_ibox (mbdb_mbox_tid (inbox_cw msg)) (mbdb_mbox_op_code (inbox_cw msg)) m) of
           Some a \<Rightarrow>
             a \<in> set (ibox_list m)
             \<and> map_option tid (iboxes m a) = Some (mbdb_mbox_tid (inbox_cw msg))
             \<and> map_option op_code (iboxes m a) = Some (mbdb_mbox_op_code (inbox_cw msg))
             \<and> deliveries (trace (mbdb_inbox_full_fn msg m)) = deliveries (trace m) @ [a]
             \<and> map_option cw (iboxes (mbdb_inbox_full_fn msg m) a) = Some (inbox_cw msg)
             \<and> ibox_list (mbdb_inbox_full_fn msg m) = remove1 a (ibox_list m)
             \<and> a \<notin> set (ibox_list (mbdb_inbox_full_fn msg m))
             \<and> (\<forall>t opc. fst (mbdb_find_ibox t opc (mbdb_inbox_full_fn msg m)) \<noteq> Some a)
             \<and> counters (mbdb_inbox_full_fn msg m) UNMATCHED_RESPONSES = counters m UNMATCHED_RESPONSES
         | None \<Rightarrow>
             deliveries (trace (mbdb_inbox_full_fn msg m)) = deliveries (trace m)
             \<and> ibox_list (mbdb_inbox_full_fn msg m) = ibox_list m
             \<and> iboxes (mbdb_inbox_full_fn msg m) = iboxes m
             \<and> counters (mbdb_inbox_full_fn msg m) UNMATCHED_RESPONSES
                 = counters m UNMATCHED_RESPONSES + 1
             \<and> pm_triggers (trace (mbdb_inbox_full_fn msg m))
                 = pm_triggers (trace m) @ trap_triggers (mbdb_mbox_op_code (inbox_cw msg))"
proof (cases "find (ibox_matches m (mbdb_mbox_tid (inbox_cw msg)) (mbdb_mbox_op_code (inbox_cw msg)))
                (ibox_list m)")
  case None
  note eq = inbox_full_fn_unmatched [OF present valid rsp None]
  have "fst (mbdb_find_ibox (mbdb_mbox_tid (inbox_cw msg)) (mbdb_mbox_op_code (inbox_cw msg)) m) = None"
    using None by (simp add: mbdb_find_ibox_def)
  then show ?thesis
    by (simp add: eq handle_unmatched_triggers)
next
  case (Some a)
  note eq = inbox_full_fn_matched [OF present valid rsp Some]
  let ?m1 = "(mbdb_int_ack_wr S_INT_STATUS_INBOX_FULL m)
              \<lparr>inbox_seqno := mbdb_mbox_seqno_next (mbdb_mbox_seq_no (inbox_cw msg)),
               ibox_list := remove1 a (ibox_list m)\<rparr>"
  from find_ibox_some [OF Some]
  have ain: "a \<in> set (ibox_list m)"
    and mt: "ibox_matches m (mbdb_mbox_tid (inbox_cw msg)) (mbdb_mbox_op_code (inbox_cw msg)) a"
    by simp_all
  from mt obtain b where b: "iboxes m a = Some b"
    and bt: "tid b = mbdb_mbox_tid (inbox_cw msg)" and bo: "op_code b = mbdb_mbox_op_code (inbox_cw msg)"
    by (auto simp add: ibox_matches_def split: option.splits)
  have b1: "iboxes ?m1 a = Some b" using b by simp
  have fst_eq: "fst (mbdb_find_ibox (mbdb_mbox_tid (inbox_cw msg)) (mbdb_mbox_op_code (inbox_cw msg)) m) = Some a"
    using Some by (simp add: mbdb_find_ibox_def)
  have lst: "ibox_list (mbdb_inbox_full_fn msg m) = remove1 a (ibox_list m)"
    by (simp add: eq deliver_fields)
  have notin: "a \<notin> set (ibox_list (mbdb_inbox_full_fn msg m))"
    using dist ain by (simp add: lst)
  have nomore: "\<forall>t opc. fst (mbdb_find_ibox t opc (mbdb_inbox_full_fn msg m)) \<noteq> Some a"
    using notin find_ibox_in_list by blast
  have del: "deliveries (trace (mbdb_inbox_full_fn msg m)) = deliveries (trace m) @ [a]"
    using b1 by (simp add: eq deliver_deliveries)
  have cnt: "counters (mbdb_inbox_full_fn msg m) UNMATCHED_RESPONSES = counters m UNMATCHED_RESPONSES"
    by (simp add: eq deliver_fields)
  have cwd: "map_option cw (iboxes (mbdb_inbox_full_fn msg m) a) = Some (inbox_cw msg)"
    using deliver_content [OF b1] by (simp add: eq)
  show ?thesis
    using ain b bt bo del cwd lst notin nomore cnt by (simp add: fst_eq)
qed

theorem mbdb_response_delivered_once_witness:
  "deliveries (trace (mbdb_inbox_full_fn ex_response ex_mbdb)) = [200]
   \<and> ibox_list (mbdb_inbox_full_fn ex_response ex_mbdb) = [100]
   \<and> counters (mbdb_inbox_full_fn ex_response ex_mbdb) UNMATCHED_RESPONSES = 0
   \<and> deliveries (trace (mbdb_inbox_full_fn ex_stray ex_mbdb)) = []
   \<and> ibox_list (mbdb_inbox_full_fn ex_stray ex_mbdb) = [100, 200]
   \<and> counters (mbdb_inbox_full_fn ex_stray ex_mbdb) UNMATCHED_RESPONSES = 1
   \<and> pm_triggers (trace (mbdb_inbox_full_fn ex_stray ex_mbdb)) = [PSC_TRAP]"
proof -
  have d: "distinct (ibox_list ex_mbdb)" by code_simp
  have p1: "\<not> (mbdb_polling_mode ex_mbdb \<and> \<not> inbox_full_bit ex_response)" by code_simp
  have v1: "inbox_cw ex_response \<noteq> - 1" by code_simp
  have r1: "mbdb_mbox_msg_type (inbox_cw ex_response) = MBOX_RESPONSE" by code_simp
  have f1: "fst (mbdb_find_ibox (mbdb_mbox_tid (inbox_cw ex_response))
                  (mbdb_mbox_op_code (inbox_cw ex_response)) ex_mbdb) = Some 200" by code_simp
  have p2: "\<not> (mbdb_polling_mode ex_mbdb \<and> \<not> inbox_full_bit ex_stray)" by code_simp
  have v2: "inbox_cw ex_stray \<noteq> - 1" by code_simp
  have r2: "mbdb_mbox_msg_type (inbox_cw ex_stray) = MBOX_RESPONSE" by code_simp
  have f2: "fst (mbdb_find_ibox (mbdb_mbox_tid (inbox_cw ex_stray))
                  (mbdb_mbox_op_code (inbox_cw ex_stray)) ex_mbdb) = None" by code_simp
  have o2: "trap_triggers (mbdb_mbox_op_code (inbox_cw ex_stray)) = [PSC_TRAP]" by code_simp
  have e: "ibox_list ex_mbdb = [100, 200]" "trace ex_mbdb = []"
    "counters ex_mbdb UNMATCHED_RESPONSES = 0"
    by (simp_all add: ex_mbdb_def)
  from mbdb_response_delivered_once [OF d p1 v1 r1] mbdb_response_delivered_once [OF d p2 v2 r2]
  show ?thesis
    by (simp add: f1 f2 o2 e)
qed

section \<open>Mailbox calls that time out\<close>

lemma op_code_seqno_or:
  "mbdb_mbox_op_code (c OR push_bit 10 x) = mbdb_mbox_op_code c"
  "mbdb_mbox_op_code (c OR (push_bit 10 x AND y)) = mbdb_mbox_op_code c"
  unfolding mbdb_mbox_op_code_def
  by (rule bit_eqI; auto simp add: bit_simps)+

lemma is_posted_seqno_or:
  "mbdb_mbox_is_posted (c OR push_bit 10 x) = mbdb_mbox_is_posted c"
  "mbdb_mbox_is_posted (c OR (push_bit 10 x AND y)) = mbdb_mbox_is_posted c"
  by (simp_all add: mbdb_mbox_is_posted_def posted_of_def and_one_zero_iff bit_simps)

lemma seq_reset_sem:
  "outbox_inv s m \<Longrightarrow> outbox_inv s (mbdb_seq_reset c m)"
  "pending_new_seq m = 0 \<Longrightarrow>
     pending_new_seq (mbdb_seq_reset c m) = 0 \<and> outbox_sem (mbdb_seq_reset c m) = outbox_sem m"
  by (auto simp add: outbox_inv_def mbdb_seq_reset_def cmpxchg_pending_up_def Let_def up_sem_def)

lemma seq_reset_pending:
  "pending_new_seq (mbdb_seq_reset c m) =
     (if mbdb_mbox_op_code c \<noteq> MBOX_OP_CODE_RESET \<and> mbdb_mbox_op_code c \<noteq> MBOX_OP_CODE_FW_START
      then pending_new_seq m else if pending_new_seq m = 1 then 0 else pending_new_seq m)"
  "outbox_sem (mbdb_seq_reset c m) =
     (if mbdb_mbox_op_code c \<noteq> MBOX_OP_CODE_RESET \<and> mbdb_mbox_op_code c \<noteq> MBOX_OP_CODE_FW_START
      then outbox_sem m else if pending_new_seq m \<noteq> 0 then outbox_sem m + 1 else outbox_sem m)"
  by (auto simp add: mbdb_seq_reset_def cmpxchg_pending_up_def Let_def up_sem_def)

lemma deliver_sem:
  "pending_new_seq (mbdb_deliver a msg e m) = pending_new_seq (mbdb_seq_reset (inbox_cw msg) m)"
  "outbox_sem (mbdb_deliver a msg e m) = outbox_sem (mbdb_seq_reset (inbox_cw msg) m)"
  by (simp_all add: mbdb_deliver_def Let_def seq_reset_pending split: option.split)

lemma deliver_inv:
  "outbox_inv s m \<Longrightarrow> outbox_inv s (mbdb_deliver a msg e m)"
  "pending_new_seq m = 0 \<Longrightarrow>
     pending_new_seq (mbdb_deliver a msg e m) = 0 \<and> outbox_sem (mbdb_deliver a msg e m) = outbox_sem m"
  by (auto simp add: outbox_inv_def deliver_sem seq_reset_pending)

lemma inbox_full_fn_frame:
  "stopping (mbdb_inbox_full_fn msg m) = stopping m"
  "mbdb_polling_mode (mbdb_inbox_full_fn msg m) = mbdb_polling_mode m"
  "ibox_waiters (mbdb_inbox_full_fn msg m) = ibox_waiters m"
  "counters (mbdb_inbox_full_fn msg m) TIMEDOUT_RESPONSES = counters m TIMEDOUT_RESPONSES"
  by (simp_all add: mbdb_inbox_full_fn_def Let_def mbdb_find_ibox_def deliver_fields
      split: option.split prod.split)

lemma inbox_full_fn_inv:
  "outbox_inv s m \<Longrightarrow> outbox_inv s (mbdb_inbox_full_fn msg m)"
  by (auto simp add: mbdb_inbox_full_fn_def Let_def mbdb_find_ibox_def deliver_inv outbox_inv_def
      deliver_sem seq_reset_pending split: option.split prod.split)

lemma inbox_full_fn_idle:
  "pending_new_seq m = 0 \<Longrightarrow>
     pending_new_seq (mbdb_inbox_full_fn msg m) = 0
     \<and> outbox_sem (mbdb_inbox_full_fn msg m) = outbox_sem m"
  by (auto simp add: mbdb_inbox_full_fn_def Let_def mbdb_find_ibox_def
      deliver_sem seq_reset_pending split: option.split prod.split)

lemma inbox_full_fn_other:
  assumes b: "iboxes m a = Some b"
      and na: "\<not> answers (tid b) (op_code b) msg"
  shows "iboxes (mbdb_inbox_full_fn msg m) a = Some b"
proof -
  let ?t = "mbdb_mbox_tid (inbox_cw msg)" and ?o = "mbdb_mbox_op_code (inbox_cw msg)"
  have m: "ibox_matches ((mbdb_int_ack_wr S_INT_STATUS_INBOX_FULL m)\<lparr>inbox_seqno := s\<rparr>)
             = ibox_matches m" for s
    by (simp add: ibox_matches_def fun_eq_iff)
  have other: "a' \<noteq> a"
    if "mbdb_mbox_msg_type (inbox_cw msg) = MBOX_RESPONSE"
      and "find (ibox_matches m ?t ?o) (ibox_list m) = Some a'" for a'
  proof
    assume "a' = a"
    with find_ibox_some [OF that(2)] have "ibox_matches m ?t ?o a" by simp
    with b have "tid b = ?t \<and> op_code b = ?o" by (simp add: ibox_matches_def)
    with na that(1) show False by (simp add: answers_def)
  qed
  show ?thesis
    using b other
    by (auto simp add: mbdb_inbox_full_fn_def Let_def mbdb_find_ibox_def m deliver_fields
        split: option.split prod.split)
qed

lemma silent_fold:
  assumes "iboxes m a = Some b"
      and "\<forall>msg\<in>set msgs. \<not> answers (tid b) (op_code b) msg"
  shows "iboxes (fold mbdb_inbox_full_fn msgs m) a = Some b
         \<and> stopping (fold mbdb_inbox_full_fn msgs m) = stopping m
         \<and> mbdb_polling_mode (fold mbdb_inbox_full_fn msgs m) = mbdb_polling_mode m
         \<and> ibox_waiters (fold mbdb_inbox_full_fn msgs m) = ibox_waiters m
         \<and> counters (fold mbdb_inbox_full_fn msgs m) TIMEDOUT_RESPONSES = counters m TIMEDOUT_RESPONSES
         \<and> (outbox_inv s m \<longrightarrow> outbox_inv s (fold mbdb_inbox_full_fn msgs m))
         \<and> (pending_new_seq m = 0 \<longrightarrow>
              pending_new_seq (fold mbdb_inbox_full_fn msgs m) = 0
              \<and> outbox_sem (fold mbdb_inbox_full_fn msgs m) = outbox_sem m)"
  using assms
proof (induction msgs arbitrary: m)
  case Nil
  then show ?case by simp
next
  case (Cons msg msgs)
  have b1: "iboxes (mbdb_inbox_full_fn msg m) a = Some b"
    using Cons.prems by (simp add: inbox_full_fn_other)
  have rest: "\<forall>x\<in>set msgs. \<not> answers (tid b) (op_code b) x"
    using Cons.prems by simp
  note ih = Cons.IH [OF b1 rest]
  show ?case
    using ih inbox_full_fn_inv [of s m msg] inbox_full_fn_idle [of m msg]
    by (simp add: inbox_full_fn_frame)
qed

lemma cmpxchg_inv:
  "outbox_inv s m \<Longrightarrow>
     pending_new_seq (cmpxchg_pending_up m) = 0 \<and> outbox_sem (cmpxchg_pending_up m) = s"
  by (auto simp add: outbox_inv_def cmpxchg_pending_up_def Let_def up_sem_def)

lemma ibox_wait_timeout:
  assumes ns: "\<not> stopping m"
      and b: "iboxes m a = Some b"
      and nf: "\<not> ibox_full b"
      and silent: "\<forall>msg\<in>set (inbound env). \<not> answers (tid b) (op_code b) msg"
      and inv: "outbox_inv s m"
      and plain: "op_code b \<noteq> MBOX_OP_CODE_FW_START \<and> op_code b \<noteq> MBOX_OP_CODE_RESET
                    \<longrightarrow> pending_new_seq m = 0"
  shows "fst (mbdb_ibox_wait env a m) = neg_errno ETIMEDOUT
         \<and> a \<notin> set (ibox_list (snd (mbdb_ibox_wait env a m)))
         \<and> iboxes (snd (mbdb_ibox_wait env a m)) a = Some b
         \<and> counters (snd (mbdb_ibox_wait env a m)) TIMEDOUT_RESPONSES
             = counters m TIMEDOUT_RESPONSES + 1
         \<and> \<not> stopping (snd (mbdb_ibox_wait env a m))
         \<and> outbox_sem (snd (mbdb_ibox_wait env a m)) = s
         \<and> pending_new_seq (snd (mbdb_ibox_wait env a m)) = 0"
proof -
  define m1 where "m1 = (if mbdb_polling_mode m
                     then emit QUEUE_INBOX_FULL_WORK (m\<lparr>ibox_waiters := ibox_waiters m + 1\<rparr>)
                     else m)"
  define m2 where "m2 = fold mbdb_inbox_full_fn (inbound env) m1"
  have b1: "iboxes m1 a = Some b" using b by (simp add: m1_def)
  have inv1: "outbox_inv s m1" using inv by (simp add: m1_def outbox_inv_def)
  have p1: "pending_new_seq m1 = pending_new_seq m" "outbox_sem m1 = outbox_sem m"
    "stopping m1 = stopping m" "counters m1 = counters m"
    by (simp_all add: m1_def)
  from silent_fold [OF b1 silent, of s]
  have f: "iboxes m2 a = Some b" "stopping m2 = stopping m1"
    "counters m2 TIMEDOUT_RESPONSES = counters m1 TIMEDOUT_RESPONSES"
    "outbox_inv s m2"
    "pending_new_seq m1 = 0 \<longrightarrow> pending_new_seq m2 = 0 \<and> outbox_sem m2 = outbox_sem m1"
    using inv1 by (simp_all add: m2_def)
  define m22 where "m22 = counter_inc TIMEDOUT_RESPONSES (m2\<lparr>ibox_list := filter (\<lambda>x. x \<noteq> a) (ibox_list m2)\<rparr>)"
  define m23 where "m23 = (if op_code b = MBOX_OP_CODE_FW_START \<or> op_code b = MBOX_OP_CODE_RESET
                                   then cmpxchg_pending_up m22 else m22)"
  have inv22: "outbox_inv s m22" using f(4) by (simp add: m22_def outbox_inv_def)
  have sem23: "pending_new_seq m23 = 0 \<and> outbox_sem m23 = s"
  proof (cases "op_code b = MBOX_OP_CODE_FW_START \<or> op_code b = MBOX_OP_CODE_RESET")
    case True
    then show ?thesis using cmpxchg_inv [OF inv22] by (simp add: m23_def)
  next
    case False
    with plain have "pending_new_seq m = 0" by simp
    with f(5) p1 have "pending_new_seq m2 = 0 \<and> outbox_sem m2 = outbox_sem m" by simp
    moreover from inv22 have "outbox_inv s m22" .
    ultimately show ?thesis using False
      by (auto simp add: m23_def m22_def outbox_inv_def)
  qed
  have other23: "a \<notin> set (ibox_list m23)" "iboxes m23 a = Some b"
    "counters m23 TIMEDOUT_RESPONSES = counters m TIMEDOUT_RESPONSES + 1"
    "\<not> stopping m23"
    using f p1 ns by (simp_all add: m23_def m22_def)
  have w: "mbdb_ibox_wait env a m =
      (neg_errno ETIMEDOUT,
       if mbdb_polling_mode m23
       then emit QUEUE_INBOX_FULL_WORK
              (if ibox_waiters m23 \<noteq> 0 then m23\<lparr>ibox_waiters := ibox_waiters m23 - 1\<rparr> else m23)
       else m23)"
    using ns f(1) nf
    unfolding m23_def m22_def m2_def m1_def
    by (simp add: mbdb_ibox_wait_def Let_def wait_for_completion_timeout_def)
  show ?thesis
    using sem23 other23 by (simp add: w)
qed

lemma outbox_is_empty_ok:
  assumes "\<not> stopping m"
      and "outbox_empty_now env \<or> outbox_wait_ends env = OUTBOX_EMPTIED"
  shows "fst (mbdb_outbox_is_empty env m) = Inr ()
         \<and> iboxes (snd (mbdb_outbox_is_empty env m)) = iboxes m
         \<and> ibox_list (snd (mbdb_outbox_is_empty env m)) = ibox_list m
         \<and> stopping (snd (mbdb_outbox_is_empty env m)) = stopping m
         \<and> mbdb_polling_mode (snd (mbdb_outbox_is_empty env m)) = mbdb_polling_mode m
         \<and> counters (snd (mbdb_outbox_is_empty env m)) = counters m
         \<and> pending_new_seq (snd (mbdb_outbox_is_empty env m)) = pending_new_seq m
         \<and> outbox_sem (snd (mbdb_outbox_is_empty env m)) = outbox_sem m"
  using assms by (auto simp add: mbdb_outbox_is_empty_def Let_def)

lemma outbox_seqno_fields [simp]:
  "iboxes (snd (mbdb_outbox_seqno m)) = iboxes m"
  "ibox_list (snd (mbdb_outbox_seqno m)) = ibox_list m"
  "stopping (snd (mbdb_outbox_seqno m)) = stopping m"
  "mbdb_polling_mode (snd (mbdb_outbox_seqno m)) = mbdb_polling_mode m"
  "counters (snd (mbdb_outbox_seqno m)) = counters m"
  "pending_new_seq (snd (mbdb_outbox_seqno m)) = pending_new_seq m"
  "outbox_sem (snd (mbdb_outbox_seqno m)) = outbox_sem m"
  by (simp_all add: mbdb_outbox_seqno_def)

lemma outbox_acquire_ok:
  assumes ns: "\<not> stopping m"
      and free: "0 < outbox_sem m" "pending_new_seq m = 0"
      and empties: "outbox_empty_now env \<or> outbox_wait_ends env = OUTBOX_EMPTIED"
      and np: "mbdb_mbox_is_posted cword = MBOX_RESPONSE_REQUESTED"
  shows "\<exists>cword1 m7. mbdb_outbox_acquire env cword (Some m) = Returns (Inr cword1, Some m7)
           \<and> iboxes m7 = iboxes m \<and> ibox_list m7 = ibox_list m \<and> \<not> stopping m7
           \<and> counters m7 TIMEDOUT_RESPONSES = counters m TIMEDOUT_RESPONSES
           \<and> outbox_sem m7 + 1 = outbox_sem m
           \<and> pending_new_seq m7 =
                (if mbdb_mbox_op_code cword = MBOX_OP_CODE_FW_START
                    \<or> mbdb_mbox_op_code cword = MBOX_OP_CODE_RESET then 1 else 0)"
proof -
  define m2 where "m2 = counter_inc NON_POSTED_REQUESTS (m\<lparr>outbox_sem := outbox_sem m - 1\<rparr>)"
  have ns2: "\<not> stopping m2" using ns by (simp add: m2_def)
  obtain r m3 where e: "mbdb_outbox_is_empty env m2 = (r, m3)" by (cases "mbdb_outbox_is_empty env m2")
  from outbox_is_empty_ok [OF ns2 empties] e
  have r: "r = Inr ()" and m3: "iboxes m3 = iboxes m2" "ibox_list m3 = ibox_list m2"
    "stopping m3 = stopping m2" "counters m3 = counters m2"
    "pending_new_seq m3 = pending_new_seq m2" "outbox_sem m3 = outbox_sem m2"
    by simp_all
  obtain sq m5 where s: "mbdb_outbox_seqno (mbdb_int_ack_wr S_INT_STATUS_OUTBOX_EMPTY m3) = (sq, m5)"
    by (cases "mbdb_outbox_seqno (mbdb_int_ack_wr S_INT_STATUS_OUTBOX_EMPTY m3)")
  have m5: "iboxes m5 = iboxes m3" "ibox_list m5 = ibox_list m3"
    "stopping m5 = stopping m3" "counters m5 = counters m3"
    "pending_new_seq m5 = pending_new_seq m3" "outbox_sem m5 = outbox_sem m3"
    using outbox_seqno_fields [of "mbdb_int_ack_wr S_INT_STATUS_OUTBOX_EMPTY m3"]
    by (simp_all add: s)
  have posted_neq: "MBOX_RESPONSE_REQUESTED \<noteq> MBOX_NO_RESPONSE_REQUESTED" by simp
  show ?thesis
    using ns free np e r s m3 m5
    by (auto simp add: mbdb_outbox_acquire_def Let_def m2_def [symmetric]
        op_code_seqno_or is_posted_seqno_or m2_def)
qed

lemma outbox_acquire_free:
  "0 < outbox_sem m \<Longrightarrow> mbdb_outbox_acquire env cword (Some m) \<noteq> Sleeps"
  by (auto simp add: mbdb_outbox_acquire_def Let_def split: prod.split sum.split)

lemma ops_execute_free:
  "0 < outbox_sem m \<Longrightarrow> ops_execute env cword ibox (Some m) \<noteq> Sleeps"
  using outbox_acquire_free [of m env cword]
  by (auto simp add: ops_execute_def Let_def split: blocking.split prod.split sum.split option.split)

lemma ops_execute_sync_timeout:
  assumes ns: "\<not> stopping m"
      and free: "0 < outbox_sem m" "pending_new_seq m = 0"
      and empties: "outbox_empty_now env \<or> outbox_wait_ends env = OUTBOX_EMPTIED"
      and np: "mbdb_mbox_is_posted cword = MBOX_RESPONSE_REQUESTED"
      and b: "iboxes m a = Some b"
      and sync: "\<not> cb b" and nf: "\<not> ibox_full b"
      and opc: "op_code b = mbdb_mbox_op_code cword"
      and silent: "\<forall>msg\<in>set (inbound env). \<not> answers (tid b) (op_code b) msg"
  shows "\<exists>cword1 m'.
           ops_execute env cword (Some a) (Some m) = Returns ((neg_errno ETIMEDOUT, cword1), Some m')
           \<and> a \<notin> set (ibox_list m') \<and> iboxes m' a = None
           \<and> counters m' TIMEDOUT_RESPONSES = counters m TIMEDOUT_RESPONSES + 1
           \<and> \<not> stopping m' \<and> outbox_sem m' = outbox_sem m \<and> pending_new_seq m' = 0"
proof -
  from outbox_acquire_ok [OF ns free empties np]
  obtain cword1 m7 where acq: "mbdb_outbox_acquire env cword (Some m) = Returns (Inr cword1, Some m7)"
    and m7: "iboxes m7 = iboxes m" "ibox_list m7 = ibox_list m" "\<not> stopping m7"
      "counters m7 TIMEDOUT_RESPONSES = counters m TIMEDOUT_RESPONSES"
      "outbox_sem m7 + 1 = outbox_sem m"
      "pending_new_seq m7 = (if mbdb_mbox_op_code cword = MBOX_OP_CODE_FW_START
                    \<or> mbdb_mbox_op_code cword = MBOX_OP_CODE_RESET then 1 else 0)"
    by blast
  define m3 where "m3 = (let m1 = mbdb_int_partner_set_wr S_INT_STATUS_INBOX_FULL (emit (OUTBOX_CW cword1) m7)
                          in if pending_new_seq m1 = 0 then up_sem m1 else m1)"
  have rel: "mbdb_outbox_release (Some (emit (OUTBOX_CW cword1) m7)) = Some m3"
    by (simp add: mbdb_outbox_release_def m3_def Let_def)
  have m3: "iboxes m3 a = Some b" "\<not> stopping m3"
    "counters m3 TIMEDOUT_RESPONSES = counters m TIMEDOUT_RESPONSES"
    using m7 b by (simp_all add: m3_def Let_def mbdb_int_partner_set_wr_def)
  have inv3: "outbox_inv (outbox_sem m) m3"
    using m7 by (auto simp add: m3_def Let_def mbdb_int_partner_set_wr_def outbox_inv_def)
  have plain3: "op_code b \<noteq> MBOX_OP_CODE_FW_START \<and> op_code b \<noteq> MBOX_OP_CODE_RESET
                    \<longrightarrow> pending_new_seq m3 = 0"
    using m7 opc by (auto simp add: m3_def Let_def mbdb_int_partner_set_wr_def)
  obtain ret m4 where w: "mbdb_ibox_wait env a m3 = (ret, m4)" by (cases "mbdb_ibox_wait env a m3")
  from ibox_wait_timeout [OF m3(2) m3(1) nf silent inv3 plain3] w
  have ret: "ret = neg_errno ETIMEDOUT" and m4: "a \<notin> set (ibox_list m4)"
    "counters m4 TIMEDOUT_RESPONSES = counters m3 TIMEDOUT_RESPONSES + 1"
    "\<not> stopping m4" "outbox_sem m4 = outbox_sem m" "pending_new_seq m4 = 0"
    by simp_all
  have neg: "\<not> 0 < neg_errno ETIMEDOUT"
    by simp
  have ex: "ops_execute env cword (Some a) (Some m)
              = Returns ((neg_errno ETIMEDOUT, cword1), Some (mbdb_ibox_release a m4))"
    unfolding ops_execute_def acq
    using m3(1) sync w ret neg
    by (simp add: rel Let_def)
  show ?thesis
    using ex m4 m3(3) by (simp add: mbdb_ibox_release_def)
qed

text \<open>
  The timeout path of \<open>mbdb_ibox_wait\<close>.  A non-posted call without a callback, made
  on a mailbox that is not stopping and whose outbox is free, whose request is sent
  (the outbox is or becomes empty) and for which no inbound message handled during
  the wait is a response with its transaction id and opcode, returns \<open>-ETIMEDOUT\<close>.
  Its record is unlinked from the pending list and freed, the timed-out-responses
  counter goes up by one, and the outbox is free again, also when the opcode is
  RESET or FW_START: the semaphore has its count back and the flag is clear, so no
  later call sleeps on the outbox.
\<close>

theorem ops_execute_timeout:
  assumes ns: "\<not> stopping m"
      and free: "0 < outbox_sem m" "pending_new_seq m = 0"
      and empties: "outbox_empty_now env \<or> outbox_wait_ends env = OUTBOX_EMPTIED"
      and silent: "\<forall>msg\<in>set (inbound env). \<not> answers (inbox_tid m) opc msg"
  shows "\<exists>cword cword1 mo1 m'.
           mbdb_op_build_cw_and_acquire_ibox opc parm_len has_response len False False (Some a) (Some m)
             = (Inr (Some a, cword), mo1)
           \<and> ops_execute env cword (Some a) mo1 = Returns ((neg_errno ETIMEDOUT, cword1), Some m')
           \<and> a \<notin> set (ibox_list m') \<and> iboxes m' a = None
           \<and> counters m' TIMEDOUT_RESPONSES = counters m TIMEDOUT_RESPONSES + 1
           \<and> \<not> stopping m' \<and> outbox_sem m' = outbox_sem m \<and> pending_new_seq m' = 0
           \<and> (\<forall>env2 cword2 ibox2. ops_execute env2 cword2 ibox2 (Some m') \<noteq> Sleeps)"
proof -
  define b where "b = \<lparr>tid = inbox_tid m, op_code = opc, cb = False, response = [],
                            rsp_len = (if has_response then ucast len else 0), cw = 0, rsp_status = 0,
                            ibox_full = False\<rparr>"
  define m0 where "m0 = m\<lparr>inbox_tid := inbox_tid m + 1, iboxes := (iboxes m)(a := Some b),
                               ibox_list := ibox_list m @ [a]\<rparr>"
  define cword where "cword = build_cw opc MBOX_REQUEST MBOX_RESPONSE_REQUESTED 0 parm_len (inbox_tid m)"
  have build: "mbdb_op_build_cw_and_acquire_ibox opc parm_len has_response len False False (Some a) (Some m)
             = (Inr (Some a, cword), Some m0)"
    by (simp add: mbdb_op_build_cw_and_acquire_ibox_def mbdb_ibox_acquire_def Let_def
        mbdb_ibox_tid_def cword_def m0_def b_def)
  have ns0: "\<not> stopping m0" and free0: "0 < outbox_sem m0" "pending_new_seq m0 = 0"
    and b0: "iboxes m0 a = Some b"
    using ns free by (simp_all add: m0_def)
  have np: "mbdb_mbox_is_posted cword = MBOX_RESPONSE_REQUESTED"
    by (simp add: cword_def decode_is_posted)
  have sync: "\<not> cb b" and nf: "\<not> ibox_full b" and opc: "op_code b = mbdb_mbox_op_code cword"
    by (simp_all add: b_def cword_def decode_op_code)
  have silent0: "\<forall>msg\<in>set (inbound env). \<not> answers (tid b) (op_code b) msg"
    using silent by (simp add: b_def)
  from ops_execute_sync_timeout [OF ns0 free0 empties np b0 sync nf opc silent0]
  obtain cword1 m' where
    ex: "ops_execute env cword (Some a) (Some m0) = Returns ((neg_errno ETIMEDOUT, cword1), Some m')"
    and m': "a \<notin> set (ibox_list m')" "iboxes m' a = None"
      "counters m' TIMEDOUT_RESPONSES = counters m0 TIMEDOUT_RESPONSES + 1"
      "\<not> stopping m'" "outbox_sem m' = outbox_sem m0" "pending_new_seq m' = 0"
    by blast
  have c0: "counters m0 = counters m" "outbox_sem m0 = outbox_sem m"
    by (simp_all add: m0_def)
  have next_call: "\<forall>env2 cword2 ibox2. ops_execute env2 cword2 ibox2 (Some m') \<noteq> Sleeps"
    using ops_execute_free [of m'] m'(5) free0(1) by simp
  show ?thesis
    using build ex m' c0 next_call by auto
qed

theorem ops_execute_timeout_witness:
  "\<exists>cword cword1 mo1 m'.
     mbdb_op_build_cw_and_acquire_ibox MBOX_OP_CODE_RESET 0 False 0 False False (Some 300) (Some ex_mbdb)
       = (Inr (Some 300, cword), mo1)
     \<and> ops_execute ex_env_busy cword (Some 300) mo1 = Returns ((neg_errno ETIMEDOUT, cword1), Some m')
     \<and> 300 \<notin> set (ibox_list m') \<and> iboxes m' 300 = None
     \<and> counters m' TIMEDOUT_RESPONSES = counters ex_mbdb TIMEDOUT_RESPONSES + 1
     \<and> \<not> stopping m' \<and> outbox_sem m' = outbox_sem ex_mbdb \<and> pending_new_seq m' = 0
     \<and> (\<forall>env2 cword2 ibox2. ops_execute env2 cword2 ibox2 (Some m') \<noteq> Sleeps)"
proof -
  have h1: "\<not> stopping ex_mbdb" by code_simp
  have h2: "0 < outbox_sem ex_mbdb" by code_simp
  have h3: "pending_new_seq ex_mbdb = 0" by code_simp
  have h4: "outbox_empty_now ex_env_busy \<or> outbox_wait_ends ex_env_busy = OUTBOX_EMPTIED" by code_simp
  have h5: "\<forall>msg\<in>set (inbound ex_env_busy). \<not> answers (inbox_tid ex_mbdb) MBOX_OP_CODE_RESET msg"
    by code_simp
  show ?thesis
    by (rule ops_execute_timeout [OF h1 h2 h3 h4 h5])
qed

text \<open>
  Claim C4.  A synchronous reset is issued on a mailbox that is not stopping and
  whose outbox semaphore is free, while the outbox never becomes empty: the
  response never arrives.  \<open>mbdb_outbox_acquire\<close> times out and \<open>ops_execute\<close> returns
  \<open>-ETIMEDOUT\<close> at once, before \<open>mbdb_ibox_release\<close>.  The call fails with a timeout
  and the outbox semaphore is free again, but the record that \<open>mbdb_ibox_acquire\<close>
  linked stays in the pending list, allocated; the counter that moves is that of
  timed-out requests, not that of timed-out responses.  The timeout path of
  \<open>mbdb_ibox_wait\<close> above unlinks and frees the record; this path does not.
\<close>

theorem ops_reset_outbox_timeout_leak:
  "(case ops_reset ex_env_outbox_full False False (Some 300) (Some ex_mbdb) of
      Returns (ret, Some m') \<Rightarrow>
        ret = neg_errno ETIMEDOUT
        \<and> 300 \<in> set (ibox_list m') \<and> iboxes m' 300 \<noteq> None
        \<and> counters m' TIMEDOUT_RESPONSES = counters ex_mbdb TIMEDOUT_RESPONSES
        \<and> counters m' TIMEDOUT_REQUESTS = counters ex_mbdb TIMEDOUT_REQUESTS + 1
        \<and> outbox_sem m' = outbox_sem ex_mbdb \<and> pending_new_seq m' = 0
    | _ \<Rightarrow> False)
   \<and> 300 \<notin> set (ibox_list ex_mbdb) \<and> iboxes ex_mbdb 300 = None
   \<and> \<not> stopping ex_mbdb \<and> outbox_sem ex_mbdb = 1"
  by code_simp

section \<open>Programming stage with unchanged tables\<close>

lemma io_call_ok:
  "io_rsp env (length (io_calls st)) = 0 \<Longrightarrow>
   io_call env c st = (0, st\<lparr>io_calls := io_calls st @ [c]\<rparr>)"
  by (simp add: io_call_def)






lemma rpipe_port_mask_switchinfo [simp]:
  "rpipe_port_mask (s\<lparr>switchinfo := x\<rparr>) = rpipe_port_mask s"
  by (simp add: rpipe_port_mask_def for_each_fabric_lpn_def sd_fport_handle_def
      cong: option.case_cong if_cong)

lemma for_each_bridge_lpn_switchinfo [simp]:
  "for_each_bridge_lpn (s\<lparr>switchinfo := x\<rparr>) = for_each_bridge_lpn s"
  by (simp add: for_each_bridge_lpn_def)

lemma build_fidgen_block_switchinfo [simp]:
  "build_fidgen_block (s\<lparr>switchinfo := x\<rparr>) g = build_fidgen_block s g"
  by (simp add: build_fidgen_block_def)









lemma io_call_fields [simp]:
  "io_calls (snd (io_call env c st)) = io_calls st @ [c]"
  "io_sd (snd (io_call env c st)) = io_sd st"
  by (simp_all add: io_call_def)











end
